theory Spec2Isabelle
  imports Complex_Main "HOL-Library.AList"
begin

section \<open>Python string and path primitives\<close>

text \<open>
  The source is Python 3; strings are modelled as \<open>string\<close> (byte lists), which agrees
  with Python's \<open>str\<close> on the ASCII text the corpora and the manifests use. Only the
  operations \<open>data_preparation.py\<close> calls are modelled, each with the result Python gives.
\<close>

abbreviation SP :: char where "SP \<equiv> CHR '' ''"
abbreviation SLASH :: char where "SLASH \<equiv> CHR ''/''"
abbreviation NL :: char where "NL \<equiv> CHR 0x0A"
abbreviation TAB :: char where "TAB \<equiv> CHR 0x09"

text \<open>\<open>s.split(c)\<close> for a one-character separator: every occurrence splits, and the
  result always has at least one element (\<open>"".split(" ") == [""]\<close>).\<close>

fun split_chr :: "char \<Rightarrow> string \<Rightarrow> string list" where
  "split_chr c [] = [[]]"
| "split_chr c (x # xs) =
     (if x = c then [] # split_chr c xs
      else (case split_chr c xs of [] \<Rightarrow> [[x]] | t # ts \<Rightarrow> (x # t) # ts))"

text \<open>\<open>sep.join(xs)\<close>.\<close>

fun join :: "string \<Rightarrow> string list \<Rightarrow> string" where
  "join sep [] = []"
| "join sep [x] = x"
| "join sep (x # y # ys) = x @ sep @ join sep (y # ys)"

text \<open>\<open>s.replace(old, new)\<close> for a non-empty \<open>old\<close> (every call of the source passes a
  non-empty literal): occurrences are replaced from the left, without overlap.\<close>

function replace_str :: "string \<Rightarrow> string \<Rightarrow> string \<Rightarrow> string" where
  "replace_str old new [] = []"
| "replace_str old new (x # xs) =
     (if old \<noteq> [] \<and> take (length old) (x # xs) = old
      then new @ replace_str old new (drop (length old) (x # xs))
      else x # replace_str old new xs)"
  by pat_completeness auto
termination
  by (relation "measure (\<lambda>(old, new, s). length s)") auto

text \<open>\<open>s.rstrip(c)\<close> for one character, and \<open>s.strip()\<close> (ASCII white space).\<close>

definition rstrip_chr :: "char \<Rightarrow> string \<Rightarrow> string" where
  "rstrip_chr c s = rev (dropWhile (\<lambda>x. x = c) (rev s))"

definition is_space :: "char \<Rightarrow> bool" where
  "is_space c = (c = SP \<or> c = TAB \<or> c = NL \<or> c = CHR 0x0B \<or> c = CHR 0x0C \<or> c = CHR 0x0D
     \<or> c = CHR 0x1C \<or> c = CHR 0x1D \<or> c = CHR 0x1E \<or> c = CHR 0x1F)"

definition strip :: "string \<Rightarrow> string" where
  "strip s = rev (dropWhile is_space (rev (dropWhile is_space s)))"

text \<open>\<open>os.path.dirname\<close> and \<open>os.path.basename\<close> of \<open>posixpath\<close>: the head is the path up
  to and including its last slash, with trailing slashes removed unless it is all slashes.\<close>

definition path_head :: "string \<Rightarrow> string" where
  "path_head p = rev (dropWhile (\<lambda>x. x \<noteq> SLASH) (rev p))"

definition dirname :: "string \<Rightarrow> string" where
  "dirname p =
     (let head = path_head p
      in if head \<noteq> [] \<and> \<not> list_all (\<lambda>x. x = SLASH) head then rstrip_chr SLASH head else head)"

definition basename :: "string \<Rightarrow> string" where
  "basename p = rev (takeWhile (\<lambda>x. x \<noteq> SLASH) (rev p))"

text \<open>Indexing from the end, \<open>xs[-1]\<close> and \<open>xs[-2]\<close>, and \<open>xs[i]\<close>: out of range is an
  \<open>IndexError\<close>, here \<open>None\<close>.\<close>

definition index_last :: "'a list \<Rightarrow> 'a option" where
  "index_last xs = (if xs = [] then None else Some (last xs))"

definition index_last2 :: "'a list \<Rightarrow> 'a option" where
  "index_last2 xs = (if length xs < 2 then None else Some (xs ! (length xs - 2)))"

definition index_at :: "'a list \<Rightarrow> nat \<Rightarrow> 'a option" where
  "index_at xs i = (if i < length xs then Some (xs ! i) else None)"

section \<open>Data model\<close>

text \<open>The resolved option dictionaries (\<open>self.conf\<close>, returned by \<open>check_opts\<close>), one record
  per class with the keys of its \<open>expected_options\<close>. An option whose default is the string
  \<open>'None'\<close> is \<open>None\<close> when not given.\<close>

record stager_conf =
  s_class_name :: string
  data_file :: "string list"
  local_folder :: string
  copy_cmd :: string
  copy_opts :: string
  uncompress_cmd :: string
  uncompress_opts :: string

record timit_conf =
  t_class_name :: string
  t_data_folder :: string
  t_splits :: "string list"
  t_kaldi_ali_tr :: "string option"
  t_kaldi_ali_dev :: "string option"
  t_kaldi_ali_test :: "string option"
  t_kaldi_lab_opts :: "string option"
  t_save_folder :: "string option"

record libri_conf =
  l_data_folder :: string
  l_splits :: "string list"
  l_save_folder :: "string option"
  l_select_n_sentences :: "nat list option"

text \<open>What a file on disk holds: text lines, a pickled value (\<open>save_pkl\<close>), audio with its
  number of samples, or anything else.\<close>

datatype pkl = PTimit timit_conf | PLibri libri_conf | PLabel "nat list"

datatype content = Txt "string list" | Pkl pkl | Audio nat | Raw

datatype level = Error | Debug

datatype event =
    Log level string
  | Shell string
  | MkDirs string
  | WriteTxt string "string list"
  | SavePkl string pkl

text \<open>The world a run acts on: the regular files (in traversal order), the directories, and
  the trace of effects in the order they happened.\<close>

record world =
  files :: "(string \<times> content) list"
  dirs :: "string list"
  trace :: "event list"

datatype errno = EEXIST | EACCES

datatype exc =
    IndexError
  | KeyError string
  | TypeError
  | FileNotFoundError string
  | OSError errno
  | UnboundLocalError
  | LoadError string
  | SystemExit string

datatype 'a res = Ok 'a | Raise exc

type_synonym 'a m = "world \<Rightarrow> 'a res \<times> world"

definition ret :: "'a \<Rightarrow> 'a m" where
  "ret x w = (Ok x, w)"

definition throw :: "exc \<Rightarrow> 'a m" where
  "throw e w = (Raise e, w)"

definition bind :: "'a m \<Rightarrow> ('a \<Rightarrow> 'b m) \<Rightarrow> 'b m" where
  "bind f g w = (case f w of (Ok x, w') \<Rightarrow> g x w' | (Raise e, w') \<Rightarrow> (Raise e, w'))"

definition seq :: "unit m \<Rightarrow> 'b m \<Rightarrow> 'b m" where
  "seq f g = bind f (\<lambda>_. g)"

definition lift_opt :: "exc \<Rightarrow> 'a option \<Rightarrow> 'a m" where
  "lift_opt e x = (case x of None \<Rightarrow> throw e | Some v \<Rightarrow> ret v)"

section \<open>The collaborators that are not in the sources\<close>

text \<open>
  \<open>utils.py\<close> and \<open>data_io.py\<close> are not among the sources. What the environment decides is a
  parameter of every run:
  \<^item> \<open>errors_abort\<close>: whether \<open>logger_write\<close> at its default level (error) ends the run;
  \<^item> \<open>mkdir_denied\<close>: the paths \<open>os.makedirs\<close> cannot create;
  \<^item> \<open>shell_effect\<close>: what a shell command does to the files and directories;
  \<^item> \<open>str_duration\<close>: the text \<open>str(n / 16000)\<close> of a float, for \<open>n\<close> samples;
  \<^item> \<open>read_kaldi_lab\<close>: the label dictionary Kaldi gives for an alignment folder.
\<close>

record env =
  errors_abort :: bool
  mkdir_denied :: "string \<Rightarrow> bool"
  shell_effect :: "string \<Rightarrow> world \<Rightarrow> world"
  str_duration :: "nat \<Rightarrow> string"
  read_kaldi_lab :: "string \<Rightarrow> string option \<Rightarrow> (string \<rightharpoonup> nat list)"

definition emit :: "event \<Rightarrow> unit m" where
  "emit e w = (Ok (), w\<lparr>trace := trace w @ [e]\<rparr>)"

text \<open>Modelled from the spec: \<open>utils.logger_write\<close> is missing. The message is recorded; at
  the error level the spec's section 9 says the reference only logs and keeps going, and
  mandates an abort for reimplementations, so both are covered by \<open>errors_abort\<close>.\<close>

definition logger_write :: "env \<Rightarrow> string \<Rightarrow> level \<Rightarrow> unit m" where
  "logger_write en msg lv =
     seq (emit (Log lv msg))
       (if lv = Error \<and> errors_abort en then throw (SystemExit msg) else ret ())"

text \<open>Modelled from the spec: \<open>utils.run_shell\<close> is missing. The command is recorded and has
  the effect the environment gives it on files and directories; its exit status is not
  looked at by the caller.\<close>

definition run_shell :: "env \<Rightarrow> string \<Rightarrow> unit m" where
  "run_shell en cmd w =
     (let w' = shell_effect en cmd w
      in (Ok (), w\<lparr>files := files w', dirs := dirs w', trace := trace w @ [Shell cmd]\<rparr>))"

definition isfile :: "world \<Rightarrow> string \<Rightarrow> bool" where
  "isfile w p = (map_of (files w) p \<noteq> None)"

definition path_exists :: "world \<Rightarrow> string \<Rightarrow> bool" where
  "path_exists w p = (isfile w p \<or> p \<in> set (dirs w))"

text \<open>\<open>os.makedirs(p)\<close>: \<open>EEXIST\<close> when the path exists, another \<open>OSError\<close> when the
  environment refuses.\<close>

definition os_makedirs :: "env \<Rightarrow> string \<Rightarrow> unit m" where
  "os_makedirs en p w =
     (if path_exists w p then (Raise (OSError EEXIST), w)
      else if mkdir_denied en p then (Raise (OSError EACCES), w)
      else (Ok (), w\<lparr>dirs := dirs w @ [p], trace := trace w @ [MkDirs p]\<rparr>))"

text \<open>Modelled from the spec: \<open>data_io.save_pkl\<close>, \<open>load_pkl\<close> and \<open>write_txt_file\<close> are
  missing; the blob store round-trips a value, the text writer rewrites the whole file.
  A file that holds no pickled value cannot be loaded.\<close>

definition save_pkl :: "pkl \<Rightarrow> string \<Rightarrow> unit m" where
  "save_pkl v p w =
     (Ok (), w\<lparr>files := AList.update p (Pkl v) (files w), trace := trace w @ [SavePkl p v]\<rparr>)"

definition load_pkl :: "string \<Rightarrow> pkl m" where
  "load_pkl p w =
     (case map_of (files w) p of
        Some (Pkl v) \<Rightarrow> (Ok v, w)
      | _ \<Rightarrow> (Raise (LoadError p), w))"

definition write_txt_file :: "string list \<Rightarrow> string \<Rightarrow> unit m" where
  "write_txt_file ls p w =
     (Ok (), w\<lparr>files := AList.update p (Txt ls) (files w), trace := trace w @ [WriteTxt p ls]\<rparr>)"

text \<open>\<open>open(p)\<close> read line by line, each line with its newline; \<open>FileNotFoundError\<close> when
  there is no such file.\<close>

definition open_lines :: "string \<Rightarrow> string list m" where
  "open_lines p w =
     (case map_of (files w) p of
        Some (Txt ls) \<Rightarrow> (Ok (map (\<lambda>l. l @ [NL]) ls), w)
      | _ \<Rightarrow> (Raise (FileNotFoundError p), w))"

section \<open>copy\_data\_locally\<close>

definition copy_command :: "stager_conf \<Rightarrow> string \<Rightarrow> string \<Rightarrow> string" where
  "copy_command c df dest = copy_cmd c @ '' '' @ copy_opts c @ df @ '' '' @ dest"

definition uncompress_command :: "stager_conf \<Rightarrow> string \<Rightarrow> string \<Rightarrow> string" where
  "uncompress_command c dest lf =
     uncompress_cmd c @ '' '' @ uncompress_opts c @ dest @ '' -C '' @ '' '' @ lf
       @ '' --strip-components=1''"

definition upper_folder :: "stager_conf \<Rightarrow> string" where
  "upper_folder c = dirname (dirname (local_folder c @ ''/''))"

definition dest_file :: "stager_conf \<Rightarrow> string \<Rightarrow> string" where
  "dest_file c df = upper_folder c @ ''/'' @ basename df"

text \<open>The body of the loop over \<open>self.data_file\<close>.\<close>

definition stage_one :: "env \<Rightarrow> stager_conf \<Rightarrow> string \<Rightarrow> unit m" where
  "stage_one en c df w =
     (if \<not> path_exists w (dest_file c df) then
        seq (logger_write en (TAB # ''copying file '' @ df @ '' into '' @ dest_file c df @ '' !'') Debug)
       (seq (run_shell en (copy_command c df (dest_file c df)))
       (seq (logger_write en
               (TAB # ''uncompressing file '' @ dest_file c df @ '' into '' @ local_folder c @ ''/'' @ '' !'')
               Debug)
            (run_shell en (uncompress_command c (dest_file c df) (local_folder c @ ''/''))))) w
      else (Ok (), w))"

fun stage_loop :: "env \<Rightarrow> stager_conf \<Rightarrow> string list \<Rightarrow> unit m" where
  "stage_loop en c [] = ret ()"
| "stage_loop en c (df # rest) = seq (stage_one en c df) (stage_loop en c rest)"

text \<open>\<open>try: os.makedirs(self.local_folder)\<close>, with \<open>EEXIST\<close> ignored and any other
  \<open>OSError\<close> reported.\<close>

definition make_local_folder :: "env \<Rightarrow> stager_conf \<Rightarrow> unit m" where
  "make_local_folder en c w =
     (case os_makedirs en (local_folder c) w of
        (Raise (OSError e), w') \<Rightarrow>
          (if e \<noteq> EEXIST
           then logger_write en (''Cannot create the data local folder '' @ local_folder c @ ''!'') Error w'
           else (Ok (), w'))
      | r \<Rightarrow> r)"

definition copy_data_locally :: "env \<Rightarrow> stager_conf \<Rightarrow> unit m" where
  "copy_data_locally en c = seq (make_local_folder en c) (stage_loop en c (data_file c))"

text \<open>The shell invocations of a trace, in order.\<close>

definition shells :: "event list \<Rightarrow> string list" where
  "shells evs = concat (map (\<lambda>e. case e of Shell cmd \<Rightarrow> [cmd] | _ \<Rightarrow> []) evs)"

section \<open>Shared by timit\_prepare and librispeech\_prepare\<close>

text \<open>The arguments of \<open>__init__\<close> besides the configuration.\<close>

record call_args =
  funct_name :: "string option"
  global_config :: "(string \<rightharpoonup> string) option"

text \<open>\<open>self.global_config["output_folder"]\<close>: a \<open>TypeError\<close> on \<open>None\<close>, a \<open>KeyError\<close>
  when the key is missing.\<close>

definition output_folder :: "call_args \<Rightarrow> exc + string" where
  "output_folder a =
     (case global_config a of
        None \<Rightarrow> Inl TypeError
      | Some g \<Rightarrow> (case g ''output_folder'' of
                    None \<Rightarrow> Inl (KeyError ''output_folder'')
                  | Some out \<Rightarrow> Inr out))"

text \<open>\<open>if self.save_folder is None: self.save_folder = output_folder + "/" + funct_name\<close>.\<close>

definition resolve_save_folder :: "string option \<Rightarrow> call_args \<Rightarrow> exc + string" where
  "resolve_save_folder sf a =
     (case sf of
        Some f \<Rightarrow> Inr f
      | None \<Rightarrow> (case output_folder a of
                    Inl e \<Rightarrow> Inl e
                  | Inr out \<Rightarrow> (case funct_name a of
                                  None \<Rightarrow> Inl TypeError
                                | Some fn \<Rightarrow> Inr (out @ ''/'' @ fn))))"

definition lift_sum :: "exc + 'a \<Rightarrow> 'a m" where
  "lift_sum x = (case x of Inl e \<Rightarrow> throw e | Inr v \<Rightarrow> ret v)"

text \<open>\<open>if not os.path.exists(p): os.makedirs(p)\<close>.\<close>

definition ensure_dir :: "env \<Rightarrow> string \<Rightarrow> unit m" where
  "ensure_dir en p w = (if \<not> path_exists w p then os_makedirs en p w else (Ok (), w))"

text \<open>\<open>tok in path\<close>: substring containment.\<close>

fun contains :: "string \<Rightarrow> string \<Rightarrow> bool" where
  "contains [] t = (t = [])"
| "contains (x # xs) t = (take (length t) (x # xs) = t \<or> contains xs t)"

text \<open>A path lies under a root when the root, followed by a slash, is a proper prefix.\<close>

definition under :: "string \<Rightarrow> string \<Rightarrow> bool" where
  "under rt p =
     (let r = (if rt \<noteq> [] \<and> last rt = SLASH then rt else rt @ ''/'')
      in take (length r) p = r \<and> length r < length p)"

text \<open>Modelled from the spec: \<open>utils.get_all_files\<close> is missing. Section 4.2: all regular
  files under the root, in traversal order, whose full path contains every token of
  \<open>match_and\<close>, at least one of \<open>match_or\<close> when that is given and non-empty, and none of
  \<open>exclude_or\<close>; an absent list is no constraint.\<close>

definition selected :: "string list \<Rightarrow> string list option \<Rightarrow> string list option \<Rightarrow> string \<Rightarrow> bool" where
  "selected match_and match_or exclude_or p =
     (list_all (contains p) match_and
      \<and> (case match_or of None \<Rightarrow> True | Some ts \<Rightarrow> ts = [] \<or> list_ex (contains p) ts)
      \<and> (case exclude_or of None \<Rightarrow> True | Some ts \<Rightarrow> \<not> list_ex (contains p) ts))"

definition get_all_files ::
  "world \<Rightarrow> string \<Rightarrow> string list \<Rightarrow> string list option \<Rightarrow> string list option \<Rightarrow> string list" where
  "get_all_files w rt match_and match_or exclude_or =
     filter (\<lambda>p. under rt p \<and> selected match_and match_or exclude_or p) (map fst (files w))"

text \<open>Modelled from the spec: \<open>data_io.read_wav_soundfile\<close> is missing; it gives the signal,
  of which only the number of samples is used. A path that holds no audio cannot be read.\<close>

definition read_wav_soundfile :: "string \<Rightarrow> nat m" where
  "read_wav_soundfile p w =
     (case map_of (files w) p of
        Some (Audio n) \<Rightarrow> (Ok n, w)
      | _ \<Rightarrow> (Raise (LoadError p), w))"

fun map_opt :: "('a \<Rightarrow> 'b option) \<Rightarrow> 'a list \<Rightarrow> 'b list option" where
  "map_opt f [] = Some []"
| "map_opt f (x # xs) =
     (case f x of
        None \<Rightarrow> None
      | Some y \<Rightarrow> (case map_opt f xs of None \<Rightarrow> None | Some ys \<Rightarrow> Some (y # ys)))"

definition py_str :: "string option \<Rightarrow> string" where
  "py_str x = (case x of None \<Rightarrow> ''None'' | Some s \<Rightarrow> s)"

section \<open>timit\_prepare\<close>

definition timit_save_opt :: "string \<Rightarrow> string" where
  "timit_save_opt sf = sf @ ''/opt_timit_prepare.pkl''"

definition save_scp_train :: "string \<Rightarrow> string" where
  "save_scp_train sf = sf @ ''/train.scp''"

definition save_scp_dev :: "string \<Rightarrow> string" where
  "save_scp_dev sf = sf @ ''/dev.scp''"

definition save_scp_test :: "string \<Rightarrow> string" where
  "save_scp_test sf = sf @ ''/test.scp''"

definition test_spk :: "string list" where
  "test_spk = [''fdhc0'', ''felc0'', ''fjlm0'', ''fmgd0'', ''fmld0'', ''fnlp0'', ''fpas0'',
     ''fpkt0'', ''mbpm0'', ''mcmj0'', ''mdab0'', ''mgrt0'', ''mjdh0'', ''mjln0'', ''mjmp0'',
     ''mklt0'', ''mlll0'', ''mlnt0'', ''mnjm0'', ''mpam0'', ''mtas1'', ''mtls0'', ''mwbt0'',
     ''mwew0'']"

definition dev_spk :: "string list" where
  "dev_spk = [''fadg0'', ''faks0'', ''fcal1'', ''fcmh0'', ''fdac1'', ''fdms0'', ''fdrw0'',
     ''fedw0'', ''fgjd0'', ''fjem0'', ''fjmg0'', ''fjsj0'', ''fkms0'', ''fmah0'', ''fmml0'',
     ''fnmr0'', ''frew0'', ''fsem0'', ''majc0'', ''mbdg0'', ''mbns0'', ''mbwm0'', ''mcsh0'',
     ''mdlf0'', ''mdls0'', ''mdvc0'', ''mers0'', ''mgjf0'', ''mglb0'', ''mgwt0'', ''mjar0'',
     ''mjfc0'', ''mjsw0'', ''mmdb1'', ''mmdm2'', ''mmjr0'', ''mmwh0'', ''mpdf0'', ''mrcs0'',
     ''mreb0'', ''mrjm4'', ''mrjr0'', ''mroa0'', ''mrtk0'', ''mrws1'', ''mtaa0'', ''mtdt0'',
     ''mteb0'', ''mthc0'', ''mwjg0'']"

definition avoid_sentences :: "string list" where
  "avoid_sentences = [''sa1'', ''sa2'']"

definition extension :: "string list" where
  "extension = [''.wav'']"

text \<open>\<open>timit_prepare.skip\<close>.\<close>

definition timit_skip :: "timit_conf \<Rightarrow> string \<Rightarrow> bool m" where
  "timit_skip c sf w =
     (if isfile w (save_scp_train sf) \<and> isfile w (save_scp_dev sf)
         \<and> isfile w (save_scp_test sf) \<and> isfile w (timit_save_opt sf)
      then bind (load_pkl (timit_save_opt sf)) (\<lambda>opts_old. ret (opts_old = PTimit c)) w
      else (Ok False, w))"

text \<open>\<open>timit_prepare.check_timit_folders\<close>.\<close>

definition check_timit_folders :: "env \<Rightarrow> timit_conf \<Rightarrow> unit m" where
  "check_timit_folders en c =
     seq (\<lambda>w. if \<not> path_exists w (t_data_folder c @ ''/test/dr1'')
              then logger_write en
                     (''the folder '' @ (t_data_folder c @ ''/test/dr*'')
                        @ '' does not exist (it is expected in the TIMIT dataset)'') Error w
              else (Ok (), w))
         (\<lambda>w. if \<not> path_exists w (t_data_folder c @ ''/train/dr1'')
              then logger_write en
                     (''the folder '' @ (t_data_folder c @ ''/train/dr*'')
                        @ '' does not exist (it is expected in the TIMIT dataset)'') Error w
              else (Ok (), w))"

text \<open>The variables \<open>create_scp\<close> carries from one wav file to the next; \<open>snt_lab_path\<close> is
  \<open>None\<close> until its first assignment.\<close>

record loop_state =
  snt_no_lab :: nat
  missing_lab :: bool
  snt_lab_path :: "string option"
  scp_lines :: "string list"

text \<open>\<open>spk_id = wav_file.split("/")[-2]\<close> and
  \<open>snt_id = spk_id + "_" + wav_file.split("/")[-1].replace(".wav", "")\<close>.\<close>

definition timit_ids :: "string \<Rightarrow> (string \<times> string) option" where
  "timit_ids wav_file =
     (case index_last2 (split_chr SLASH wav_file) of
        None \<Rightarrow> None
      | Some spk_id \<Rightarrow>
          (case index_last (split_chr SLASH wav_file) of
             None \<Rightarrow> None
           | Some f \<Rightarrow> Some (spk_id, spk_id @ ''_'' @ replace_str ''.wav'' [] f)))"

text \<open>\<open>snt_no_lab / len(wav_lst) > 0.05\<close>. Python divides two integers into the nearest
  double and compares it with the double nearest to 0.05; for lists of fewer than \<open>2 ^ 50\<close>
  files this is the comparison of the exact quotient with \<open>1/20\<close>, which is what is
  modelled. The loop runs only when the list is non-empty, so the divisor is not zero.\<close>

definition too_many :: "nat \<Rightarrow> nat \<Rightarrow> bool" where
  "too_many k n = ((of_nat k :: rat) / of_nat n > 5 / 100)"

definition too_many_msg :: "timit_conf \<Rightarrow> string" where
  "too_many_msg c =
     ''Too many sentences do not have the corresponding kaldi label. Please check data and ''
       @ ''kaldi labels (check '' @ t_data_folder c @ '' and '' @ py_str (t_kaldi_ali_test c) @ '').''"

text \<open>The part of the loop body under \<open>if kaldi_lab is not None\<close>.\<close>

definition label_step ::
  "env \<Rightarrow> timit_conf \<Rightarrow> (string \<rightharpoonup> nat list) \<Rightarrow> string \<Rightarrow> nat \<Rightarrow> string \<Rightarrow> loop_state \<Rightarrow> loop_state m" where
  "label_step en c lab lab_out_dir n snt_id st =
     bind
       (case lab snt_id of
          None \<Rightarrow>
            seq (logger_write en
                   (TAB # ''The sentence '' @ snt_id @ '' does not have a corresponding kaldi label'')
                   Debug)
                (ret (st\<lparr>missing_lab := False, snt_no_lab := snt_no_lab st + 1\<rparr>))
        | Some v \<Rightarrow>
            seq (save_pkl (PLabel v) (lab_out_dir @ ''/'' @ snt_id @ ''.pkl''))
                (ret (st\<lparr>snt_lab_path := Some (lab_out_dir @ ''/'' @ snt_id @ ''.pkl'')\<rparr>)))
       (\<lambda>st'. seq (if too_many (snt_no_lab st') n
                    then logger_write en (too_many_msg c) Error else ret ())
                   (ret st'))"

text \<open>\<open>if not os.path.exists(os.path.dirname(f)): logger_write(err_msg)\<close>; both places
  use the message of the wrd file.\<close>

definition check_sibling :: "env \<Rightarrow> string \<Rightarrow> unit m" where
  "check_sibling en f w =
     (if \<not> path_exists w (dirname f)
      then logger_write en (''the wrd file '' @ f @ '' does not exists!'') Error w
      else (Ok (), w))"

text \<open>\<open>[line.rstrip("\n").split(" ")[2] for line in open(wrd_file)]\<close>, joined by
  underscores, and the same for the phonemes after \<open>replace("h#", "sil")\<close>.\<close>

definition word_of_line :: "string \<Rightarrow> string option" where
  "word_of_line line = index_at (split_chr SP (rstrip_chr NL line)) 2"

definition phoneme_of_line :: "string \<Rightarrow> string option" where
  "phoneme_of_line line =
     index_at (split_chr SP (replace_str ''h#'' ''sil'' (rstrip_chr NL line))) 2"

definition read_words :: "string \<Rightarrow> string m" where
  "read_words wrd_file =
     bind (open_lines wrd_file)
       (\<lambda>ls. bind (lift_opt IndexError (map_opt word_of_line ls)) (\<lambda>words. ret (join ''_'' words)))"

definition read_phonemes :: "string \<Rightarrow> string m" where
  "read_phonemes phn_file =
     bind (open_lines phn_file)
       (\<lambda>ls. bind (lift_opt IndexError (map_opt phoneme_of_line ls))
                (\<lambda>phonemes. ret (join ''_'' phonemes)))"

definition timit_scp_line :: "string \<Rightarrow> string \<Rightarrow> string \<Rightarrow> string \<Rightarrow> string \<Rightarrow> string \<Rightarrow> string" where
  "timit_scp_line snt_id duration wav_file spk_id phonemes words =
     ''ID='' @ snt_id @ '' duration='' @ duration @ '' wav=('' @ wav_file @ '',wav)''
       @ '' spk_id=('' @ spk_id @ '',string)''
       @ '' phn=('' @ replace_str '' '' ''_'' phonemes @ '',string)''
       @ '' wrd=('' @ replace_str '' '' ''_'' words @ '',string)''"

text \<open>The second half of the loop body, from reading the signal to the composed
  \<open>scp_line\<close>; \<open>lab\<close> is the label dictionary with its output folder when \<open>kaldi_lab\<close> is
  given.\<close>

definition timit_record ::
  "env \<Rightarrow> ((string \<rightharpoonup> nat list) \<times> string) option \<Rightarrow> string \<Rightarrow> string \<Rightarrow> string \<Rightarrow> loop_state
     \<Rightarrow> string m" where
  "timit_record en lab wav_file spk_id snt_id st1 =
     bind (read_wav_soundfile wav_file) (\<lambda>samples.
     seq (check_sibling en (replace_str ''.wav'' ''.wrd'' wav_file)) (
     bind (read_words (replace_str ''.wav'' ''.wrd'' wav_file)) (\<lambda>words.
     seq (check_sibling en (replace_str ''.wav'' ''.phn'' wav_file)) (
     bind (read_phonemes (replace_str ''.wav'' ''.phn'' wav_file)) (\<lambda>phonemes.
     (case lab of
        None \<Rightarrow> ret (timit_scp_line snt_id (str_duration en samples) wav_file spk_id phonemes words)
      | Some _ \<Rightarrow>
          (case snt_lab_path st1 of
             None \<Rightarrow> throw UnboundLocalError
           | Some p \<Rightarrow>
               ret (timit_scp_line snt_id (str_duration en samples) wav_file spk_id phonemes words
                      @ '' kaldi_lab=('' @ p @ '',pkl)''))))))))"

text \<open>The body of the loop over \<open>wav_lst\<close>.\<close>

definition timit_body ::
  "env \<Rightarrow> timit_conf \<Rightarrow> ((string \<rightharpoonup> nat list) \<times> string) option \<Rightarrow> nat \<Rightarrow> string \<Rightarrow> loop_state
     \<Rightarrow> loop_state m" where
  "timit_body en c lab n wav_file st =
     bind (lift_opt IndexError (timit_ids wav_file)) (\<lambda>(spk_id, snt_id).
     bind (case lab of None \<Rightarrow> ret st
           | Some (l, lab_out_dir) \<Rightarrow> label_step en c l lab_out_dir n snt_id st) (\<lambda>st1.
     if missing_lab st1 then ret st1
     else
       bind (timit_record en lab wav_file spk_id snt_id st1) (\<lambda>scp_line.
       ret (st1\<lparr>scp_lines := scp_lines st1 @ [scp_line]\<rparr>))))"

fun timit_loop ::
  "env \<Rightarrow> timit_conf \<Rightarrow> ((string \<rightharpoonup> nat list) \<times> string) option \<Rightarrow> nat \<Rightarrow> string list \<Rightarrow> loop_state
     \<Rightarrow> loop_state m" where
  "timit_loop en c lab n [] st = ret st"
| "timit_loop en c lab n (wav_file # rest) st =
     bind (timit_body en c lab n wav_file st) (timit_loop en c lab n rest)"

definition init_state :: loop_state where
  "init_state = \<lparr>snt_no_lab = 0, missing_lab = False, snt_lab_path = None, scp_lines = []\<rparr>"

text \<open>Reading the Kaldi labels when \<open>kaldi_lab\<close> is given, and making their output folder.\<close>

definition read_labels ::
  "env \<Rightarrow> call_args \<Rightarrow> string \<Rightarrow> string option \<Rightarrow> string option
     \<Rightarrow> ((string \<rightharpoonup> nat list) \<times> string) option m" where
  "read_labels en a sf kaldi_lab kaldi_lab_opts =
     (case kaldi_lab of
        None \<Rightarrow> ret None
      | Some kl \<Rightarrow>
          bind (lift_sum (output_folder a)) (\<lambda>out.
          seq (ensure_dir en (sf @ ''/kaldi_labels''))
              (ret (Some (read_kaldi_lab en kl kaldi_lab_opts, sf @ ''/kaldi_labels'')))))"

text \<open>\<open>timit_prepare.create_scp\<close>.\<close>

definition timit_create_scp ::
  "env \<Rightarrow> timit_conf \<Rightarrow> call_args \<Rightarrow> string \<Rightarrow> string list \<Rightarrow> string \<Rightarrow> string option \<Rightarrow> string option
     \<Rightarrow> unit m" where
  "timit_create_scp en c a sf wav_lst scp_file kaldi_lab kaldi_lab_opts =
     seq (logger_write en (TAB # CHR 0x22 # ''Creating scp lists in  '' @ scp_file @ ''...'' @ [CHR 0x22]) Debug) (
     bind (read_labels en a sf kaldi_lab kaldi_lab_opts) (\<lambda>lab.
     bind (timit_loop en c lab (length wav_lst) wav_lst init_state) (\<lambda>st.
     seq (write_txt_file (scp_lines st) scp_file)
         (logger_write en (TAB # scp_file @ '' sucessfully created!'') Debug))))"

text \<open>One split of \<open>timit_prepare.__init__\<close>: discovery, then \<open>create_scp\<close>.\<close>

definition timit_split ::
  "env \<Rightarrow> timit_conf \<Rightarrow> call_args \<Rightarrow> string \<Rightarrow> string \<Rightarrow> string list \<Rightarrow> string list option \<Rightarrow> string
     \<Rightarrow> string option \<Rightarrow> unit m" where
  "timit_split en c a sf name match_lst match_or scp_file kaldi_lab w =
     (if name \<in> set (t_splits c)
      then timit_create_scp en c a sf
             (get_all_files w (t_data_folder c) match_lst match_or (Some avoid_sentences))
             scp_file kaldi_lab (t_kaldi_lab_opts c) w
      else (Ok (), w))"

text \<open>\<open>timit_prepare.__init__\<close>, after the options have been resolved.\<close>

definition timit_build :: "env \<Rightarrow> timit_conf \<Rightarrow> call_args \<Rightarrow> string \<Rightarrow> unit m" where
  "timit_build en c a sf =
     seq (check_timit_folders en c) (
     seq (logger_write en (TAB # ''Creating scp file for the TIMIT Dataset..'') Debug) (
     seq (timit_split en c a sf ''train'' (extension @ [''train'']) None
            (save_scp_train sf) (t_kaldi_ali_tr c)) (
     seq (timit_split en c a sf ''dev'' (extension @ [''test'']) (Some dev_spk)
            (save_scp_dev sf) (t_kaldi_ali_dev c)) (
     timit_split en c a sf ''test'' (extension @ [''test'']) (Some test_spk)
            (save_scp_test sf) (t_kaldi_ali_test c)))))"

definition timit_prepare :: "env \<Rightarrow> timit_conf \<Rightarrow> call_args \<Rightarrow> unit m" where
  "timit_prepare en c a =
     bind (lift_sum (resolve_save_folder (t_save_folder c) a)) (\<lambda>sf.
     seq (ensure_dir en sf) (
     bind (timit_skip c sf) (\<lambda>skip.
     if skip then
       seq (logger_write en (TAB # save_scp_train sf @ '' sucessfully created!'') Debug) (
       seq (logger_write en (TAB # save_scp_dev sf @ '' sucessfully created!'') Debug)
           (logger_write en (TAB # save_scp_test sf @ '' sucessfully created!'') Debug))
     else
       seq (timit_build en c a sf) (save_pkl (PTimit c) (timit_save_opt sf)))))"

section \<open>librispeech\_prepare\<close>

definition libri_save_opt :: "string \<Rightarrow> string" where
  "libri_save_opt sf = sf @ ''/opt_librispeech_prepare.pkl''"

definition libri_scp :: "string \<Rightarrow> string \<Rightarrow> string" where
  "libri_scp sf split = sf @ ''/'' @ split @ ''.scp''"

text \<open>\<open>librispeech_prepare.skip\<close>: the loop over the splits, then the saved options.\<close>

fun libri_skip_scan :: "world \<Rightarrow> string \<Rightarrow> string list \<Rightarrow> bool \<Rightarrow> bool" where
  "libri_skip_scan w sf [] skip = skip"
| "libri_skip_scan w sf (split # rest) skip =
     libri_skip_scan w sf rest (if \<not> isfile w (libri_scp sf split) then False else skip)"

definition librispeech_skip :: "libri_conf \<Rightarrow> string \<Rightarrow> bool m" where
  "librispeech_skip c sf w =
     (let skip = libri_skip_scan w sf (l_splits c) True
      in if skip then
           (if isfile w (libri_save_opt sf)
            then bind (load_pkl (libri_save_opt sf))
                   (\<lambda>opts_old. ret (if opts_old = PLibri c then True else False)) w
            else (Ok skip, w))
         else (Ok skip, w))"

text \<open>\<open>librispeech_prepare.text_to_dict\<close>.\<close>

fun text_lines_to_dict :: "string list \<Rightarrow> (string \<rightharpoonup> string) \<Rightarrow> (string \<rightharpoonup> string) option" where
  "text_lines_to_dict [] d = Some d"
| "text_lines_to_dict (line # rest) d =
     (case split_chr SP (strip line) of
        [] \<Rightarrow> None
      | k # ws \<Rightarrow> text_lines_to_dict rest (d(k \<mapsto> join ''_'' ws)))"

fun text_to_dict_loop :: "string list \<Rightarrow> (string \<rightharpoonup> string) \<Rightarrow> (string \<rightharpoonup> string) m" where
  "text_to_dict_loop [] d = ret d"
| "text_to_dict_loop (f # rest) d =
     bind (open_lines f) (\<lambda>ls.
     bind (lift_opt IndexError (text_lines_to_dict ls d)) (text_to_dict_loop rest))"

definition text_to_dict :: "string list \<Rightarrow> (string \<rightharpoonup> string) m" where
  "text_to_dict text_lst = text_to_dict_loop text_lst Map.empty"

text \<open>\<open>librispeech_prepare.create_scp\<close>.\<close>

definition libri_scp_line :: "string \<Rightarrow> string \<Rightarrow> string \<Rightarrow> string \<Rightarrow> string \<Rightarrow> string" where
  "libri_scp_line snt_id duration wav_file spk_id wrd =
     ''ID='' @ snt_id @ '' duration='' @ duration @ '' wav=('' @ wav_file @ '',flac)''
       @ '' spk_id=('' @ spk_id @ '',string)'' @ '' wrd=('' @ wrd @ '',string)''"

definition libri_snt_id :: "string \<Rightarrow> string option" where
  "libri_snt_id wav_file =
     map_option (replace_str ''.flac'' []) (index_last (split_chr SLASH wav_file))"

definition libri_spk_id :: "string \<Rightarrow> string" where
  "libri_spk_id snt_id = join ''-'' (take 2 (split_chr (CHR ''-'') snt_id))"

definition libri_body :: "env \<Rightarrow> (string \<rightharpoonup> string) \<Rightarrow> string \<Rightarrow> string m" where
  "libri_body en text_dict wav_file =
     bind (lift_opt IndexError (libri_snt_id wav_file)) (\<lambda>snt_id.
     bind (lift_opt (KeyError snt_id) (text_dict snt_id)) (\<lambda>wrd.
     bind (read_wav_soundfile wav_file) (\<lambda>samples.
     ret (libri_scp_line snt_id (str_duration en samples) wav_file (libri_spk_id snt_id) wrd))))"

fun libri_loop ::
  "env \<Rightarrow> (string \<rightharpoonup> string) \<Rightarrow> nat \<Rightarrow> string list \<Rightarrow> string list \<Rightarrow> nat \<Rightarrow> string list m" where
  "libri_loop en text_dict sel [] ls cnt = ret ls"
| "libri_loop en text_dict sel (wav_file # rest) ls cnt =
     bind (libri_body en text_dict wav_file) (\<lambda>scp_line.
     if Suc cnt = sel then ret (ls @ [scp_line])
     else libri_loop en text_dict sel rest (ls @ [scp_line]) (Suc cnt))"

definition librispeech_create_scp ::
  "env \<Rightarrow> string \<Rightarrow> string list \<Rightarrow> (string \<rightharpoonup> string) \<Rightarrow> string \<Rightarrow> nat \<Rightarrow> unit m" where
  "librispeech_create_scp en sf wav_lst text_dict split select_n_sentences =
     seq (logger_write en (TAB # ''Creating scp lists in  '' @ libri_scp sf split @ ''...'') Debug) (
     bind (libri_loop en text_dict select_n_sentences wav_lst [] 0) (\<lambda>ls.
     seq (write_txt_file ls (libri_scp sf split))
         (logger_write en (TAB # libri_scp sf split @ '' sucessfully created!'') Debug)))"

text \<open>\<open>librispeech_prepare.check_librispeech_folders\<close>.\<close>

fun check_librispeech_folders :: "env \<Rightarrow> libri_conf \<Rightarrow> string list \<Rightarrow> unit m" where
  "check_librispeech_folders en c [] = ret ()"
| "check_librispeech_folders en c (split # rest) =
     seq (\<lambda>w. if \<not> path_exists w (l_data_folder c @ ''/'' @ split)
              then logger_write en
                     (''the folder '' @ (l_data_folder c @ ''/'' @ split)
                        @ '' does not exist (it is expected in the Librispeech dataset)'') Error w
              else (Ok (), w))
         (check_librispeech_folders en c rest)"

text \<open>One round of the loop over \<open>range(len(self.splits))\<close>.\<close>

definition libri_split :: "env \<Rightarrow> libri_conf \<Rightarrow> string \<Rightarrow> nat \<Rightarrow> string \<Rightarrow> unit m" where
  "libri_split en c sf split_index split w =
     (let wav_lst = get_all_files w (l_data_folder c @ ''/'' @ split) [''.flac''] None None;
          text_lst = get_all_files w (l_data_folder c @ ''/'' @ split) [''trans.txt''] None None
      in bind (text_to_dict text_lst) (\<lambda>text_dict.
         bind (case l_select_n_sentences c of
                 None \<Rightarrow> ret (length wav_lst)
               | Some ns \<Rightarrow> lift_opt IndexError (index_at ns split_index)) (\<lambda>select_n_sentences.
         librispeech_create_scp en sf wav_lst text_dict split select_n_sentences)) w)"

fun libri_splits_loop :: "env \<Rightarrow> libri_conf \<Rightarrow> string \<Rightarrow> nat \<Rightarrow> string list \<Rightarrow> unit m" where
  "libri_splits_loop en c sf i [] = ret ()"
| "libri_splits_loop en c sf i (split # rest) =
     seq (libri_split en c sf i split) (libri_splits_loop en c sf (Suc i) rest)"

fun libri_created_msgs :: "env \<Rightarrow> string \<Rightarrow> string list \<Rightarrow> unit m" where
  "libri_created_msgs en sf [] = ret ()"
| "libri_created_msgs en sf (split # rest) =
     seq (logger_write en (TAB # libri_scp sf split @ '' created!'') Debug)
         (libri_created_msgs en sf rest)"

definition librispeech_prepare :: "env \<Rightarrow> libri_conf \<Rightarrow> call_args \<Rightarrow> unit m" where
  "librispeech_prepare en c a =
     bind (lift_sum (resolve_save_folder (l_save_folder c) a)) (\<lambda>sf.
     seq (ensure_dir en sf) (
     bind (librispeech_skip c sf) (\<lambda>skip.
     if skip then libri_created_msgs en sf (l_splits c)
     else
       seq (check_librispeech_folders en c (l_splits c)) (
       seq (libri_splits_loop en c sf 0 (l_splits c))
           (save_pkl (PLibri c) (libri_save_opt sf))))))"

section \<open>Predicates on runs\<close>

text \<open>A relation between the world before and after a step that is reflexive and transitive.\<close>

definition rel_ok :: "(world \<Rightarrow> world \<Rightarrow> bool) \<Rightarrow> bool" where
  "rel_ok R = ((\<forall>w. R w w) \<and> (\<forall>a b c. R a b \<longrightarrow> R b c \<longrightarrow> R a c))"

text \<open>Every run of a computation relates the world it starts in to the world it ends in.\<close>

definition stable :: "(world \<Rightarrow> world \<Rightarrow> bool) \<Rightarrow> 'a m \<Rightarrow> bool" where
  "stable R f = (\<forall>w. R w (snd (f w)))"

text \<open>The trace only grows, and every new event satisfies \<open>P\<close>.\<close>

definition grow :: "(event \<Rightarrow> bool) \<Rightarrow> world \<Rightarrow> world \<Rightarrow> bool" where
  "grow P w w' = (\<exists>evs. trace w' = trace w @ evs \<and> list_all P evs)"

text \<open>Every text file of the later world was the same text file in the earlier one.\<close>

definition keep_txt :: "world \<Rightarrow> world \<Rightarrow> bool" where
  "keep_txt w w' = (\<forall>p ls. map_of (files w') p = Some (Txt ls) \<longrightarrow> map_of (files w) p = Some (Txt ls))"

text \<open>There is a text file at the path.\<close>

definition has_text :: "world \<Rightarrow> string \<Rightarrow> bool" where
  "has_text w p = (case map_of (files w) p of Some (Txt ls) \<Rightarrow> True | _ \<Rightarrow> False)"

text \<open>The event is a call of \<open>write_txt_file\<close>.\<close>

definition is_write_txt :: "event \<Rightarrow> bool" where
  "is_write_txt e = (case e of WriteTxt p ls \<Rightarrow> True | _ \<Rightarrow> False)"

text \<open>Saving a label under the label folder is an event that satisfies \<open>P\<close>.\<close>

definition lab_dir_ok :: "(event \<Rightarrow> bool) \<Rightarrow> ((string \<rightharpoonup> nat list) \<times> string) option \<Rightarrow> bool" where
  "lab_dir_ok P lab =
     (case lab of None \<Rightarrow> True
      | Some (l, dir) \<Rightarrow> (\<forall>sid v. P (SavePkl (dir @ ''/'' @ sid @ ''.pkl'') (PLabel v))))"

text \<open>The number of wav files whose utterance id has no entry in the label dictionary.\<close>

definition missing_count :: "(string \<rightharpoonup> nat list) \<Rightarrow> string list \<Rightarrow> nat" where
  "missing_count l wavs =
     length (filter (\<lambda>wav. case timit_ids wav of None \<Rightarrow> False | Some (spk, sid) \<Rightarrow> l sid = None) wavs)"

text \<open>Every exception the computation raises satisfies \<open>Q\<close>.\<close>

definition raises :: "(exc \<Rightarrow> bool) \<Rightarrow> 'a m \<Rightarrow> bool" where
  "raises Q f = (\<forall>w e w'. f w = (Raise e, w') \<longrightarrow> Q e)"

text \<open>The event is a call of \<open>save_pkl\<close> on the path \<open>p\<close>.\<close>

definition saves_at :: "string \<Rightarrow> event \<Rightarrow> bool" where
  "saves_at p e = (case e of SavePkl q v \<Rightarrow> q = p | _ \<Rightarrow> False)"

text \<open>The wav files that the loop of \<open>librispeech_prepare.create_scp\<close> reaches when it is entered
  with the counter at \<open>cnt\<close>: the loop is left after the utterance at which the counter, once
  increased, equals \<open>select_n_sentences\<close>.\<close>

definition libri_processed :: "nat \<Rightarrow> nat \<Rightarrow> string list \<Rightarrow> string list" where
  "libri_processed sel cnt wavs = (if sel \<le> cnt then wavs else take (sel - cnt) wavs)"

section \<open>Concrete inputs\<close>

text \<open>A stager run: one archive, an empty destination; the copy command of this
  environment creates the destination file.\<close>

definition stager_conf0 :: stager_conf where
  "stager_conf0 = \<lparr>s_class_name = ''data_processing.copy_data_locally'',
     data_file = [''/data/TIMIT.tar.gz''], local_folder = ''/home/local/TIMIT'',
     copy_cmd = ''rsync'', copy_opts = '''', uncompress_cmd = ''tar'', uncompress_opts = ''-zxf''\<rparr>"

definition stager_conf1 :: stager_conf where
  "stager_conf1 = stager_conf0\<lparr>copy_opts := ''-a ''\<rparr>"

definition stager_conf2 :: stager_conf where
  "stager_conf2 = stager_conf0\<lparr>copy_opts := ''-av''\<rparr>"

definition env0 :: env where
  "env0 = \<lparr>errors_abort = False, mkdir_denied = (\<lambda>p. False),
     shell_effect = (\<lambda>cmd w. if take 5 cmd = ''rsync''
                               then w\<lparr>files := AList.update ''/home/local/TIMIT.tar.gz'' Raw (files w)\<rparr>
                               else w),
     str_duration = (\<lambda>n. ''1.0''), read_kaldi_lab = (\<lambda>d opts. Map.empty)\<rparr>"

definition stager_world0 :: world where
  "stager_world0 = \<lparr>files = [(''/data/TIMIT.tar.gz'', Raw)],
     dirs = [''/data'', ''/home'', ''/home/local''], trace = []\<rparr>"

definition stager_world1 :: world where
  "stager_world1 = snd (copy_data_locally env0 stager_conf0 stager_world0)"

text \<open>A TIMIT corpus of utterances of one speaker \<open>s\<close>, each with its audio, its words
  and its phonemes; a label dictionary that knows only the utterance \<open>s_a\<close>; and the build
  of a manifest for the utterances \<open>a\<close> and \<open>b\<close> with that label source.\<close>

definition utt :: "string \<Rightarrow> (string \<times> content) list" where
  "utt nm = [(''/d/s/'' @ nm @ ''.wav'', Audio 16000),
             (''/d/s/'' @ nm @ ''.wrd'', Txt [''0 9 hi'', ''9 20 you'']),
             (''/d/s/'' @ nm @ ''.phn'', Txt [''0 1 h#'', ''1 9 ay''])]"

definition corpus :: "(string \<times> content) list \<Rightarrow> world" where
  "corpus fs = \<lparr>files = fs, dirs = [''/d'', ''/d/s'', ''/e''], trace = []\<rparr>"

definition timit_conf0 :: timit_conf where
  "timit_conf0 = \<lparr>t_class_name = ''timit_prepare'', t_data_folder = ''/d'',
     t_splits = [''train''], t_kaldi_ali_tr = None, t_kaldi_ali_dev = None,
     t_kaldi_ali_test = None, t_kaldi_lab_opts = None, t_save_folder = Some ''/e''\<rparr>"

definition timit_conf1 :: timit_conf where
  "timit_conf1 = timit_conf0\<lparr>t_kaldi_ali_tr := Some ''/k''\<rparr>"

definition args0 :: call_args where
  "args0 = \<lparr>funct_name = Some ''prep'', global_config = Some [''output_folder'' \<mapsto> ''/o'']\<rparr>"

definition env1 :: env where
  "env1 = \<lparr>errors_abort = False, mkdir_denied = (\<lambda>p. False), shell_effect = (\<lambda>cmd w. w),
     str_duration = (\<lambda>n. ''1.0''), read_kaldi_lab = (\<lambda>d opts. [''s_a'' \<mapsto> [1]])\<rparr>"

definition run2 :: "unit res \<times> world" where
  "run2 = timit_create_scp env1 timit_conf1 args0 ''/e'' [''/d/s/a.wav'', ''/d/s/b.wav'']
            ''/e/train.scp'' (Some ''/k'') None (corpus (utt ''a'' @ utt ''b''))"

text \<open>The same build when \<open>logger_write\<close> at the error level ends the program.\<close>

definition run2_abort :: "unit res \<times> world" where
  "run2_abort = timit_create_scp (env1\<lparr>errors_abort := True\<rparr>) timit_conf1 args0 ''/e''
     [''/d/s/a.wav'', ''/d/s/b.wav''] ''/e/train.scp'' (Some ''/k'') None (corpus (utt ''a'' @ utt ''b''))"

text \<open>The build of a TIMIT manifest, without a label source, on a corpus where the
  utterance \<open>b\<close> has no \<open>.wrd\<close> file.\<close>

definition run_nowrd :: "unit res \<times> world" where
  "run_nowrd = timit_create_scp env1 timit_conf0 args0 ''/e'' [''/d/s/a.wav'', ''/d/s/b.wav'']
     ''/e/train.scp'' None None
     (corpus (utt ''a'' @ [(''/d/s/b.wav'', Audio 16000), (''/d/s/b.phn'', Txt [''0 1 h#'', ''1 9 ay''])]))"

text \<open>The build of a LibriSpeech manifest for one utterance that has no transcript.\<close>

definition run_notext :: "unit res \<times> world" where
  "run_notext = librispeech_create_scp env1 ''/e'' [''/l/dev/1-2-3.flac''] Map.empty ''dev'' 1
     (corpus [(''/l/dev/1-2-3.flac'', Audio 16000)])"



text \<open>A LibriSpeech chapter of one utterance with its transcript file.\<close>

definition libri_world :: world where
  "libri_world = \<lparr>files = [(''/l/dev/1-2-3.flac'', Audio 16000),
       (''/l/dev/1-2.trans.txt'', Txt [''1-2-3 HELLO WORLD''])],
     dirs = [''/l'', ''/l/dev'', ''/e''], trace = []\<rparr>"

text \<open>A TIMIT corpus with one training utterance, the preparation of its \<open>train\<close> split, and
  the same preparation run again in the world the first run left.\<close>

definition timit_world :: world where
  "timit_world = \<lparr>files = [(''/d/train/dr1/s/a.wav'', Audio 16000),
       (''/d/train/dr1/s/a.wrd'', Txt [''0 9 hi'', ''9 20 you'']),
       (''/d/train/dr1/s/a.phn'', Txt [''0 1 h#'', ''1 9 ay''])],
     dirs = [''/d'', ''/d/train'', ''/d/train/dr1'', ''/d/train/dr1/s'', ''/d/test'', ''/d/test/dr1'', ''/e''],
     trace = []\<rparr>"

definition timit_run1 :: "unit res \<times> world" where
  "timit_run1 = timit_prepare env1 timit_conf0 args0 timit_world"

definition timit_run2 :: "unit res \<times> world" where
  "timit_run2 = timit_prepare env1 timit_conf0 args0 (snd timit_run1)"

text \<open>The preparation of the \<open>dev\<close> split of the LibriSpeech chapter, and a save folder that
  holds \<open>dev.scp\<close> but no saved options.\<close>

definition libri_conf0 :: libri_conf where
  "libri_conf0 = \<lparr>l_data_folder = ''/l'', l_splits = [''dev''], l_save_folder = Some ''/e'',
     l_select_n_sentences = None\<rparr>"

definition libri_run1 :: "unit res \<times> world" where
  "libri_run1 = librispeech_prepare env1 libri_conf0 args0 libri_world"

definition stale_world :: world where
  "stale_world = \<lparr>files = [(''/l/dev/1-2-3.flac'', Audio 16000),
       (''/l/dev/1-2.trans.txt'', Txt [''1-2-3 HELLO WORLD'']), (''/e/dev.scp'', Txt [])],
     dirs = [''/l'', ''/l/dev'', ''/e''], trace = []\<rparr>"

text \<open>What the runs write and log.\<close>

definition timit_line_a :: string where
  "timit_line_a = ''ID=s_a duration=1.0 wav=(/d/train/dr1/s/a.wav,wav) spk_id=(s,string) phn=(sil_ay,string) wrd=(hi_you,string)''"

definition timit_events :: "event list" where
  "timit_events = [Log Debug (TAB # ''Creating scp file for the TIMIT Dataset..''),
     Log Debug (TAB # CHR 0x22 # ''Creating scp lists in  /e/train.scp...'' @ [CHR 0x22]),
     WriteTxt ''/e/train.scp'' [timit_line_a],
     Log Debug (TAB # ''/e/train.scp sucessfully created!''),
     SavePkl ''/e/opt_timit_prepare.pkl'' (PTimit timit_conf0)]"

definition timit_world1 :: world where
  "timit_world1 = timit_world\<lparr>files := files timit_world @
       [(''/e/train.scp'', Txt [timit_line_a]), (''/e/opt_timit_prepare.pkl'', Pkl (PTimit timit_conf0))],
     trace := timit_events\<rparr>"

definition libri_line :: string where
  "libri_line = ''ID=1-2-3 duration=1.0 wav=(/l/dev/1-2-3.flac,flac) spk_id=(1-2,string) wrd=(HELLO_WORLD,string)''"

definition libri_events :: "event list" where
  "libri_events = [Log Debug (TAB # ''Creating scp lists in  /e/dev.scp...''),
     WriteTxt ''/e/dev.scp'' [libri_line],
     Log Debug (TAB # ''/e/dev.scp sucessfully created!''),
     SavePkl ''/e/opt_librispeech_prepare.pkl'' (PLibri libri_conf0)]"

section \<open>Properties of the stager\<close>

lemma stage_one_run:
  assumes "\<not> path_exists w (dest_file c df)"
  shows "trace (snd (stage_one en c df w)) = trace w @
     [Log Debug (TAB # ''copying file '' @ df @ '' into '' @ dest_file c df @ '' !''),
      Shell (copy_command c df (dest_file c df)),
      Log Debug (TAB # ''uncompressing file '' @ dest_file c df @ '' into '' @ local_folder c @ ''/'' @ '' !''),
      Shell (uncompress_command c (dest_file c df) (local_folder c @ ''/''))]"
  using assms
  by (simp add: stage_one_def seq_def bind_def run_shell_def logger_write_def emit_def ret_def Let_def)

text \<open>
  C10, as amended. For an archive whose destination does not exist, the loop body of
  \<open>copy_data_locally\<close> passes two commands to \<open>run_shell\<close>, the first being
  \<open>copy_cmd + " " + copy_opts + data_file + " " + dest_file\<close>: the code puts nothing between
  the options and the source path, so the character just before the source path is the last
  character of \<open>copy_opts\<close>, and the space that follows \<open>copy_cmd\<close> when \<open>copy_opts\<close> is empty.
\<close>

theorem stage_one_copy_command:
  assumes "\<not> path_exists w (dest_file c df)"
  shows "shells (drop (length (trace w)) (trace (snd (stage_one en c df w))))
           = [(copy_cmd c @ '' '' @ copy_opts c) @ df @ '' '' @ dest_file c df,
              uncompress_command c (dest_file c df) (local_folder c @ ''/'')]
       \<and> last (copy_cmd c @ '' '' @ copy_opts c)
           = (if copy_opts c = [] then SP else last (copy_opts c))"
proof -
  have "shells (drop (length (trace w)) (trace (snd (stage_one en c df w))))
           = [copy_command c df (dest_file c df),
              uncompress_command c (dest_file c df) (local_folder c @ ''/'')]"
    by (simp add: stage_one_run [OF assms] shells_def)
  moreover have "copy_command c df (dest_file c df)
      = (copy_cmd c @ '' '' @ copy_opts c) @ df @ '' '' @ dest_file c df"
    by (simp add: copy_command_def)
  moreover have "last (copy_cmd c @ '' '' @ copy_opts c)
           = (if copy_opts c = [] then SP else last (copy_opts c))"
    by simp
  ultimately show ?thesis by simp
qed

lemma stager_world0_dest:
  "\<not> path_exists stager_world0 (dest_file stager_conf2 ''/data/TIMIT.tar.gz'')"
  by code_simp

lemma stager_conf2_uncompress:
  "uncompress_command stager_conf2 (dest_file stager_conf2 ''/data/TIMIT.tar.gz'')
      (local_folder stager_conf2 @ ''/'')
     = ''tar -zxf/home/local/TIMIT.tar.gz -C  /home/local/TIMIT/ --strip-components=1''"
  by code_simp

lemma stager_conf2_copy:
  "(copy_cmd stager_conf2 @ '' '' @ copy_opts stager_conf2) @ ''/data/TIMIT.tar.gz'' @ '' ''
      @ dest_file stager_conf2 ''/data/TIMIT.tar.gz''
     = ''rsync -av/data/TIMIT.tar.gz /home/local/TIMIT.tar.gz''"
  by code_simp

theorem stage_one_copy_command_witness:
  "\<not> path_exists stager_world0 (dest_file stager_conf2 ''/data/TIMIT.tar.gz'')
   \<and> shells (drop (length (trace stager_world0))
        (trace (snd (stage_one env0 stager_conf2 ''/data/TIMIT.tar.gz'' stager_world0))))
       = [''rsync -av/data/TIMIT.tar.gz /home/local/TIMIT.tar.gz'',
          ''tar -zxf/home/local/TIMIT.tar.gz -C  /home/local/TIMIT/ --strip-components=1'']
   \<and> last (copy_cmd stager_conf2 @ '' '' @ copy_opts stager_conf2) = CHR ''v''"
proof -
  have "copy_opts stager_conf2 = ''-av''" by (simp add: stager_conf2_def)
  then show ?thesis
    using stage_one_copy_command [OF stager_world0_dest, of env0]
      stager_world0_dest stager_conf2_uncompress stager_conf2_copy
    by simp
qed

text \<open>
  C10, as stated, fails: with the non-empty options \<open>"-a "\<close> (a trailing space) the
  command that is run has a space between the option and the source path.
\<close>

theorem copy_opts_trailing_space_not_fused:
  "copy_opts stager_conf1 \<noteq> []
   \<and> shells (trace (snd (copy_data_locally env0 stager_conf1 stager_world0)))
       = [''rsync -a /data/TIMIT.tar.gz /home/local/TIMIT.tar.gz'',
          ''tar -zxf/home/local/TIMIT.tar.gz -C  /home/local/TIMIT/ --strip-components=1'']
   \<and> last (copy_cmd stager_conf1 @ '' '' @ copy_opts stager_conf1) = SP"
  by code_simp

lemma shells_append [simp]: "shells (xs @ ys) = shells xs @ shells ys"
  by (simp add: shells_def)

lemma make_local_folder_shells:
  "shells (trace (snd (make_local_folder en c w))) = shells (trace w)"
  by (auto simp: make_local_folder_def os_makedirs_def logger_write_def seq_def bind_def emit_def
      ret_def throw_def shells_def split: errno.splits)

lemma path_exists_mono:
  "path_exists w p \<Longrightarrow> files w' = files w \<Longrightarrow> set (dirs w) \<subseteq> set (dirs w') \<Longrightarrow> path_exists w' p"
  by (auto simp: path_exists_def isfile_def)

lemma make_local_folder_keeps:
  "path_exists w p \<Longrightarrow> path_exists (snd (make_local_folder en c w)) p"
  by (rule path_exists_mono [where w = w])
     (auto simp: make_local_folder_def os_makedirs_def logger_write_def seq_def bind_def emit_def
      ret_def throw_def split: errno.splits)

lemma stage_one_skip: "path_exists w (dest_file c df) \<Longrightarrow> stage_one en c df w = (Ok (), w)"
  by (simp add: stage_one_def)

lemma stage_loop_skip:
  "\<forall>df\<in>set dfs. path_exists w (dest_file c df) \<Longrightarrow> stage_loop en c dfs w = (Ok (), w)"
  by (induction dfs) (simp_all add: ret_def seq_def bind_def stage_one_skip)

text \<open>
  C8. When the destination of every archive of the list exists (the state a successful
  first run leaves), a run of the stager makes no shell invocation: the trace gains no
  \<open>Shell\<close> event, and for each archive the copy and the decompress step are both skipped,
  the loop body leaving the world as it is.
\<close>

theorem stager_second_run_no_shell:
  assumes "\<forall>df\<in>set (data_file c). path_exists w (dest_file c df)"
  shows "shells (trace (snd (copy_data_locally en c w))) = shells (trace w)
       \<and> (\<forall>df\<in>set (data_file c). stage_one en c df w = (Ok (), w))"
proof -
  let ?w1 = "snd (make_local_folder en c w)"
  have "\<forall>df\<in>set (data_file c). path_exists ?w1 (dest_file c df)"
    using assms by (simp add: make_local_folder_keeps)
  then have loop: "stage_loop en c (data_file c) ?w1 = (Ok (), ?w1)"
    by (rule stage_loop_skip)
  have "snd (copy_data_locally en c w) = ?w1"
    using loop by (cases "make_local_folder en c w")
      (auto simp: copy_data_locally_def seq_def bind_def split: res.splits)
  then have "shells (trace (snd (copy_data_locally en c w))) = shells (trace w)"
    by (simp add: make_local_folder_shells)
  moreover have "\<forall>df\<in>set (data_file c). stage_one en c df w = (Ok (), w)"
    using assms by (simp add: stage_one_skip)
  ultimately show ?thesis by blast
qed

lemma stager_world1_dest:
  "path_exists stager_world1 (dest_file stager_conf0 ''/data/TIMIT.tar.gz'')"
  by code_simp

lemma stager_world1_shells:
  "shells (trace stager_world1) =
     [''rsync /data/TIMIT.tar.gz /home/local/TIMIT.tar.gz'',
      ''tar -zxf/home/local/TIMIT.tar.gz -C  /home/local/TIMIT/ --strip-components=1'']"
  by code_simp

text \<open>The first run on an empty destination copies and decompresses once; the second run,
  started in the world the first one left, adds no shell invocation.\<close>

theorem stager_second_run_no_shell_witness:
  "path_exists stager_world1 (dest_file stager_conf0 ''/data/TIMIT.tar.gz'')
   \<and> shells (trace stager_world1) =
       [''rsync /data/TIMIT.tar.gz /home/local/TIMIT.tar.gz'',
        ''tar -zxf/home/local/TIMIT.tar.gz -C  /home/local/TIMIT/ --strip-components=1'']
   \<and> shells (trace (snd (copy_data_locally env0 stager_conf0 stager_world1)))
       = shells (trace stager_world1)
   \<and> stage_one env0 stager_conf0 ''/data/TIMIT.tar.gz'' stager_world1 = (Ok (), stager_world1)"
proof -
  have d: "data_file stager_conf0 = [''/data/TIMIT.tar.gz'']"
    by (simp add: stager_conf0_def)
  show ?thesis
    using stager_second_run_no_shell [of stager_conf0 stager_world1 env0]
      stager_world1_dest stager_world1_shells d
    by simp
qed

section \<open>Runs: what is kept from one world to the next\<close>

lemma rel_ok_grow: "rel_ok (grow P)"
  unfolding rel_ok_def grow_def by (metis append.assoc append_Nil2 list_all_append list.pred_inject(1))

lemma rel_ok_keep_txt: "rel_ok keep_txt"
  unfolding rel_ok_def keep_txt_def by blast

lemma stable_ret: "rel_ok R \<Longrightarrow> stable R (ret x)"
  by (simp add: rel_ok_def stable_def ret_def)

lemma stable_throw: "rel_ok R \<Longrightarrow> stable R (throw e)"
  by (simp add: rel_ok_def stable_def throw_def)

lemma stable_bind:
  assumes "rel_ok R" "stable R f" "\<And>x. stable R (g x)"
  shows "stable R (bind f g)"
proof -
  have "R w (snd (bind f g w))" for w
  proof (cases "f w")
    case (Pair r w1)
    have 1: "R w w1" using assms(2) Pair by (metis snd_conv stable_def)
    show ?thesis
    proof (cases r)
      case (Ok x)
      have "R w1 (snd (g x w1))" using assms(3) by (simp add: stable_def)
      with 1 assms(1) have "R w (snd (g x w1))" unfolding rel_ok_def by blast
      then show ?thesis by (simp add: bind_def Pair Ok)
    next
      case (Raise e)
      then show ?thesis using 1 by (simp add: bind_def Pair)
    qed
  qed
  then show ?thesis by (simp add: stable_def)
qed

lemma stable_seq: "rel_ok R \<Longrightarrow> stable R f \<Longrightarrow> stable R g \<Longrightarrow> stable R (seq f g)"
  by (simp add: seq_def stable_bind)

lemma stable_lift_opt: "rel_ok R \<Longrightarrow> stable R (lift_opt e x)"
  by (cases x) (simp_all add: lift_opt_def stable_ret stable_throw)

lemma stable_lift_sum: "rel_ok R \<Longrightarrow> stable R (lift_sum x)"
  by (cases x) (simp_all add: lift_sum_def stable_ret stable_throw)

lemma stable_pure:
  "rel_ok R \<Longrightarrow> (\<And>w. snd (f w) = w) \<Longrightarrow> stable R f"
  by (simp add: stable_def rel_ok_def)

lemma stable_world: "(\<And>w0. stable R (h w0)) \<Longrightarrow> stable R (\<lambda>w. h w w)"
  by (simp add: stable_def)

lemma snd_open_lines: "snd (open_lines p w) = w"
  by (simp add: open_lines_def split: option.splits content.splits)

lemma snd_read_wav: "snd (read_wav_soundfile p w) = w"
  by (simp add: read_wav_soundfile_def split: option.splits content.splits)

lemma snd_load_pkl: "snd (load_pkl p w) = w"
  by (simp add: load_pkl_def split: option.splits content.splits)

lemma stable_emit_grow: "P e \<Longrightarrow> stable (grow P) (emit e)"
  by (simp add: stable_def grow_def emit_def)

lemma stable_emit_keep: "stable keep_txt (emit e)"
  by (simp add: stable_def keep_txt_def emit_def)

lemma stable_logger_grow: "P (Log lv msg) \<Longrightarrow> stable (grow P) (logger_write en msg lv)"
  unfolding logger_write_def
  by (intro stable_seq rel_ok_grow stable_emit_grow) (simp_all add: stable_ret stable_throw rel_ok_grow)

lemma stable_logger_keep: "stable keep_txt (logger_write en msg lv)"
  unfolding logger_write_def
  by (intro stable_seq rel_ok_keep_txt stable_emit_keep) (simp_all add: stable_ret stable_throw rel_ok_keep_txt)

lemma stable_save_pkl_grow: "P (SavePkl p v) \<Longrightarrow> stable (grow P) (save_pkl v p)"
  by (simp add: stable_def grow_def save_pkl_def)

lemma stable_save_pkl_keep: "stable keep_txt (save_pkl v p)"
  by (simp add: stable_def keep_txt_def save_pkl_def update_conv')

lemma stable_check_sibling_grow:
  "P (Log Error (''the wrd file '' @ f @ '' does not exists!'')) \<Longrightarrow>
     stable (grow P) (check_sibling en f)"
  by (simp add: stable_def check_sibling_def stable_logger_grow [unfolded stable_def])
     (simp add: grow_def)

lemma keep_txt_has_text: "keep_txt w w' \<Longrightarrow> has_text w' p \<Longrightarrow> has_text w p"
  by (auto simp: keep_txt_def has_text_def split: option.splits content.splits)

lemma bind_Ok:
  "(bind f g w = (Ok y, w')) = (\<exists>x w1. f w = (Ok x, w1) \<and> g x w1 = (Ok y, w'))"
  by (cases "f w") (auto simp: bind_def split: res.splits)

lemma seq_Ok:
  "(seq f g w = (Ok y, w')) = (\<exists>w1. f w = (Ok (), w1) \<and> g w1 = (Ok y, w'))"
  by (simp add: seq_def bind_Ok)

lemma bind_Raise:
  "(bind f g w = (Raise e, w')) =
     (f w = (Raise e, w') \<or> (\<exists>x w1. f w = (Ok x, w1) \<and> g x w1 = (Raise e, w')))"
  by (cases "f w") (auto simp: bind_def split: res.splits)

lemma seq_Raise:
  "(seq f g w = (Raise e, w')) =
     (f w = (Raise e, w') \<or> (\<exists>w1. f w = (Ok (), w1) \<and> g w1 = (Raise e, w')))"
  by (simp add: seq_def bind_Raise)

lemma ret_Ok: "(ret x w = (Ok y, w')) = (y = x \<and> w' = w)"
  by (auto simp: ret_def)

lemma throw_Ok: "(throw e w = (Ok y, w')) = False"
  by (simp add: throw_def)

lemma lift_opt_Ok: "(lift_opt e x w = (Ok y, w')) = (x = Some y \<and> w' = w)"
  by (cases x) (auto simp: lift_opt_def ret_def throw_def)

lemma read_wav_Ok:
  "(read_wav_soundfile p w = (Ok n, w')) = (w' = w \<and> map_of (files w) p = Some (Audio n))"
  by (auto simp: read_wav_soundfile_def split: option.splits content.splits)

lemma open_lines_Ok:
  "(open_lines p w = (Ok ls, w')) =
     (w' = w \<and> (\<exists>ts. map_of (files w) p = Some (Txt ts) \<and> ls = map (\<lambda>l. l @ [NL]) ts))"
  by (auto simp: open_lines_def split: option.splits content.splits)

lemma read_words_Ok:
  "read_words p w = (Ok s, w') \<Longrightarrow>
     w' = w \<and> has_text w p
     \<and> (\<exists>ts toks. map_of (files w) p = Some (Txt ts)
           \<and> map_opt word_of_line (map (\<lambda>l. l @ [NL]) ts) = Some toks \<and> s = join ''_'' toks)"
  by (auto simp: read_words_def bind_Ok open_lines_Ok lift_opt_Ok ret_Ok has_text_def)

lemma read_phonemes_Ok:
  "read_phonemes p w = (Ok s, w') \<Longrightarrow>
     w' = w \<and> has_text w p
     \<and> (\<exists>ts toks. map_of (files w) p = Some (Txt ts)
           \<and> map_opt phoneme_of_line (map (\<lambda>l. l @ [NL]) ts) = Some toks \<and> s = join ''_'' toks)"
  by (auto simp: read_phonemes_def bind_Ok open_lines_Ok lift_opt_Ok ret_Ok has_text_def)

lemma logger_write_files: "logger_write en msg lv w = (r, w') \<Longrightarrow> files w' = files w"
  by (auto simp: logger_write_def seq_def bind_def emit_def ret_def throw_def split: if_splits)

lemma check_sibling_files: "check_sibling en f w = (r, w') \<Longrightarrow> files w' = files w"
  by (auto simp: check_sibling_def dest: logger_write_files split: if_splits)

lemma timit_record_Ok:
  assumes "timit_record en lab wav spk sid st w = (Ok line, w')"
  shows "has_text w (replace_str ''.wav'' ''.wrd'' wav) \<and> has_text w (replace_str ''.wav'' ''.phn'' wav)"
proof -
  from assms obtain n w1 words w2 w3 phn where
    a: "check_sibling en (replace_str ''.wav'' ''.wrd'' wav) w = (Ok (), w1)"
    and b: "read_words (replace_str ''.wav'' ''.wrd'' wav) w1 = (Ok words, w2)"
    and c: "check_sibling en (replace_str ''.wav'' ''.phn'' wav) w2 = (Ok (), w3)"
    and d: "read_phonemes (replace_str ''.wav'' ''.phn'' wav) w3 = (Ok phn, w')"
    unfolding timit_record_def
    by (auto simp: bind_Ok seq_Ok read_wav_Ok ret_Ok throw_Ok split: option.splits)
  have "has_text w1 (replace_str ''.wav'' ''.wrd'' wav)" "w2 = w1"
    using read_words_Ok [OF b] by simp_all
  moreover have "has_text w3 (replace_str ''.wav'' ''.phn'' wav)"
    using read_phonemes_Ok [OF d] by simp
  moreover have "files w1 = files w" "files w3 = files w2"
    using check_sibling_files [OF a] check_sibling_files [OF c] by simp_all
  ultimately show ?thesis by (simp add: has_text_def)
qed

lemma stable_open_lines: "rel_ok R \<Longrightarrow> stable R (open_lines p)"
  by (rule stable_pure) (simp_all add: snd_open_lines)

lemma stable_read_wav: "rel_ok R \<Longrightarrow> stable R (read_wav_soundfile p)"
  by (rule stable_pure) (simp_all add: snd_read_wav)

lemma stable_load_pkl: "rel_ok R \<Longrightarrow> stable R (load_pkl p)"
  by (rule stable_pure) (simp_all add: snd_load_pkl)

lemma stable_timit_record_grow:
  assumes "\<And>f. P (Log Error (''the wrd file '' @ f @ '' does not exists!''))"
  shows "stable (grow P) (timit_record en lab wav spk sid st)"
  unfolding timit_record_def read_words_def read_phonemes_def
  by (intro stable_bind stable_seq rel_ok_grow stable_check_sibling_grow assms
      stable_read_wav stable_open_lines stable_lift_opt stable_ret)
     (auto simp: stable_ret stable_throw rel_ok_grow split: option.splits)

lemma stable_check_sibling_keep: "stable keep_txt (check_sibling en f)"
proof -
  have "files (snd (check_sibling en f w)) = files w" for w
    using check_sibling_files [of en f w "fst (check_sibling en f w)" "snd (check_sibling en f w)"]
    by simp
  then show ?thesis by (simp add: stable_def keep_txt_def)
qed

lemma stable_timit_record_keep: "stable keep_txt (timit_record en lab wav spk sid st)"
  unfolding timit_record_def read_words_def read_phonemes_def
  by (intro stable_bind stable_seq rel_ok_keep_txt stable_check_sibling_keep
      stable_read_wav stable_open_lines stable_lift_opt stable_ret)
     (auto simp: stable_ret stable_throw rel_ok_keep_txt split: option.splits)

lemma stable_label_step_grow:
  assumes "\<And>lv msg. P (Log lv msg)" "\<And>sid v. P (SavePkl (dir @ ''/'' @ sid @ ''.pkl'') (PLabel v))"
  shows "stable (grow P) (label_step en c l dir n sid st)"
  unfolding label_step_def
  by (intro stable_bind stable_seq rel_ok_grow)
     (auto simp: stable_ret rel_ok_grow assms(1) assms(2) [simplified]
        intro!: stable_seq stable_logger_grow stable_save_pkl_grow split: option.splits)

lemma stable_label_step_keep: "stable keep_txt (label_step en c l dir n sid st)"
  unfolding label_step_def
  by (intro stable_bind stable_seq rel_ok_keep_txt)
     (auto simp: stable_ret rel_ok_keep_txt intro!: stable_seq stable_logger_keep stable_save_pkl_keep
        split: option.splits)

lemma stable_timit_body_grow:
  assumes "\<And>lv msg. P (Log lv msg)" "lab_dir_ok P lab"
  shows "stable (grow P) (timit_body en c lab n wav st)"
  unfolding timit_body_def
  using assms(2)
  by (intro stable_bind rel_ok_grow stable_lift_opt)
     (auto simp: stable_ret rel_ok_grow assms(1) lab_dir_ok_def
        intro!: stable_bind stable_label_step_grow stable_timit_record_grow split: option.splits)

lemma stable_timit_body_keep: "stable keep_txt (timit_body en c lab n wav st)"
  unfolding timit_body_def
  by (intro stable_bind rel_ok_keep_txt stable_lift_opt)
     (auto simp: stable_ret rel_ok_keep_txt
        intro!: stable_bind stable_label_step_keep stable_timit_record_keep split: option.splits)

lemma stable_timit_loop_grow:
  assumes "\<And>lv msg. P (Log lv msg)" "lab_dir_ok P lab"
  shows "stable (grow P) (timit_loop en c lab n wavs st)"
proof (induction wavs arbitrary: st)
  case Nil
  show ?case by (simp add: stable_ret rel_ok_grow)
next
  case (Cons a wavs)
  show ?case
    by (simp, intro stable_bind rel_ok_grow stable_timit_body_grow assms Cons)
qed

lemma stable_timit_loop_keep: "stable keep_txt (timit_loop en c lab n wavs st)"
proof (induction wavs arbitrary: st)
  case Nil
  show ?case by (simp add: stable_ret rel_ok_keep_txt)
next
  case (Cons a wavs)
  show ?case
    by (simp, intro stable_bind rel_ok_keep_txt stable_timit_body_keep Cons)
qed

lemma stableD: "stable R f \<Longrightarrow> f w = (r, w') \<Longrightarrow> R w w'"
  by (metis snd_conv stable_def)

lemma logger_write_Ok: "logger_write en msg lv w = (Ok u, w') \<Longrightarrow> w' = w\<lparr>trace := trace w @ [Log lv msg]\<rparr>"
  by (auto simp: logger_write_def seq_def bind_def emit_def ret_def throw_def split: if_splits)

lemma label_step_Ok:
  assumes "label_step en c l dir n sid st w = (Ok st', w')"
  shows "missing_lab st' = (l sid \<noteq> None \<and> missing_lab st) \<and> scp_lines st' = scp_lines st
       \<and> snt_no_lab st' = snt_no_lab st + (if l sid = None then 1 else 0)"
  using assms unfolding label_step_def
  by (auto simp: bind_Ok seq_Ok ret_Ok split: option.splits if_splits)

lemma timit_body_Ok:
  assumes "timit_body en c lab n wav st w = (Ok st', w')" and "\<not> missing_lab st"
  shows "\<not> missing_lab st' \<and> (\<exists>line. scp_lines st' = scp_lines st @ [line])
       \<and> has_text w (replace_str ''.wav'' ''.wrd'' wav) \<and> has_text w (replace_str ''.wav'' ''.phn'' wav)"
proof -
  from assms(1) obtain spk sid st1 w1 where
    lab: "(case lab of None \<Rightarrow> ret st | Some (l, dir) \<Rightarrow> label_step en c l dir n sid st) w = (Ok st1, w1)"
    and rest: "(if missing_lab st1 then ret st1
                else bind (timit_record en lab wav spk sid st1)
                       (\<lambda>scp_line. ret (st1\<lparr>scp_lines := scp_lines st1 @ [scp_line]\<rparr>))) w1 = (Ok st', w')"
    unfolding timit_body_def by (auto simp: bind_Ok lift_opt_Ok)
  have m1: "\<not> missing_lab st1 \<and> scp_lines st1 = scp_lines st"
    using lab assms(2) by (auto simp: ret_Ok dest: label_step_Ok split: option.splits)
  have k: "keep_txt w w1"
    using lab by (auto simp: ret_Ok rel_ok_keep_txt [unfolded rel_ok_def]
        dest: stableD [OF stable_label_step_keep] split: option.splits)
  from rest m1 obtain line where
    r: "timit_record en lab wav spk sid st1 w1 = (Ok line, w')"
    and s: "st' = st1\<lparr>scp_lines := scp_lines st1 @ [line]\<rparr>"
    by (auto simp: bind_Ok ret_Ok)
  from timit_record_Ok [OF r] k
  have "has_text w (replace_str ''.wav'' ''.wrd'' wav) \<and> has_text w (replace_str ''.wav'' ''.phn'' wav)"
    by (blast intro: keep_txt_has_text)
  with m1 s show ?thesis by simp
qed

lemma timit_loop_Ok:
  "timit_loop en c lab n wavs st w = (Ok st', w') \<Longrightarrow> \<not> missing_lab st \<Longrightarrow>
     \<not> missing_lab st' \<and> length (scp_lines st') = length (scp_lines st) + length wavs
     \<and> (\<forall>wav\<in>set wavs. has_text w (replace_str ''.wav'' ''.wrd'' wav)
                        \<and> has_text w (replace_str ''.wav'' ''.phn'' wav))"
proof (induction wavs arbitrary: st w)
  case Nil
  then show ?case by (simp add: ret_Ok)
next
  case (Cons a wavs)
  from Cons.prems(1) obtain st1 w1 where
    b: "timit_body en c lab n a st w = (Ok st1, w1)"
    and l: "timit_loop en c lab n wavs st1 w1 = (Ok st', w')"
    by (auto simp: bind_Ok)
  note B = timit_body_Ok [OF b Cons.prems(2)]
  have k: "keep_txt w w1" using b by (rule stableD [OF stable_timit_body_keep])
  from Cons.IH [OF l] B
  have I: "\<not> missing_lab st'" "length (scp_lines st') = length (scp_lines st1) + length wavs"
    "\<forall>wav\<in>set wavs. has_text w1 (replace_str ''.wav'' ''.wrd'' wav)
                        \<and> has_text w1 (replace_str ''.wav'' ''.phn'' wav)"
    by simp_all
  from I(3) k have "\<forall>wav\<in>set wavs. has_text w (replace_str ''.wav'' ''.wrd'' wav)
                        \<and> has_text w (replace_str ''.wav'' ''.phn'' wav)"
    by (blast intro: keep_txt_has_text)
  with I(1,2) B show ?case by auto
qed

lemma too_many_iff: "too_many k n = (0 < n \<and> n < 20 * k)"
proof (cases "n = 0")
  case True
  then show ?thesis by (simp add: too_many_def)
next
  case False
  then have "((of_nat k :: rat) / of_nat n > 5 / 100) = ((of_nat n :: rat) < 20 * of_nat k)"
    by (simp add: field_simps)
  also have "\<dots> = (n < 20 * k)"
    by (metis of_nat_less_iff of_nat_mult of_nat_numeral)
  finally show ?thesis using False by (simp add: too_many_def)
qed

lemma too_many_mono: "too_many k n \<Longrightarrow> k \<le> k' \<Longrightarrow> too_many k' n"
  by (auto simp: too_many_iff)

lemma too_many_msg_not_wrd: "too_many_msg c \<noteq> ''the wrd file '' @ f @ '' does not exists!''"
  by (simp add: too_many_msg_def)

text \<open>the label step, case by case\<close>

lemma label_step_cases:
  assumes "label_step en c l dir n sid st w = (r, w')"
  shows "\<exists>evs. trace w' = trace w @ evs
       \<and> (Log Error (too_many_msg c) \<in> set evs
            \<longleftrightarrow> too_many (snt_no_lab st + (if l sid = None then 1 else 0)) n)
       \<and> (\<forall>e. r = Raise e \<longrightarrow> e = SystemExit (too_many_msg c)
                \<and> too_many (snt_no_lab st + (if l sid = None then 1 else 0)) n)"
  using assms unfolding label_step_def logger_write_def save_pkl_def
  by (auto simp: bind_def seq_def emit_def ret_def throw_def split: option.splits if_splits)

lemma raisesD: "raises Q f \<Longrightarrow> f w = (Raise e, w') \<Longrightarrow> Q e"
  by (auto simp: raises_def)

lemma raises_ret: "raises Q (ret x)"
  by (simp add: raises_def ret_def)

lemma raises_throw: "Q e \<Longrightarrow> raises Q (throw e)"
  by (simp add: raises_def throw_def)

lemma raises_bind:
  assumes "raises Q f" "\<And>x. raises Q (g x)"
  shows "raises Q (bind f g)"
proof -
  have "Q e" if "bind f g w = (Raise e, w')" for w e w'
  proof -
    from that consider "f w = (Raise e, w')" | x w1 where "f w = (Ok x, w1)" "g x w1 = (Raise e, w')"
      unfolding bind_Raise by blast
    then show ?thesis
    proof cases
      case 1
      then show ?thesis using assms(1) by (rule raisesD [rotated])
    next
      case 2
      then show ?thesis using assms(2) [of x] by (blast dest: raisesD)
    qed
  qed
  then show ?thesis unfolding raises_def by blast
qed

lemma raises_seq: "raises Q f \<Longrightarrow> raises Q g \<Longrightarrow> raises Q (seq f g)"
  by (simp add: seq_def raises_bind)

lemma raises_lift_opt: "Q e \<Longrightarrow> raises Q (lift_opt e x)"
  by (cases x) (simp_all add: lift_opt_def raises_ret raises_throw)

lemma raises_open_lines: "Q (FileNotFoundError p) \<Longrightarrow> raises Q (open_lines p)"
  by (auto simp: raises_def open_lines_def split: option.splits content.splits)

lemma raises_read_wav: "Q (LoadError p) \<Longrightarrow> raises Q (read_wav_soundfile p)"
  by (auto simp: raises_def read_wav_soundfile_def split: option.splits content.splits)

lemma raises_logger: "Q (SystemExit msg) \<Longrightarrow> raises Q (logger_write en msg lv)"
  by (auto simp: raises_def logger_write_def seq_def bind_def emit_def ret_def throw_def split: if_splits)

lemma raises_check_sibling:
  "Q (SystemExit (''the wrd file '' @ f @ '' does not exists!'')) \<Longrightarrow> raises Q (check_sibling en f)"
  using raises_logger [of Q "''the wrd file '' @ f @ '' does not exists!''" en Error]
  by (auto simp: raises_def check_sibling_def split: if_splits)

lemma raises_timit_record:
  assumes "\<And>p. Q (FileNotFoundError p)" "\<And>p. Q (LoadError p)" "Q IndexError" "Q UnboundLocalError"
    "\<And>f. Q (SystemExit (''the wrd file '' @ f @ '' does not exists!''))"
  shows "raises Q (timit_record en lab wav spk sid st)"
  unfolding timit_record_def read_words_def read_phonemes_def
  by (intro raises_bind raises_seq raises_read_wav raises_check_sibling raises_open_lines
      raises_lift_opt raises_ret assms)
     (auto simp: raises_ret raises_throw assms split: option.splits)

lemma timit_body_threshold:
  assumes "timit_body en c (Some (l, dir)) n wav st w = (r, w')"
  shows "\<exists>evs. trace w' = trace w @ evs
       \<and> (Log Error (too_many_msg c) \<in> set evs
            \<longleftrightarrow> timit_ids wav \<noteq> None \<and> too_many (snt_no_lab st + missing_count l [wav]) n)
       \<and> (\<forall>st'. r = Ok st' \<longrightarrow> snt_no_lab st' = snt_no_lab st + missing_count l [wav]
                                 \<and> timit_ids wav \<noteq> None)
       \<and> (r = Raise (SystemExit (too_many_msg c)) \<longrightarrow> Log Error (too_many_msg c) \<in> set evs)"
proof (cases "timit_ids wav")
  case None
  with assms have "r = Raise IndexError" "w' = w"
    by (auto simp: timit_body_def bind_def lift_opt_def throw_def)
  with None show ?thesis by simp
next
  case (Some ids)
  obtain spk sid where ids: "ids = (spk, sid)" by (cases ids)
  let ?k = "snt_no_lab st + (if l sid = None then 1 else 0)"
  have mc: "missing_count l [wav] = (if l sid = None then 1 else 0)"
    by (simp add: missing_count_def Some ids)
  obtain r1 w1 where ls: "label_step en c l dir n sid st w = (r1, w1)"
    by (cases "label_step en c l dir n sid st w")
  from label_step_cases [OF ls] obtain evs1 where
    H1: "trace w1 = trace w @ evs1
       \<and> (Log Error (too_many_msg c) \<in> set evs1) = too_many ?k n
       \<and> (\<forall>e. r1 = Raise e \<longrightarrow> e = SystemExit (too_many_msg c) \<and> too_many ?k n)" ..
  note e1 = H1 [THEN conjunct1]
  note t1 = H1 [THEN conjunct2, THEN conjunct1]
  note x1 = H1 [THEN conjunct2, THEN conjunct2]
  show ?thesis
  proof (cases r1)
    case (Raise e)
    with assms ls have "r = Raise e" "w' = w1"
      by (auto simp: timit_body_def bind_def lift_opt_def ret_def Some ids)
    note rw = this
    from Some have nn: "timit_ids wav \<noteq> None" by simp
    have x: "e = SystemExit (too_many_msg c)" "too_many ?k n" using x1 Raise by simp_all
    show ?thesis unfolding mc
    proof (intro exI [of _ evs1] conjI allI impI)
      show "trace w' = trace w @ evs1" using e1 rw by simp
      show "(Log Error (too_many_msg c) \<in> set evs1) = (timit_ids wav \<noteq> None \<and> too_many ?k n)"
        using t1 nn by simp
      show "snt_no_lab st' = ?k" if "r = Ok st'" for st' using that rw by simp
      show "timit_ids wav \<noteq> None" by (rule nn)
      show "Log Error (too_many_msg c) \<in> set evs1" using t1 x by simp
    qed
  next
    case (Ok st1)
    from label_step_Ok [OF ls [unfolded Ok]] have k1: "snt_no_lab st1 = ?k" by simp
    let ?rest = "(if missing_lab st1 then ret st1
                else bind (timit_record en (Some (l, dir)) wav spk sid st1)
                       (\<lambda>scp_line. ret (st1\<lparr>scp_lines := scp_lines st1 @ [scp_line]\<rparr>)))"
    from assms ls Ok have rest: "?rest w1 = (r, w')"
      by (auto simp: timit_body_def bind_def lift_opt_def ret_def Some ids)
    let ?P = "\<lambda>e. e \<noteq> Log Error (too_many_msg c)"
    have st: "stable (grow ?P) ?rest"
      by (auto intro!: stable_bind stable_timit_record_grow stable_ret rel_ok_grow
          simp: too_many_msg_def)
    from stableD [OF st rest] obtain evs2 where
      e2: "trace w' = trace w1 @ evs2" and n2: "Log Error (too_many_msg c) \<notin> set evs2"
      by (auto simp: grow_def list_all_iff)
    have rs: "raises (\<lambda>e. e \<noteq> SystemExit (too_many_msg c)) ?rest"
      by (auto intro!: raises_bind raises_timit_record raises_ret simp: too_many_msg_def)
    have nr: "r \<noteq> Raise (SystemExit (too_many_msg c))"
      using raisesD [OF rs, of w1 _ w'] rest by auto
    have ok: "\<forall>st'. r = Ok st' \<longrightarrow> snt_no_lab st' = ?k"
      using rest k1 by (auto simp: bind_Ok ret_Ok split: if_splits)
    have a: "trace w' = trace w @ (evs1 @ evs2)" using e1 e2 by simp
    have b: "(Log Error (too_many_msg c) \<in> set (evs1 @ evs2)) = too_many ?k n"
      using t1 n2 by simp
    from Some have nn: "timit_ids wav \<noteq> None" by simp
    show ?thesis unfolding mc
    proof (intro exI [of _ "evs1 @ evs2"] conjI allI impI)
      show "trace w' = trace w @ evs1 @ evs2" by (rule a)
      show "(Log Error (too_many_msg c) \<in> set (evs1 @ evs2)) = (timit_ids wav \<noteq> None \<and> too_many ?k n)"
        using b nn by simp
      show "snt_no_lab st' = ?k" if "r = Ok st'" for st' using that ok by simp
      show "timit_ids wav \<noteq> None" by (rule nn)
      show "Log Error (too_many_msg c) \<in> set (evs1 @ evs2)" if "r = Raise (SystemExit (too_many_msg c))"
        using that nr by simp
    qed
  qed
qed

lemma missing_count_Nil: "missing_count l [] = 0"
  by (simp add: missing_count_def)

lemma missing_count_Cons: "missing_count l (a # wavs) = missing_count l [a] + missing_count l wavs"
  by (simp add: missing_count_def)

lemma missing_count_le: "missing_count l wavs \<le> length wavs"
  by (simp add: missing_count_def)

lemma timit_loop_threshold:
  "timit_loop en c (Some (l, dir)) n wavs st w = (r, w') \<Longrightarrow>
     \<exists>evs. trace w' = trace w @ evs
       \<and> (Log Error (too_many_msg c) \<in> set evs
            \<longrightarrow> too_many (snt_no_lab st + missing_count l wavs) n)
       \<and> (\<forall>st'. r = Ok st' \<longrightarrow> snt_no_lab st' = snt_no_lab st + missing_count l wavs
               \<and> (wavs \<noteq> [] \<and> too_many (snt_no_lab st') n
                    \<longrightarrow> Log Error (too_many_msg c) \<in> set evs))
       \<and> (r = Raise (SystemExit (too_many_msg c)) \<longrightarrow> Log Error (too_many_msg c) \<in> set evs)"
proof (induction wavs arbitrary: st w)
  case Nil
  then have "r = Ok st" "w' = w" by (simp_all add: ret_def)
  then show ?case by (simp add: missing_count_Nil)
next
  case (Cons a wavs)
  let ?M = "Log Error (too_many_msg c)"
  let ?k = "snt_no_lab st + missing_count l [a]"
  obtain r1 w1 where b: "timit_body en c (Some (l, dir)) n a st w = (r1, w1)"
    by (cases "timit_body en c (Some (l, dir)) n a st w")
  from timit_body_threshold [OF b] obtain evs1 where
    H1: "trace w1 = trace w @ evs1
       \<and> (?M \<in> set evs1) = (timit_ids a \<noteq> None \<and> too_many ?k n)
       \<and> (\<forall>st'. r1 = Ok st' \<longrightarrow> snt_no_lab st' = ?k \<and> timit_ids a \<noteq> None)
       \<and> (r1 = Raise (SystemExit (too_many_msg c)) \<longrightarrow> ?M \<in> set evs1)" ..
  note e1 = H1 [THEN conjunct1]
  note t1 = H1 [THEN conjunct2, THEN conjunct1]
  note o1 = H1 [THEN conjunct2, THEN conjunct2, THEN conjunct1]
  note x1 = H1 [THEN conjunct2, THEN conjunct2, THEN conjunct2]
  have le: "?k \<le> snt_no_lab st + missing_count l (a # wavs)"
    using missing_count_Cons [of l a wavs] by linarith
  have mono: "too_many ?k n \<Longrightarrow> too_many (snt_no_lab st + missing_count l (a # wavs)) n"
    by (erule too_many_mono) (rule le)
  show ?case
  proof (cases r1)
    case (Raise e)
    with Cons.prems b have rw: "r = Raise e" "w' = w1" by (simp_all add: bind_def)
    show ?thesis
    proof (intro exI [of _ evs1] conjI allI impI)
      show "trace w' = trace w @ evs1" using e1 rw by simp
      show "too_many (snt_no_lab st + missing_count l (a # wavs)) n" if "?M \<in> set evs1"
      proof -
        from that t1 have "too_many ?k n" by simp
        then show ?thesis by (rule mono)
      qed
      show "snt_no_lab st' = snt_no_lab st + missing_count l (a # wavs)" if "r = Ok st'" for st'
        using that rw by simp
      show "?M \<in> set evs1" if "r = Ok st'" for st' using that rw by simp
      show "?M \<in> set evs1" if "r = Raise (SystemExit (too_many_msg c))"
        using that rw Raise x1 by simp
    qed
  next
    case (Ok st1)
    with Cons.prems b have l2: "timit_loop en c (Some (l, dir)) n wavs st1 w1 = (r, w')"
      by (simp add: bind_def)
    from o1 Ok have k1: "snt_no_lab st1 = ?k" and ida: "timit_ids a \<noteq> None" by simp_all
    from Cons.IH [OF l2] obtain evs2 where
      H2: "trace w' = trace w1 @ evs2
      \<and> (?M \<in> set evs2 \<longrightarrow> too_many (snt_no_lab st1 + missing_count l wavs) n)
      \<and> (\<forall>st'. r = Ok st' \<longrightarrow> snt_no_lab st' = snt_no_lab st1 + missing_count l wavs
               \<and> (wavs \<noteq> [] \<and> too_many (snt_no_lab st') n \<longrightarrow> ?M \<in> set evs2))
      \<and> (r = Raise (SystemExit (too_many_msg c)) \<longrightarrow> ?M \<in> set evs2)" ..
    note e2 = H2 [THEN conjunct1]
    note t2 = H2 [THEN conjunct2, THEN conjunct1]
    note o2 = H2 [THEN conjunct2, THEN conjunct2, THEN conjunct1]
    note x2 = H2 [THEN conjunct2, THEN conjunct2, THEN conjunct2]
    have tot: "snt_no_lab st1 + missing_count l wavs = snt_no_lab st + missing_count l (a # wavs)"
      using k1 missing_count_Cons [of l a wavs] by linarith
    show ?thesis
    proof (intro exI [of _ "evs1 @ evs2"] conjI allI impI)
      show "trace w' = trace w @ evs1 @ evs2" using e1 e2 by simp
      show "too_many (snt_no_lab st + missing_count l (a # wavs)) n" if "?M \<in> set (evs1 @ evs2)"
      proof -
        from that consider "?M \<in> set evs1" | "?M \<in> set evs2" by auto
        then show ?thesis
        proof cases
          case 1
          with t1 have "too_many ?k n" by simp
          then show ?thesis by (rule mono)
        next
          case 2
          with t2 have "too_many (snt_no_lab st1 + missing_count l wavs) n" by simp
          then show ?thesis unfolding tot .
        qed
      qed
      show "snt_no_lab st' = snt_no_lab st + missing_count l (a # wavs)" if "r = Ok st'" for st'
      proof -
        from that o2 have "snt_no_lab st' = snt_no_lab st1 + missing_count l wavs" by blast
        then show ?thesis unfolding tot .
      qed
      show "?M \<in> set (evs1 @ evs2)"
        if "r = Ok st'" "a # wavs \<noteq> [] \<and> too_many (snt_no_lab st') n" for st'
      proof (cases "wavs = []")
        case True
        with l2 that(1) have "st' = st1" by (simp add: ret_def)
        with that(2) k1 t1 ida show ?thesis by simp
      next
        case False
        from o2 that(1) have "wavs \<noteq> [] \<and> too_many (snt_no_lab st') n \<longrightarrow> ?M \<in> set evs2"
          by blast
        with False that(2) have "?M \<in> set evs2" by blast
        then show ?thesis by simp
      qed
      show "?M \<in> set (evs1 @ evs2)" if "r = Raise (SystemExit (too_many_msg c))"
      proof -
        from that x2 have "?M \<in> set evs2" by blast
        then show ?thesis by simp
      qed
    qed
  qed
qed

lemma logger_debug: "logger_write en msg Debug w = (Ok (), w\<lparr>trace := trace w @ [Log Debug msg]\<rparr>)"
  by (simp add: logger_write_def seq_def bind_def emit_def ret_def)

lemma stable_ensure_dir_grow: "P (MkDirs p) \<Longrightarrow> stable (grow P) (ensure_dir en p)"
  by (simp add: stable_def grow_def ensure_dir_def os_makedirs_def)

lemma stable_ensure_dir_keep: "stable keep_txt (ensure_dir en p)"
  by (simp add: stable_def keep_txt_def ensure_dir_def os_makedirs_def)

lemma raises_ensure_dir: "(\<And>e. Q (OSError e)) \<Longrightarrow> raises Q (ensure_dir en p)"
  by (auto simp: raises_def ensure_dir_def os_makedirs_def split: if_splits)

lemma raises_lift_sum: "(\<And>e. x = Inl e \<Longrightarrow> Q e) \<Longrightarrow> raises Q (lift_sum x)"
  by (cases x) (simp_all add: lift_sum_def raises_ret raises_throw)

lemma output_folder_Inl: "output_folder a = Inl e \<Longrightarrow> e = TypeError \<or> e = KeyError ''output_folder''"
  by (auto simp: output_folder_def split: option.splits)

lemma stable_read_labels_grow:
  "(\<And>p. P (MkDirs p)) \<Longrightarrow> stable (grow P) (read_labels en a sf kl opts)"
  unfolding read_labels_def
  by (cases kl)
     (auto intro!: stable_bind stable_seq stable_lift_sum stable_ensure_dir_grow stable_ret rel_ok_grow)

lemma stable_read_labels_keep: "stable keep_txt (read_labels en a sf kl opts)"
  unfolding read_labels_def
  by (cases kl)
     (auto intro!: stable_bind stable_seq stable_lift_sum stable_ensure_dir_keep stable_ret rel_ok_keep_txt)

lemma raises_read_labels:
  assumes "Q TypeError" "\<And>k. Q (KeyError k)" "\<And>e. Q (OSError e)"
  shows "raises Q (read_labels en a sf kl opts)"
  unfolding read_labels_def
  by (cases kl)
     (auto intro!: raises_bind raises_seq raises_lift_sum raises_ensure_dir raises_ret assms
        dest: output_folder_Inl)

lemma read_labels_Ok:
  "read_labels en a sf kl opts w = (Ok lab, w') \<Longrightarrow>
     lab = map_option (\<lambda>k. (read_kaldi_lab en k opts, sf @ ''/kaldi_labels'')) kl"
  by (cases kl) (auto simp: read_labels_def bind_Ok seq_Ok ret_Ok)

text \<open>what a run of create\_scp is made of\<close>

lemma timit_create_scp_cases:
  assumes "timit_create_scp en c a sf wav_lst scp_file kl opts w = (r, w')"
  obtains
    (labels) e w0 where "grow (\<lambda>e. \<not> is_write_txt e \<and> e \<noteq> Log Error (too_many_msg c)) w w0"
        "keep_txt w w0"
        "read_labels en a sf kl opts w0 = (Raise e, w')" "r = Raise e"
  | (loop) e w0 w1 where "grow (\<lambda>e. \<not> is_write_txt e \<and> e \<noteq> Log Error (too_many_msg c)) w w0"
        "keep_txt w w0"
        "read_labels en a sf kl opts w0
           = (Ok (map_option (\<lambda>k. (read_kaldi_lab en k opts, sf @ ''/kaldi_labels'')) kl), w1)"
        "timit_loop en c (map_option (\<lambda>k. (read_kaldi_lab en k opts, sf @ ''/kaldi_labels'')) kl)
           (length wav_lst) wav_lst init_state w1 = (Raise e, w')" "r = Raise e"
  | (finished) st w0 w1 w2 where "grow (\<lambda>e. \<not> is_write_txt e \<and> e \<noteq> Log Error (too_many_msg c)) w w0"
        "keep_txt w w0"
        "read_labels en a sf kl opts w0
           = (Ok (map_option (\<lambda>k. (read_kaldi_lab en k opts, sf @ ''/kaldi_labels'')) kl), w1)"
        "timit_loop en c (map_option (\<lambda>k. (read_kaldi_lab en k opts, sf @ ''/kaldi_labels'')) kl)
           (length wav_lst) wav_lst init_state w1 = (Ok st, w2)"
        "r = Ok ()"
        "w' = w2\<lparr>files := AList.update scp_file (Txt (scp_lines st)) (files w2),
                  trace := trace w2 @ [WriteTxt scp_file (scp_lines st),
                                       Log Debug (TAB # scp_file @ '' sucessfully created!'')]\<rparr>"
proof -
  let ?m0 = "TAB # CHR 0x22 # ''Creating scp lists in  '' @ scp_file @ ''...'' @ [CHR 0x22]"
  let ?w0 = "w\<lparr>trace := trace w @ [Log Debug ?m0]\<rparr>"
  let ?lab = "map_option (\<lambda>k. (read_kaldi_lab en k opts, sf @ ''/kaldi_labels'')) kl"
  have g0: "grow (\<lambda>e. \<not> is_write_txt e \<and> e \<noteq> Log Error (too_many_msg c)) w ?w0"
    by (simp add: grow_def is_write_txt_def)
  have k0: "keep_txt w ?w0" by (simp add: keep_txt_def)
  obtain rl w1 where rl: "read_labels en a sf kl opts ?w0 = (rl, w1)"
    by (cases "read_labels en a sf kl opts ?w0")
  show ?thesis
  proof (cases rl)
    case (Raise e)
    with assms rl have "r = Raise e" "w' = w1"
      by (simp_all add: timit_create_scp_def seq_def bind_def logger_debug)
    with labels [OF g0 k0] rl Raise show ?thesis by simp
  next
    case (Ok lab)
    with rl read_labels_Ok have lab: "lab = ?lab" by blast
    obtain r2 w2 where lp: "timit_loop en c ?lab (length wav_lst) wav_lst init_state w1 = (r2, w2)"
      by (cases "timit_loop en c ?lab (length wav_lst) wav_lst init_state w1")
    show ?thesis
    proof (cases r2)
      case (Raise e)
      with assms rl Ok lab lp have "r = Raise e" "w' = w2"
        by (simp_all add: timit_create_scp_def seq_def bind_def logger_debug)
      with loop [OF g0 k0] rl Ok lab lp Raise show ?thesis by simp
    next
      case st: (Ok st)
      with assms rl Ok lab lp have "r = Ok ()"
        "w' = w2\<lparr>files := AList.update scp_file (Txt (scp_lines st)) (files w2),
                  trace := trace w2 @ [WriteTxt scp_file (scp_lines st),
                                       Log Debug (TAB # scp_file @ '' sucessfully created!'')]\<rparr>"
        by (simp_all add: timit_create_scp_def seq_def bind_def logger_debug write_txt_file_def)
      with finished [OF g0 k0] rl Ok lab lp st show ?thesis by simp
    qed
  qed
qed

lemma grow_trans: "grow P a b \<Longrightarrow> grow P b c \<Longrightarrow> grow P a c"
  using rel_ok_grow [of P] unfolding rel_ok_def by blast

lemma grow_weaken: "grow P a b \<Longrightarrow> (\<And>e. P e \<Longrightarrow> Q e) \<Longrightarrow> grow Q a b"
  unfolding grow_def list_all_iff by blast

lemma keep_txt_trans: "keep_txt a b \<Longrightarrow> keep_txt b c \<Longrightarrow> keep_txt a c"
  unfolding keep_txt_def by blast

lemma lab_dir_ok_not_write: "lab_dir_ok (\<lambda>e. \<not> is_write_txt e) lab"
  by (auto simp: lab_dir_ok_def is_write_txt_def split: option.splits)

lemma read_labels_no_write: "stable (grow (\<lambda>e. \<not> is_write_txt e)) (read_labels en a sf kl opts)"
  by (rule stable_read_labels_grow) (simp add: is_write_txt_def)

lemma timit_loop_no_write: "stable (grow (\<lambda>e. \<not> is_write_txt e)) (timit_loop en c lab n wavs st)"
  by (rule stable_timit_loop_grow) (simp add: is_write_txt_def, rule lab_dir_ok_not_write)

lemma timit_prefix_grow:
  assumes "grow (\<lambda>e. \<not> is_write_txt e \<and> e \<noteq> Log Error (too_many_msg c)) w w0"
    and "read_labels en a sf kl opts w0 = (rl, w1)"
    and "timit_loop en c lab n wavs st w1 = (r2, w2)"
  shows "grow (\<lambda>e. \<not> is_write_txt e) w w1 \<and> grow (\<lambda>e. \<not> is_write_txt e) w w2"
proof -
  have a: "grow (\<lambda>e. \<not> is_write_txt e) w w0" using assms(1) by (rule grow_weaken) simp
  have b: "grow (\<lambda>e. \<not> is_write_txt e) w0 w1"
    using assms(2) by (rule stableD [OF read_labels_no_write])
  have c: "grow (\<lambda>e. \<not> is_write_txt e) w1 w2"
    using assms(3) by (rule stableD [OF timit_loop_no_write])
  from a b c show ?thesis by (blast intro: grow_trans)
qed

text \<open>Claim C2, as the code has it. The miss branch of \<open>create_scp\<close> adds one to
  \<open>snt_no_lab\<close> and then sets \<open>missing_lab = False\<close>, so the \<open>continue\<close> that would leave
  the record out is never taken: whenever \<open>create_scp\<close> returns, the manifest it has written
  holds one line for every wav file of the list, with or without a label, and that write is
  the only call of \<open>write_txt_file\<close> of the run.\<close>

theorem timit_create_scp_emits_every_wav:
  assumes "timit_create_scp en c a sf wav_lst scp_file kl opts w = (Ok (), w')"
  shows "\<exists>evs ls. trace w' = trace w @ evs @ [WriteTxt scp_file ls,
                      Log Debug (TAB # scp_file @ '' sucessfully created!'')]
           \<and> list_all (\<lambda>e. \<not> is_write_txt e) evs
           \<and> length ls = length wav_lst
           \<and> map_of (files w') scp_file = Some (Txt ls)"
  using assms
proof (cases rule: timit_create_scp_cases)
  case (finished st w0 w1 w2)
  from timit_prefix_grow [OF finished(1) finished(3) finished(4)]
  obtain evs where e: "trace w2 = trace w @ evs" "list_all (\<lambda>e. \<not> is_write_txt e) evs"
    unfolding grow_def by blast
  have "length (scp_lines st) = length wav_lst"
    using timit_loop_Ok [OF finished(4)] by (simp add: init_state_def)
  with e finished(6) show ?thesis
    by (intro exI [of _ evs] exI [of _ "scp_lines st"]) (simp add: update_conv')
qed simp_all

lemma timit_missing_sibling_aborts:
  assumes "wav \<in> set wav_lst"
    and "\<not> has_text w (replace_str ''.wav'' ''.wrd'' wav) \<or> \<not> has_text w (replace_str ''.wav'' ''.phn'' wav)"
    and "timit_create_scp en c a sf wav_lst scp_file kl opts w = (r, w')"
  shows "(\<exists>e. r = Raise e) \<and> grow (\<lambda>e. \<not> is_write_txt e) w w'"
  using assms(3)
proof (cases rule: timit_create_scp_cases)
  case (labels e w0)
  from labels(1) have "grow (\<lambda>e. \<not> is_write_txt e) w w0" by (rule grow_weaken) simp
  moreover have "grow (\<lambda>e. \<not> is_write_txt e) w0 w'"
    using labels(3) by (rule stableD [OF read_labels_no_write])
  ultimately show ?thesis using labels(4) by (blast intro: grow_trans)
next
  case (loop e w0 w1)
  from timit_prefix_grow [OF loop(1) loop(3) loop(4)] loop(5) show ?thesis by blast
next
  case (finished st w0 w1 w2)
  have "keep_txt w0 w1" using finished(3) by (rule stableD [OF stable_read_labels_keep])
  with finished(2) have k: "keep_txt w w1" by (rule keep_txt_trans)
  from timit_loop_Ok [OF finished(4)] assms(1)
  have "has_text w1 (replace_str ''.wav'' ''.wrd'' wav) \<and> has_text w1 (replace_str ''.wav'' ''.phn'' wav)"
    by (simp add: init_state_def)
  with k have "has_text w (replace_str ''.wav'' ''.wrd'' wav) \<and> has_text w (replace_str ''.wav'' ''.phn'' wav)"
    by (blast intro: keep_txt_has_text)
  with assms(2) show ?thesis by blast
qed

lemma read_labels_not_too_many:
  "stable (grow (\<lambda>e. e \<noteq> Log Error (too_many_msg c))) (read_labels en a sf kl opts)"
  by (rule stable_read_labels_grow) simp

lemma too_many_count: "too_many (missing_count l wavs) (length wavs) = (length wavs < 20 * missing_count l wavs)"
  using missing_count_le [of l wavs] by (auto simp: too_many_iff)

lemma create_scp_threshold:
  assumes "timit_create_scp en c a sf wav_lst scp_file (Some kl) opts w = (r, w')"
  shows "\<exists>evs. trace w' = trace w @ evs
       \<and> (Log Error (too_many_msg c) \<in> set evs
            \<longrightarrow> length wav_lst < 20 * missing_count (read_kaldi_lab en kl opts) wav_lst)
       \<and> (length wav_lst < 20 * missing_count (read_kaldi_lab en kl opts) wav_lst
            \<and> (r = Ok () \<or> r = Raise (SystemExit (too_many_msg c)))
            \<longrightarrow> Log Error (too_many_msg c) \<in> set evs)"
proof -
  let ?M = "Log Error (too_many_msg c)"
  let ?l = "read_kaldi_lab en kl opts"
  let ?big = "length wav_lst < 20 * missing_count ?l wav_lst"
  have pre: "\<exists>evs. trace w1 = trace w @ evs \<and> ?M \<notin> set evs"
    if "grow (\<lambda>e. \<not> is_write_txt e \<and> e \<noteq> ?M) w w0" "read_labels en a sf (Some kl) opts w0 = (rl, w1)"
    for w0 w1 rl
  proof -
    from that(1) have "grow (\<lambda>e. e \<noteq> ?M) w w0" by (rule grow_weaken) simp
    moreover have "grow (\<lambda>e. e \<noteq> ?M) w0 w1"
      using that(2) by (rule stableD [OF read_labels_not_too_many])
    ultimately have "grow (\<lambda>e. e \<noteq> ?M) w w1" by (rule grow_trans)
    then show ?thesis unfolding grow_def list_all_iff by blast
  qed
  from assms show ?thesis
  proof (cases rule: timit_create_scp_cases)
    case (labels e w0)
    from pre [OF labels(1) labels(3)] obtain evs where
      e: "trace w' = trace w @ evs" "?M \<notin> set evs" by blast
    have "e \<noteq> SystemExit (too_many_msg c)"
      using raisesD [OF raises_read_labels labels(3), of "\<lambda>e. e \<noteq> SystemExit (too_many_msg c)"]
      by simp
    with e labels(4) show ?thesis by (intro exI [of _ evs]) simp
  next
    case (loop e w0 w1)
    from pre [OF loop(1) loop(3)] obtain evs1 where
      e1: "trace w1 = trace w @ evs1" "?M \<notin> set evs1" by blast
    from timit_loop_threshold [OF loop(4) [simplified]] obtain evs2 where
      H: "trace w' = trace w1 @ evs2
        \<and> (?M \<in> set evs2 \<longrightarrow> too_many (snt_no_lab init_state + missing_count ?l wav_lst) (length wav_lst))
        \<and> (\<forall>st'::loop_state. Raise e = Ok st' \<longrightarrow> snt_no_lab st' = snt_no_lab init_state + missing_count ?l wav_lst
               \<and> (wav_lst \<noteq> [] \<and> too_many (snt_no_lab st') (length wav_lst) \<longrightarrow> ?M \<in> set evs2))
        \<and> ((Raise e :: loop_state res) = Raise (SystemExit (too_many_msg c)) \<longrightarrow> ?M \<in> set evs2)" ..
    have i: "?M \<in> set evs2 \<longrightarrow> ?big"
      using H [THEN conjunct2, THEN conjunct1] by (simp add: init_state_def too_many_count)
    have x: "e = SystemExit (too_many_msg c) \<longrightarrow> ?M \<in> set evs2"
      using H [THEN conjunct2, THEN conjunct2, THEN conjunct2] by simp
    show ?thesis
    proof (intro exI [of _ "evs1 @ evs2"] conjI impI)
      show "trace w' = trace w @ evs1 @ evs2" using e1(1) H [THEN conjunct1] by simp
      show ?big if "?M \<in> set (evs1 @ evs2)" using that e1(2) i by simp
      show "?M \<in> set (evs1 @ evs2)"
        if "?big \<and> (r = Ok () \<or> r = Raise (SystemExit (too_many_msg c)))"
        using that loop(5) x by simp
    qed
  next
    case (finished st w0 w1 w2)
    from pre [OF finished(1) finished(3)] obtain evs1 where
      e1: "trace w1 = trace w @ evs1" "?M \<notin> set evs1" by blast
    from timit_loop_threshold [OF finished(4) [simplified]] obtain evs2 where
      H: "trace w2 = trace w1 @ evs2
        \<and> (?M \<in> set evs2 \<longrightarrow> too_many (snt_no_lab init_state + missing_count ?l wav_lst) (length wav_lst))
        \<and> (\<forall>st'::loop_state. Ok st = Ok st' \<longrightarrow> snt_no_lab st' = snt_no_lab init_state + missing_count ?l wav_lst
               \<and> (wav_lst \<noteq> [] \<and> too_many (snt_no_lab st') (length wav_lst) \<longrightarrow> ?M \<in> set evs2))
        \<and> (Ok st = Raise (SystemExit (too_many_msg c)) \<longrightarrow> ?M \<in> set evs2)" ..
    have i: "?M \<in> set evs2 \<longrightarrow> ?big"
      using H [THEN conjunct2, THEN conjunct1] by (simp add: init_state_def too_many_count)
    have o: "snt_no_lab st = missing_count ?l wav_lst
         \<and> (wav_lst \<noteq> [] \<and> too_many (snt_no_lab st) (length wav_lst) \<longrightarrow> ?M \<in> set evs2)"
      using H [THEN conjunct2, THEN conjunct2, THEN conjunct1] by (simp add: init_state_def)
    have ii: "?big \<longrightarrow> ?M \<in> set evs2"
    proof
      assume b: ?big
      then have "wav_lst \<noteq> []" by (auto simp: missing_count_Nil)
      moreover from b have "too_many (snt_no_lab st) (length wav_lst)"
        using o by (simp add: too_many_count)
      ultimately show "?M \<in> set evs2" using o by blast
    qed
    let ?tail = "[WriteTxt scp_file (scp_lines st), Log Debug (TAB # scp_file @ '' sucessfully created!'')]"
    show ?thesis
    proof (intro exI [of _ "evs1 @ evs2 @ ?tail"] conjI impI)
      show "trace w' = trace w @ evs1 @ evs2 @ ?tail"
        using e1(1) H [THEN conjunct1] finished(6) by simp
      show ?big if "?M \<in> set (evs1 @ evs2 @ ?tail)" using that e1(2) i by simp
      show "?M \<in> set (evs1 @ evs2 @ ?tail)"
        if "?big \<and> (r = Ok () \<or> r = Raise (SystemExit (too_many_msg c)))"
        using that ii by simp
    qed
  qed
qed

section \<open>The build of a TIMIT manifest on a small corpus\<close>

lemmas run_defs = timit_create_scp_def timit_loop.simps timit_body_def timit_record_def
  label_step_def read_labels_def ensure_dir_def os_makedirs_def path_exists_def isfile_def
  logger_write_def emit_def seq_def bind_def ret_def throw_def lift_opt_def lift_sum_def
  output_folder_def save_pkl_def write_txt_file_def open_lines_def read_wav_soundfile_def
  read_words_def read_phonemes_def word_of_line_def phoneme_of_line_def check_sibling_def
  timit_ids_def index_last_def index_last2_def index_at_def rstrip_chr_def dirname_def
  path_head_def timit_scp_line_def too_many_def too_many_msg_def py_str_def init_state_def

lemma run2_result: "run2 = (Ok (), \<lparr>files = [(''/d/s/a.wav'', Audio 16000), (''/d/s/a.wrd'', Txt [''0 9 hi'', ''9 20 you'']), (''/d/s/a.phn'', Txt [''0 1 h#'', ''1 9 ay'']), (''/d/s/b.wav'', Audio 16000), (''/d/s/b.wrd'', Txt [''0 9 hi'', ''9 20 you'']), (''/d/s/b.phn'', Txt [''0 1 h#'', ''1 9 ay'']), (''/e/kaldi_labels/s_a.pkl'', Pkl (PLabel [1])), (''/e/train.scp'', Txt [''ID=s_a duration=1.0 wav=(/d/s/a.wav,wav) spk_id=(s,string) phn=(sil_ay,string) wrd=(hi_you,string) kaldi_lab=(/e/kaldi_labels/s_a.pkl,pkl)'', ''ID=s_b duration=1.0 wav=(/d/s/b.wav,wav) spk_id=(s,string) phn=(sil_ay,string) wrd=(hi_you,string) kaldi_lab=(/e/kaldi_labels/s_a.pkl,pkl)''])], dirs = [''/d'', ''/d/s'', ''/e'', ''/e/kaldi_labels''], trace = [Log Debug ([CHR 0x09] @ [CHR 0x22] @ ''Creating scp lists in  /e/train.scp...'' @ [CHR 0x22]), MkDirs ''/e/kaldi_labels'', SavePkl ''/e/kaldi_labels/s_a.pkl'' (PLabel [1]), Log Debug ([CHR 0x09] @ ''The sentence s_b does not have a corresponding kaldi label''), Log Error ''Too many sentences do not have the corresponding kaldi label. Please check data and kaldi labels (check /d and None).'', WriteTxt ''/e/train.scp'' [''ID=s_a duration=1.0 wav=(/d/s/a.wav,wav) spk_id=(s,string) phn=(sil_ay,string) wrd=(hi_you,string) kaldi_lab=(/e/kaldi_labels/s_a.pkl,pkl)'', ''ID=s_b duration=1.0 wav=(/d/s/b.wav,wav) spk_id=(s,string) phn=(sil_ay,string) wrd=(hi_you,string) kaldi_lab=(/e/kaldi_labels/s_a.pkl,pkl)''], Log Debug ([CHR 0x09] @ ''/e/train.scp sucessfully created!'')]\<rparr>)"
  unfolding run2_def
  by (simp add: run_defs corpus_def utt_def timit_conf0_def timit_conf1_def args0_def env1_def)

lemma run2_abort_result: "fst run2_abort = Raise (SystemExit (too_many_msg timit_conf1))"
  unfolding run2_abort_def
  by (simp add: run_defs corpus_def utt_def timit_conf0_def timit_conf1_def args0_def env1_def)

lemma run2_missing: "missing_count (read_kaldi_lab env1 ''/k'' None) [''/d/s/a.wav'', ''/d/s/b.wav''] = 1"
  by (simp add: missing_count_def env1_def timit_ids_def index_last_def index_last2_def index_at_def)

theorem timit_create_scp_emits_every_wav_witness:
  "fst run2 = Ok ()
   \<and> read_kaldi_lab env1 ''/k'' None ''s_b'' = None
   \<and> (\<exists>evs ls. trace (snd run2) = trace (corpus (utt ''a'' @ utt ''b'')) @ evs
            @ [WriteTxt ''/e/train.scp'' ls, Log Debug (TAB # ''/e/train.scp'' @ '' sucessfully created!'')]
        \<and> list_all (\<lambda>e. \<not> is_write_txt e) evs
        \<and> length ls = length [''/d/s/a.wav'', ''/d/s/b.wav'']
        \<and> map_of (files (snd run2)) ''/e/train.scp'' = Some (Txt ls))"
proof -
  have r: "timit_create_scp env1 timit_conf1 args0 ''/e'' [''/d/s/a.wav'', ''/d/s/b.wav'']
            ''/e/train.scp'' (Some ''/k'') None (corpus (utt ''a'' @ utt ''b'')) = (Ok (), snd run2)"
    using run2_result unfolding run2_def by simp
  have "fst run2 = Ok ()" by (simp add: run2_result)
  moreover have "read_kaldi_lab env1 ''/k'' None ''s_b'' = None" by (simp add: env1_def)
  ultimately show ?thesis using timit_create_scp_emits_every_wav [OF r] by simp
qed

theorem threshold_reached_at_ceiling:
  "missing_count (read_kaldi_lab env1 ''/k'' None) [''/d/s/a.wav'', ''/d/s/b.wav'']
     = nat \<lceil>(5 / 100 :: rat) * of_nat (length [''/d/s/a.wav'', ''/d/s/b.wav''])\<rceil>
   \<and> Log Error (too_many_msg timit_conf1) \<in> set (trace (snd run2))
   \<and> fst run2_abort = Raise (SystemExit (too_many_msg timit_conf1))"
proof -
  have "\<lceil>(5 / 100 :: rat) * 2\<rceil> = 1" unfolding ceiling_eq_iff by simp
  then have "nat \<lceil>(5 / 100 :: rat) * of_nat (length [''/d/s/a.wav'', ''/d/s/b.wav''])\<rceil> = 1"
    by simp
  moreover have "Log Error (too_many_msg timit_conf1) \<in> set (trace (snd run2))"
    by (simp add: run2_result too_many_msg_def timit_conf1_def timit_conf0_def py_str_def)
  ultimately show ?thesis using run2_missing run2_abort_result by simp
qed

section \<open>The threshold on missing labels\<close>

lemma raises_logger_env:
  "(errors_abort en \<Longrightarrow> Q (SystemExit msg)) \<Longrightarrow> raises Q (logger_write en msg lv)"
  by (auto simp: raises_def logger_write_def seq_def bind_def emit_def ret_def throw_def split: if_splits)

lemma raises_check_sibling_env:
  "(\<And>m. errors_abort en \<Longrightarrow> Q (SystemExit m)) \<Longrightarrow> raises Q (check_sibling en f)"
  using raises_logger_env [of en Q "''the wrd file '' @ f @ '' does not exists!''" Error]
  by (auto simp: raises_def check_sibling_def split: if_splits)

lemma raises_save_pkl: "raises Q (save_pkl v p)"
  by (simp add: raises_def save_pkl_def)

lemma raises_write_txt: "raises Q (write_txt_file ls p)"
  by (simp add: raises_def write_txt_file_def)

lemma raises_timit_record_env:
  assumes "\<And>p. Q (FileNotFoundError p)" "\<And>p. Q (LoadError p)" "Q IndexError" "Q UnboundLocalError"
    "\<And>m. errors_abort en \<Longrightarrow> Q (SystemExit m)"
  shows "raises Q (timit_record en lab wav spk sid st)"
proof -
  have cs: "raises Q (check_sibling en f)" for f
    by (rule raises_check_sibling_env) (rule assms(5))
  show ?thesis
    unfolding timit_record_def read_words_def read_phonemes_def
    by (intro raises_bind raises_seq raises_read_wav cs raises_open_lines
        raises_lift_opt raises_ret assms(1-4))
       (auto split: option.splits intro: raises_ret raises_throw assms(1-4))
qed

lemma raises_label_step_env:
  assumes "\<And>m. errors_abort en \<Longrightarrow> Q (SystemExit m)"
  shows "raises Q (label_step en c l dir n sid st)"
proof -
  have lg: "raises Q (logger_write en msg lv)" for msg lv
    by (rule raises_logger_env) (rule assms)
  show ?thesis
    unfolding label_step_def
    by (intro raises_bind raises_seq) (auto split: option.splits intro!: raises_seq lg raises_ret raises_save_pkl)
qed

lemma raises_timit_body_env:
  assumes "\<And>p. Q (FileNotFoundError p)" "\<And>p. Q (LoadError p)" "Q IndexError" "Q UnboundLocalError"
    "\<And>m. errors_abort en \<Longrightarrow> Q (SystemExit m)"
  shows "raises Q (timit_body en c lab n wav st)"
proof -
  have tr: "raises Q (timit_record en lb wav spk sid st1)" for spk sid st1 lb
    by (rule raises_timit_record_env) (rule assms)+
  have ls: "raises Q (label_step en c l dir n sid st)" for l dir sid
    by (rule raises_label_step_env) (rule assms(5))
  show ?thesis
    unfolding timit_body_def
    by (intro raises_bind raises_lift_opt assms(3))
       (auto split: option.splits prod.splits intro!: raises_bind raises_ret tr ls)
qed

lemma raises_timit_loop_env:
  assumes "\<And>p. Q (FileNotFoundError p)" "\<And>p. Q (LoadError p)" "Q IndexError" "Q UnboundLocalError"
    "\<And>m. errors_abort en \<Longrightarrow> Q (SystemExit m)"
  shows "raises Q (timit_loop en c lab n wavs st)"
proof (induction wavs arbitrary: st)
  case Nil
  show ?case by (simp add: raises_ret)
next
  case (Cons a wavs)
  have b: "raises Q (timit_body en c lab n a st)"
    by (rule raises_timit_body_env) (rule assms)+
  show ?case by (simp only: timit_loop.simps) (rule raises_bind [OF b Cons.IH])
qed

lemma timit_create_scp_quiet:
  assumes "\<not> errors_abort en"
    and "timit_create_scp en c a sf wav_lst scp_file kl opts w = (r, w')"
  shows "r \<noteq> Raise (SystemExit m)"
  using assms(2)
proof (cases rule: timit_create_scp_cases)
  case (labels e w0)
  have "e \<noteq> SystemExit m"
    using raisesD [OF raises_read_labels labels(3), of "\<lambda>e. e \<noteq> SystemExit m"] by simp
  with labels(4) show ?thesis by simp
next
  case (loop e w0 w1)
  have "raises (\<lambda>e. e \<noteq> SystemExit m)
     (timit_loop en c (map_option (\<lambda>k. (read_kaldi_lab en k opts, sf @ ''/kaldi_labels'')) kl)
        (length wav_lst) wav_lst init_state)"
    by (rule raises_timit_loop_env) (simp_all add: assms(1))
  from raisesD [OF this loop(4)] loop(5) show ?thesis by simp
next
  case (finished st w0 w1 w2)
  then show ?thesis by simp
qed

lemma label_step_abort:
  assumes "errors_abort en" "label_step en c l dir n sid st w = (r, w')"
  shows "(r = Raise (SystemExit (too_many_msg c)))
           = too_many (snt_no_lab st + (if l sid = None then 1 else 0)) n"
  using assms unfolding label_step_def logger_write_def save_pkl_def
  by (auto simp: bind_def seq_def emit_def ret_def throw_def split: option.splits if_splits)

lemma timit_body_label_raise:
  "timit_ids wav = Some (spk, sid) \<Longrightarrow> label_step en c l dir n sid st w = (Raise e, w1)
     \<Longrightarrow> timit_body en c (Some (l, dir)) n wav st w = (Raise e, w1)"
  by (simp add: timit_body_def bind_def lift_opt_def ret_def)

lemma timit_body_abort:
  assumes "errors_abort en" "timit_body en c (Some (l, dir)) n wav st w = (r, w')"
    and "trace w' = trace w @ evs"
  shows "(Log Error (too_many_msg c) \<in> set evs) = (r = Raise (SystemExit (too_many_msg c)))"
proof -
  let ?M = "Log Error (too_many_msg c)"
  from timit_body_threshold [OF assms(2)] obtain evs' where
    H: "trace w' = trace w @ evs'
       \<and> (?M \<in> set evs') = (timit_ids wav \<noteq> None \<and> too_many (snt_no_lab st + missing_count l [wav]) n)
       \<and> (\<forall>st'. r = Ok st' \<longrightarrow> snt_no_lab st' = snt_no_lab st + missing_count l [wav]
                                 \<and> timit_ids wav \<noteq> None)
       \<and> (r = Raise (SystemExit (too_many_msg c)) \<longrightarrow> ?M \<in> set evs')" ..
  from H [THEN conjunct1] assms(3) have ev: "evs' = evs" by simp
  note t = H [THEN conjunct2, THEN conjunct1, unfolded ev]
  note x = H [THEN conjunct2, THEN conjunct2, THEN conjunct2, unfolded ev]
  have "r = Raise (SystemExit (too_many_msg c))" if m: "?M \<in> set evs"
  proof -
    from m t obtain ids where ids: "timit_ids wav = Some ids" by auto
    obtain spk sid where sp: "ids = (spk, sid)" by (cases ids)
    have mc: "missing_count l [wav] = (if l sid = None then 1 else 0)"
      by (simp add: missing_count_def ids sp)
    from m t have tm: "too_many (snt_no_lab st + (if l sid = None then 1 else 0)) n"
      by (simp add: mc)
    obtain r1 w1 where ls: "label_step en c l dir n sid st w = (r1, w1)"
      by (cases "label_step en c l dir n sid st w")
    from label_step_abort [OF assms(1) ls] tm have "r1 = Raise (SystemExit (too_many_msg c))"
      by simp
    with ls ids sp have "timit_body en c (Some (l, dir)) n wav st w
        = (Raise (SystemExit (too_many_msg c)), w1)"
      by (simp add: timit_body_label_raise)
    with assms(2) show ?thesis by simp
  qed
  with x show ?thesis by blast
qed

lemma timit_body_grows: "stable (grow (\<lambda>e. True)) (timit_body en c lab n wav st)"
  by (rule stable_timit_body_grow) (simp_all add: lab_dir_ok_def split: option.splits)

lemma timit_loop_grows: "stable (grow (\<lambda>e. True)) (timit_loop en c lab n wavs st)"
  by (rule stable_timit_loop_grow) (simp_all add: lab_dir_ok_def split: option.splits)

lemma timit_loop_abort:
  "errors_abort en \<Longrightarrow> timit_loop en c (Some (l, dir)) n wavs st w = (r, w') \<Longrightarrow>
     trace w' = trace w @ evs \<Longrightarrow>
     (Log Error (too_many_msg c) \<in> set evs) = (r = Raise (SystemExit (too_many_msg c)))"
proof (induction wavs arbitrary: st w evs)
  case Nil
  then show ?case by (auto simp: ret_def)
next
  case (Cons a wavs)
  let ?M = "Log Error (too_many_msg c)"
  obtain r1 w1 where b: "timit_body en c (Some (l, dir)) n a st w = (r1, w1)"
    by (cases "timit_body en c (Some (l, dir)) n a st w")
  have "grow (\<lambda>e. True) w w1"
    using b by (rule stableD [OF timit_body_grows])
  then obtain evs1 where e1: "trace w1 = trace w @ evs1" by (auto simp: grow_def)
  note a1 = timit_body_abort [OF Cons.prems(1) b e1]
  show ?case
  proof (cases r1)
    case (Raise e)
    with Cons.prems(2) b have rw: "r = Raise e" "w' = w1" by (simp_all add: bind_def)
    with e1 Cons.prems(3) have "evs = evs1" by simp
    with a1 rw Raise show ?thesis by simp
  next
    case (Ok st1)
    with Cons.prems(2) b have l2: "timit_loop en c (Some (l, dir)) n wavs st1 w1 = (r, w')"
      by (simp add: bind_def)
    have "grow (\<lambda>e. True) w1 w'"
      using l2 by (rule stableD [OF timit_loop_grows])
    then obtain evs2 where e2: "trace w' = trace w1 @ evs2" by (auto simp: grow_def)
    from e1 e2 Cons.prems(3) have ev: "evs = evs1 @ evs2" by simp
    from a1 Ok have "?M \<notin> set evs1" by simp
    with Cons.IH [OF Cons.prems(1) l2 e2] ev show ?thesis by simp
  qed
qed

lemma timit_create_scp_abort:
  assumes "errors_abort en"
    and "timit_create_scp en c a sf wav_lst scp_file (Some kl) opts w = (r, w')"
    and "trace w' = trace w @ evs"
  shows "(Log Error (too_many_msg c) \<in> set evs) = (r = Raise (SystemExit (too_many_msg c)))"
proof -
  let ?M = "Log Error (too_many_msg c)"
  have pre: "\<exists>evs1. trace w1 = trace w @ evs1 \<and> ?M \<notin> set evs1"
    if "grow (\<lambda>e. \<not> is_write_txt e \<and> e \<noteq> ?M) w w0" "read_labels en a sf (Some kl) opts w0 = (rl, w1)"
    for w0 w1 rl
  proof -
    from that(1) have "grow (\<lambda>e. e \<noteq> ?M) w w0" by (rule grow_weaken) simp
    moreover have "grow (\<lambda>e. e \<noteq> ?M) w0 w1"
      using that(2) by (rule stableD [OF read_labels_not_too_many])
    ultimately have "grow (\<lambda>e. e \<noteq> ?M) w w1" by (rule grow_trans)
    then show ?thesis unfolding grow_def list_all_iff by blast
  qed
  from assms(2) show ?thesis
  proof (cases rule: timit_create_scp_cases)
    case (labels e w0)
    from pre [OF labels(1) labels(3)] assms(3) have "?M \<notin> set evs" by auto
    moreover have "e \<noteq> SystemExit (too_many_msg c)"
      using raisesD [OF raises_read_labels labels(3), of "\<lambda>e. e \<noteq> SystemExit (too_many_msg c)"]
      by simp
    ultimately show ?thesis using labels(4) by simp
  next
    case (loop e w0 w1)
    from pre [OF loop(1) loop(3)] obtain evs1 where
      e1: "trace w1 = trace w @ evs1" "?M \<notin> set evs1" by blast
    have "grow (\<lambda>e. True) w1 w'"
      using loop(4) [simplified] by (rule stableD [OF timit_loop_grows])
    then obtain evs2 where e2: "trace w' = trace w1 @ evs2" by (auto simp: grow_def)
    from e1(1) e2 assms(3) have ev: "evs = evs1 @ evs2" by simp
    from timit_loop_abort [OF assms(1) loop(4) [simplified] e2] e1(2) ev loop(5)
    show ?thesis by simp
  next
    case (finished st w0 w1 w2)
    from pre [OF finished(1) finished(3)] obtain evs1 where
      e1: "trace w1 = trace w @ evs1" "?M \<notin> set evs1" by blast
    have "grow (\<lambda>e. True) w1 w2"
      using finished(4) [simplified] by (rule stableD [OF timit_loop_grows])
    then obtain evs2 where e2: "trace w2 = trace w1 @ evs2" by (auto simp: grow_def)
    from e1(1) e2 assms(3) finished(6) have ev:
      "evs = evs1 @ evs2 @ [WriteTxt scp_file (scp_lines st), Log Debug (TAB # scp_file @ '' sucessfully created!'')]"
      by simp
    from timit_loop_abort [OF assms(1) finished(4) [simplified] e2] e1(2) ev finished(5)
    show ?thesis by simp
  qed
qed


text \<open>Claim C3, amended. With a label source, \<open>create_scp\<close> makes the test
  \<open>snt_no_lab / len(wav_lst) > 0.05\<close> inside the loop, at every utterance after its label lookup,
  on the number of labels found missing so far (the counter grows by one at an utterance
  without a label): the error of too many missing labels is reported at that utterance exactly
  when \<open>20 * missing > N\<close>. So the error is reported in a run only if the labels missing in the
  whole list exceed \<open>0.05 * N\<close>, and in a run that returns exactly then. The error goes through
  \<open>logger_write\<close> at its default level: when that ends the program, the build exits with the
  message exactly when the error is reported; when it only logs, no run exits.\<close>

theorem too_many_labels_threshold:
  "(0 < n \<and> timit_ids wav = Some (spk, sid)
      \<and> timit_body en c (Some (l, dir)) n wav st w = (rb, wb)
     \<longrightarrow> (\<exists>evs. trace wb = trace w @ evs
           \<and> (Log Error (too_many_msg c) \<in> set evs)
               = (n < 20 * (snt_no_lab st + (if l sid = None then 1 else 0)))
           \<and> (\<forall>st'. rb = Ok st'
                  \<longrightarrow> snt_no_lab st' = snt_no_lab st + (if l sid = None then 1 else 0))))
   \<and> (timit_create_scp en c a sf wav_lst scp_file (Some kl) opts w = (r, w')
     \<longrightarrow> (\<exists>evs. trace w' = trace w @ evs
           \<and> (Log Error (too_many_msg c) \<in> set evs
                 \<longrightarrow> length wav_lst < 20 * missing_count (read_kaldi_lab en kl opts) wav_lst)
           \<and> (r = Ok ()
                 \<longrightarrow> (Log Error (too_many_msg c) \<in> set evs)
                       = (length wav_lst < 20 * missing_count (read_kaldi_lab en kl opts) wav_lst))
           \<and> (errors_abort en
                 \<longrightarrow> (Log Error (too_many_msg c) \<in> set evs)
                       = (r = Raise (SystemExit (too_many_msg c))))
           \<and> (\<not> errors_abort en \<longrightarrow> (\<forall>m. r \<noteq> Raise (SystemExit m)))))"
proof (rule conjI; rule impI)
  let ?M = "Log Error (too_many_msg c)"
  let ?k = "snt_no_lab st + (if l sid = None then 1 else 0)"
  assume h: "0 < n \<and> timit_ids wav = Some (spk, sid)
      \<and> timit_body en c (Some (l, dir)) n wav st w = (rb, wb)"
  note n = h [THEN conjunct1]
  note ids = h [THEN conjunct2, THEN conjunct1]
  note b = h [THEN conjunct2, THEN conjunct2]
  have mc: "missing_count l [wav] = (if l sid = None then 1 else 0)"
    by (simp add: missing_count_def ids)
  from timit_body_threshold [OF b] obtain evs where
    H: "trace wb = trace w @ evs
       \<and> (?M \<in> set evs) = (timit_ids wav \<noteq> None \<and> too_many (snt_no_lab st + missing_count l [wav]) n)
       \<and> (\<forall>st'. rb = Ok st' \<longrightarrow> snt_no_lab st' = snt_no_lab st + missing_count l [wav]
                                 \<and> timit_ids wav \<noteq> None)
       \<and> (rb = Raise (SystemExit (too_many_msg c)) \<longrightarrow> ?M \<in> set evs)" ..
  have t: "(?M \<in> set evs) = (n < 20 * ?k)"
    using H [THEN conjunct2, THEN conjunct1] ids n unfolding mc too_many_iff by simp
  have o: "\<forall>st'. rb = Ok st' \<longrightarrow> snt_no_lab st' = ?k"
    using H [THEN conjunct2, THEN conjunct2, THEN conjunct1] unfolding mc by blast
  show "\<exists>evs. trace wb = trace w @ evs \<and> (?M \<in> set evs) = (n < 20 * ?k)
           \<and> (\<forall>st'. rb = Ok st' \<longrightarrow> snt_no_lab st' = ?k)"
    using H [THEN conjunct1] t o by blast
next
  let ?M = "Log Error (too_many_msg c)"
  let ?big = "length wav_lst < 20 * missing_count (read_kaldi_lab en kl opts) wav_lst"
  assume run: "timit_create_scp en c a sf wav_lst scp_file (Some kl) opts w = (r, w')"
  from create_scp_threshold [OF run] obtain evs where
    H: "trace w' = trace w @ evs
       \<and> (?M \<in> set evs \<longrightarrow> ?big)
       \<and> (?big \<and> (r = Ok () \<or> r = Raise (SystemExit (too_many_msg c))) \<longrightarrow> ?M \<in> set evs)" ..
  note e = H [THEN conjunct1]
  note i = H [THEN conjunct2, THEN conjunct1]
  note ii = H [THEN conjunct2, THEN conjunct2]
  have B: "r = Ok () \<longrightarrow> (?M \<in> set evs) = ?big" using i ii by blast
  have C: "errors_abort en \<longrightarrow> (?M \<in> set evs) = (r = Raise (SystemExit (too_many_msg c)))"
    using timit_create_scp_abort [OF _ run e] by blast
  have D: "\<not> errors_abort en \<longrightarrow> (\<forall>m. r \<noteq> Raise (SystemExit m))"
    using timit_create_scp_quiet [OF _ run] by blast
  show "\<exists>evs. trace w' = trace w @ evs \<and> (?M \<in> set evs \<longrightarrow> ?big)
           \<and> (r = Ok () \<longrightarrow> (?M \<in> set evs) = ?big)
           \<and> (errors_abort en \<longrightarrow> (?M \<in> set evs) = (r = Raise (SystemExit (too_many_msg c))))
           \<and> (\<not> errors_abort en \<longrightarrow> (\<forall>m. r \<noteq> Raise (SystemExit m)))"
    using e i B C D by blast
qed

lemma timit_ids_b: "timit_ids ''/d/s/b.wav'' = Some (''s'', ''s_b'')"
  by (simp add: timit_ids_def index_last_def index_last2_def index_at_def)

theorem too_many_labels_threshold_witness:
  "timit_ids ''/d/s/b.wav'' = Some (''s'', ''s_b'')
   \<and> (\<exists>evs. trace (snd (timit_body env1 timit_conf1
                 (Some (read_kaldi_lab env1 ''/k'' None, ''/e/kaldi_labels'')) 2 ''/d/s/b.wav'' init_state
                 (corpus (utt ''a'' @ utt ''b''))))
            = trace (corpus (utt ''a'' @ utt ''b'')) @ evs
          \<and> Log Error (too_many_msg timit_conf1) \<in> set evs)
   \<and> fst run2 = Ok () \<and> \<not> errors_abort env1
   \<and> length [''/d/s/a.wav'', ''/d/s/b.wav'']
        < 20 * missing_count (read_kaldi_lab env1 ''/k'' None) [''/d/s/a.wav'', ''/d/s/b.wav'']
   \<and> (\<exists>evs. trace (snd run2) = trace (corpus (utt ''a'' @ utt ''b'')) @ evs
          \<and> Log Error (too_many_msg timit_conf1) \<in> set evs)
   \<and> errors_abort (env1\<lparr>errors_abort := True\<rparr>)
   \<and> fst run2_abort = Raise (SystemExit (too_many_msg timit_conf1))
   \<and> (\<exists>evs. trace (snd run2_abort) = trace (corpus (utt ''a'' @ utt ''b'')) @ evs
          \<and> Log Error (too_many_msg timit_conf1) \<in> set evs)"
proof -
  let ?w = "corpus (utt ''a'' @ utt ''b'')"
  let ?l = "read_kaldi_lab env1 ''/k'' None"
  let ?M = "Log Error (too_many_msg timit_conf1)"
  let ?b = "timit_body env1 timit_conf1 (Some (?l, ''/e/kaldi_labels'')) 2 ''/d/s/b.wav'' init_state ?w"
  have lb: "?l ''s_b'' = None" by (simp add: env1_def)
  have b: "?b = (fst ?b, snd ?b)" by simp
  have r: "timit_create_scp env1 timit_conf1 args0 ''/e'' [''/d/s/a.wav'', ''/d/s/b.wav'']
            ''/e/train.scp'' (Some ''/k'') None ?w = (fst run2, snd run2)"
    by (simp add: run2_def)
  have ra: "timit_create_scp (env1\<lparr>errors_abort := True\<rparr>) timit_conf1 args0 ''/e''
            [''/d/s/a.wav'', ''/d/s/b.wav''] ''/e/train.scp'' (Some ''/k'') None ?w
            = (fst run2_abort, snd run2_abort)"
    by (simp add: run2_abort_def)
  have ok: "fst run2 = Ok ()" by (simp add: run2_result)
  have q: "\<not> errors_abort env1" by (simp add: env1_def)
  have m: "length [''/d/s/a.wav'', ''/d/s/b.wav'']
        < 20 * missing_count ?l [''/d/s/a.wav'', ''/d/s/b.wav'']"
    by (simp add: run2_missing)
  have 1: "\<exists>evs. trace (snd ?b) = trace ?w @ evs \<and> ?M \<in> set evs"
    using too_many_labels_threshold [of 2 "''/d/s/b.wav''" "''s''" "''s_b''" env1 timit_conf1 ?l
        "''/e/kaldi_labels''" init_state ?w "fst ?b" "snd ?b", THEN conjunct1] timit_ids_b b lb
    by (auto simp: init_state_def)
  have 2: "\<exists>evs. trace (snd run2) = trace ?w @ evs \<and> ?M \<in> set evs"
    using too_many_labels_threshold [of _ _ _ _ env1 timit_conf1 _ _ _ ?w _ _ args0 "''/e''"
        "[''/d/s/a.wav'', ''/d/s/b.wav'']" "''/e/train.scp''" "''/k''" None "fst run2" "snd run2",
        THEN conjunct2] r ok m
    by auto
  have 3: "\<exists>evs. trace (snd run2_abort) = trace ?w @ evs \<and> ?M \<in> set evs"
    using too_many_labels_threshold [of _ _ _ _ "env1\<lparr>errors_abort := True\<rparr>" timit_conf1 _ _ _ ?w _ _
        args0 "''/e''" "[''/d/s/a.wav'', ''/d/s/b.wav'']" "''/e/train.scp''" "''/k''" None
        "fst run2_abort" "snd run2_abort", THEN conjunct2] ra run2_abort_result
    by auto
  from 1 2 3 ok q m timit_ids_b run2_abort_result show ?thesis by simp
qed

section \<open>Missing sibling files\<close>

lemma has_text_isfile: "has_text w p \<Longrightarrow> isfile w p"
  by (auto simp: has_text_def isfile_def split: option.splits)

lemma libri_body_Ok:
  assumes "libri_body en td wav w = (Ok l, w')"
  shows "w' = w \<and> (\<exists>sid wrd. libri_snt_id wav = Some sid \<and> td sid = Some wrd)"
  using assms unfolding libri_body_def
  by (auto simp: bind_Ok lift_opt_Ok read_wav_Ok ret_Ok)

lemma snd_libri_body: "snd (libri_body en td wav w) = w"
  unfolding libri_body_def
  by (auto simp: bind_def lift_opt_def ret_def throw_def read_wav_soundfile_def
           split: option.splits res.splits content.splits prod.splits)

lemma libri_processed_Cons:
  "libri_processed sel cnt (a # wavs) =
     (if Suc cnt = sel then [a] else a # libri_processed sel (Suc cnt) wavs)"
  by (auto simp: libri_processed_def take_Cons' Suc_diff_le split: nat.splits)

lemma libri_loop_Ok:
  "libri_loop en td sel wavs ls cnt w = (Ok ls', w') \<Longrightarrow>
     w' = w \<and> (\<forall>wav \<in> set (libri_processed sel cnt wavs).
                 \<exists>sid wrd. libri_snt_id wav = Some sid \<and> td sid = Some wrd)"
proof (induction wavs arbitrary: ls cnt w)
  case Nil
  then show ?case by (simp add: ret_Ok libri_processed_def)
next
  case (Cons a wavs)
  from Cons.prems obtain l w1 where
    b: "libri_body en td a w = (Ok l, w1)" and
    r: "(if Suc cnt = sel then ret (ls @ [l])
         else libri_loop en td sel wavs (ls @ [l]) (Suc cnt)) w1 = (Ok ls', w')"
    by (auto simp: bind_Ok)
  note b' = libri_body_Ok [OF b]
  show ?case
  proof (cases "Suc cnt = sel")
    case True
    with r b' show ?thesis by (simp add: ret_Ok libri_processed_Cons)
  next
    case False
    with r have "libri_loop en td sel wavs (ls @ [l]) (Suc cnt) w1 = (Ok ls', w')" by simp
    from Cons.IH [OF this] b' False show ?thesis by (simp add: libri_processed_Cons)
  qed
qed

lemma snd_libri_loop: "snd (libri_loop en td sel wavs ls cnt w) = w"
proof (induction wavs arbitrary: ls cnt)
  case Nil
  show ?case by (simp add: ret_def)
next
  case (Cons a wavs)
  show ?case
  proof (cases "libri_body en td a w")
    case (Pair r w1)
    with snd_libri_body [of en td a w] have w1: "w1 = w" by simp
    show ?thesis
    proof (cases r)
      case (Ok l)
      with Pair w1 Cons.IH [of "ls @ [l]" "Suc cnt"] show ?thesis
        by (simp add: bind_def ret_def)
    next
      case (Raise e)
      with Pair w1 show ?thesis by (simp add: bind_def)
    qed
  qed
qed

lemma libri_missing_text_aborts:
  assumes "wav \<in> set (libri_processed sel 0 wav_lst)"
    and "libri_snt_id wav = Some sid" and "td sid = None"
    and "librispeech_create_scp en sf wav_lst td split sel w = (r, w')"
  shows "(\<exists>e. r = Raise e) \<and> grow (\<lambda>e. \<not> is_write_txt e) w w'"
proof -
  let ?w1 = "w\<lparr>trace := trace w @ [Log Debug (TAB # ''Creating scp lists in  '' @ libri_scp sf split @ ''...'')]\<rparr>"
  obtain rl w2 where l: "libri_loop en td sel wav_lst [] 0 ?w1 = (rl, w2)" by (cases "libri_loop en td sel wav_lst [] 0 ?w1")
  with snd_libri_loop [of en td sel wav_lst "[]" 0 ?w1] have w2: "w2 = ?w1" by simp
  show ?thesis
  proof (cases rl)
    case (Ok ls)
    from libri_loop_Ok [OF l [unfolded Ok]] assms(1,2,3) show ?thesis by auto
  next
    case (Raise e)
    with assms(4) l w2 have "r = Raise e" "w' = ?w1"
      by (simp_all add: librispeech_create_scp_def seq_def bind_def logger_debug)
    then show ?thesis by (simp add: grow_def is_write_txt_def)
  qed
qed

text \<open>Claim C7, amended. When the \<open>.wrd\<close> or the \<open>.phn\<close> file of an utterance of the list is
  absent, \<open>timit_prepare.create_scp\<close> does not return: it raises an exception (the file is opened
  without a guard) and has made no call of \<open>write_txt_file\<close>, so no manifest is written and no
  record is emitted. Likewise \<open>librispeech_prepare.create_scp\<close> raises, without writing a
  manifest, when an utterance that its loop reaches has no entry in the transcript
  dictionary.\<close>

theorem missing_sibling_aborts:
  "(wav \<in> set wav_lst
      \<and> (\<not> isfile w (replace_str ''.wav'' ''.wrd'' wav) \<or> \<not> isfile w (replace_str ''.wav'' ''.phn'' wav))
      \<and> timit_create_scp en c a sf wav_lst scp_file kl opts w = (r, w')
     \<longrightarrow> (\<exists>e. r = Raise e) \<and> grow (\<lambda>e. \<not> is_write_txt e) w w')
   \<and> (flac \<in> set (libri_processed sel 0 flac_lst)
      \<and> libri_snt_id flac = Some sid \<and> text_dict sid = None
      \<and> librispeech_create_scp en sf flac_lst text_dict split sel w = (r, w')
     \<longrightarrow> (\<exists>e. r = Raise e) \<and> grow (\<lambda>e. \<not> is_write_txt e) w w')"
proof (rule conjI; rule impI)
  assume h: "wav \<in> set wav_lst
      \<and> (\<not> isfile w (replace_str ''.wav'' ''.wrd'' wav) \<or> \<not> isfile w (replace_str ''.wav'' ''.phn'' wav))
      \<and> timit_create_scp en c a sf wav_lst scp_file kl opts w = (r, w')"
  then have "\<not> has_text w (replace_str ''.wav'' ''.wrd'' wav) \<or> \<not> has_text w (replace_str ''.wav'' ''.phn'' wav)"
    using has_text_isfile by blast
  with h show "(\<exists>e. r = Raise e) \<and> grow (\<lambda>e. \<not> is_write_txt e) w w'"
    using timit_missing_sibling_aborts by blast
next
  assume h: "flac \<in> set (libri_processed sel 0 flac_lst)
      \<and> libri_snt_id flac = Some sid \<and> text_dict sid = None
      \<and> librispeech_create_scp en sf flac_lst text_dict split sel w = (r, w')"
  then show "(\<exists>e. r = Raise e) \<and> grow (\<lambda>e. \<not> is_write_txt e) w w'"
    using libri_missing_text_aborts by blast
qed

lemma run_nowrd_result:
  "run_nowrd = (Raise (FileNotFoundError ''/d/s/b.wrd''),
     (corpus (utt ''a'' @ [(''/d/s/b.wav'', Audio 16000), (''/d/s/b.phn'', Txt [''0 1 h#'', ''1 9 ay''])]))
       \<lparr>trace := [Log Debug ([CHR 0x09] @ [CHR 0x22] @ ''Creating scp lists in  /e/train.scp...'' @ [CHR 0x22])]\<rparr>)"
  unfolding run_nowrd_def
  by (simp add: run_defs corpus_def utt_def timit_conf0_def args0_def env1_def)

lemma libri_snt_id_123: "libri_snt_id ''/l/dev/1-2-3.flac'' = Some ''1-2-3''"
  by (simp add: libri_snt_id_def index_last_def)

lemma run_notext_result:
  "run_notext = (Raise (KeyError ''1-2-3''),
     (corpus [(''/l/dev/1-2-3.flac'', Audio 16000)])
       \<lparr>trace := [Log Debug (TAB # ''Creating scp lists in  /e/dev.scp...'')]\<rparr>)"
  unfolding run_notext_def
  by (simp add: librispeech_create_scp_def libri_body_def libri_snt_id_123 libri_scp_def
        logger_write_def emit_def seq_def bind_def ret_def throw_def lift_opt_def corpus_def)

text \<open>Claim C7, as stated, fails: with the \<open>.wrd\<close> file of the second utterance absent the
  TIMIT build ends with \<open>FileNotFoundError\<close> and writes no manifest, and the LibriSpeech build
  of an utterance without a transcript ends with \<open>KeyError\<close>.\<close>

theorem missing_wrd_file_aborts_build:
  "\<not> isfile (corpus (utt ''a'' @ [(''/d/s/b.wav'', Audio 16000), (''/d/s/b.phn'', Txt [''0 1 h#'', ''1 9 ay''])])) ''/d/s/b.wrd''
   \<and> fst run_nowrd = Raise (FileNotFoundError ''/d/s/b.wrd'')
   \<and> \<not> isfile (snd run_nowrd) ''/e/train.scp''
   \<and> fst run_notext = Raise (KeyError ''1-2-3'')
   \<and> \<not> isfile (snd run_notext) ''/e/dev.scp''"
  by (simp add: run_nowrd_result run_notext_result isfile_def corpus_def utt_def)

theorem missing_sibling_aborts_witness:
  "''/d/s/b.wav'' \<in> set [''/d/s/a.wav'', ''/d/s/b.wav'']
   \<and> \<not> isfile (corpus (utt ''a'' @ [(''/d/s/b.wav'', Audio 16000), (''/d/s/b.phn'', Txt [''0 1 h#'', ''1 9 ay''])]))
         (replace_str ''.wav'' ''.wrd'' ''/d/s/b.wav'')
   \<and> (\<exists>e. fst run_nowrd = Raise e)
   \<and> ''/l/dev/1-2-3.flac'' \<in> set (libri_processed 1 0 [''/l/dev/1-2-3.flac''])
   \<and> libri_snt_id ''/l/dev/1-2-3.flac'' = Some ''1-2-3''
   \<and> (\<exists>e. fst run_notext = Raise e)"
proof -
  let ?w = "corpus (utt ''a'' @ [(''/d/s/b.wav'', Audio 16000), (''/d/s/b.phn'', Txt [''0 1 h#'', ''1 9 ay''])])"
  let ?v = "corpus [(''/l/dev/1-2-3.flac'', Audio 16000)]"
  have 1: "''/d/s/b.wav'' \<in> set [''/d/s/a.wav'', ''/d/s/b.wav'']" by simp
  have 2: "\<not> isfile ?w (replace_str ''.wav'' ''.wrd'' ''/d/s/b.wav'')"
    by (simp add: isfile_def corpus_def utt_def)
  have 3: "timit_create_scp env1 timit_conf0 args0 ''/e'' [''/d/s/a.wav'', ''/d/s/b.wav'']
     ''/e/train.scp'' None None ?w = (fst run_nowrd, snd run_nowrd)"
    by (simp add: run_nowrd_def)
  have 4: "''/l/dev/1-2-3.flac'' \<in> set (libri_processed 1 0 [''/l/dev/1-2-3.flac''])"
    by (simp add: libri_processed_def)
  have 5: "librispeech_create_scp env1 ''/e'' [''/l/dev/1-2-3.flac''] Map.empty ''dev'' 1 ?v
     = (fst run_notext, snd run_notext)"
    by (simp add: run_notext_def)
  have a: "\<exists>e. fst run_nowrd = Raise e"
    using missing_sibling_aborts [of "''/d/s/b.wav''" "[''/d/s/a.wav'', ''/d/s/b.wav'']" ?w
      env1 timit_conf0 args0 "''/e''" "''/e/train.scp''" None None "fst run_nowrd" "snd run_nowrd"]
      1 2 3 by blast
  have b: "\<exists>e. fst run_notext = Raise e"
    using missing_sibling_aborts [of _ _ ?v env1 _ _ "''/e''" _ _ _ "fst run_notext" "snd run_notext"
       "''/l/dev/1-2-3.flac''" 1 "[''/l/dev/1-2-3.flac'']" "''1-2-3''" Map.empty "''dev''"]
       4 5 libri_snt_id_123 by simp
  from 1 2 a 4 b libri_snt_id_123 show ?thesis by blast
qed

section \<open>The text fields of a manifest line\<close>





lemma map_opt_Some:
  "map_opt f xs = Some ys \<Longrightarrow> ys = map (\<lambda>x. the (f x)) xs \<and> (\<forall>x\<in>set xs. f x \<noteq> None)"
  by (induction xs arbitrary: ys) (auto split: option.splits)

















section \<open>The order of the writes of a preparation\<close>

lemma grow_refl: "grow P w w"
  by (simp add: grow_def)

lemma grow_emit: "P e \<Longrightarrow> grow P w (w\<lparr>trace := trace w @ [e]\<rparr>)"
  by (simp add: grow_def)

lemma timit_create_scp_grow:
  assumes "\<And>lv msg. P (Log lv msg)" "\<And>p. P (MkDirs p)" "\<And>p ls. P (WriteTxt p ls)"
    "\<And>sid v. P (SavePkl ((sf @ ''/kaldi_labels'') @ ''/'' @ sid @ ''.pkl'') (PLabel v))"
  shows "stable (grow P) (timit_create_scp en c a sf wav_lst scp_file kl opts)"
proof -
  have "grow P w (snd (timit_create_scp en c a sf wav_lst scp_file kl opts w))" for w
  proof -
    let ?m0 = "TAB # CHR 0x22 # ''Creating scp lists in  '' @ scp_file @ ''...'' @ [CHR 0x22]"
    let ?w0 = "w\<lparr>trace := trace w @ [Log Debug ?m0]\<rparr>"
    let ?lab = "map_option (\<lambda>k. (read_kaldi_lab en k opts, sf @ ''/kaldi_labels'')) kl"
    have g0: "grow P w ?w0" by (rule grow_emit) (rule assms(1))
    obtain rl w1 where rl: "read_labels en a sf kl opts ?w0 = (rl, w1)"
      by (cases "read_labels en a sf kl opts ?w0")
    have g1: "grow P ?w0 w1"
      by (rule stableD [OF stable_read_labels_grow rl]) (rule assms(2))
    show ?thesis
    proof (cases rl)
      case (Raise e)
      with rl have "snd (timit_create_scp en c a sf wav_lst scp_file kl opts w) = w1"
        by (simp add: timit_create_scp_def seq_def bind_def logger_debug)
      with g0 g1 show ?thesis by (simp add: grow_trans)
    next
      case (Ok lab)
      with rl read_labels_Ok have lab: "lab = ?lab" by blast
      have ld: "lab_dir_ok P ?lab"
        using assms(4) by (cases kl) (simp_all add: lab_dir_ok_def)
      obtain r2 w2 where lp: "timit_loop en c ?lab (length wav_lst) wav_lst init_state w1 = (r2, w2)"
        by (cases "timit_loop en c ?lab (length wav_lst) wav_lst init_state w1")
      have g2: "grow P w1 w2"
        by (rule stableD [OF stable_timit_loop_grow lp]) (rule assms(1), rule ld)
      have g02: "grow P w w2" using g0 g1 g2 by (blast intro: grow_trans)
      show ?thesis
      proof (cases r2)
        case (Raise e)
        with rl Ok lab lp have "snd (timit_create_scp en c a sf wav_lst scp_file kl opts w) = w2"
          by (simp add: timit_create_scp_def seq_def bind_def logger_debug)
        with g02 show ?thesis by simp
      next
        case st: (Ok st)
        let ?w3 = "w2\<lparr>files := AList.update scp_file (Txt (scp_lines st)) (files w2),
                  trace := trace w2 @ [WriteTxt scp_file (scp_lines st),
                                       Log Debug (TAB # scp_file @ '' sucessfully created!'')]\<rparr>"
        from rl Ok lab lp st have "snd (timit_create_scp en c a sf wav_lst scp_file kl opts w) = ?w3"
          by (simp add: timit_create_scp_def seq_def bind_def logger_debug write_txt_file_def)
        moreover have "grow P w2 ?w3" by (simp add: grow_def assms(1,3))
        ultimately show ?thesis using g02 by (simp add: grow_trans)
      qed
    qed
  qed
  then show ?thesis by (simp add: stable_def)
qed

lemma timit_create_scp_writes:
  assumes "timit_create_scp en c a sf wav_lst scp_file kl opts w = (Ok (), w')"
    and "trace w' = trace w @ evs"
  shows "\<exists>ls. WriteTxt scp_file ls \<in> set evs"
  using assms(1)
proof (cases rule: timit_create_scp_cases)
  case (finished st w0 w1 w2)
  from timit_prefix_grow [OF finished(1) finished(3) finished(4)]
  obtain evs0 where "trace w2 = trace w @ evs0" unfolding grow_def by blast
  with finished(6) assms(2) have
    "evs = evs0 @ [WriteTxt scp_file (scp_lines st), Log Debug (TAB # scp_file @ '' sucessfully created!'')]"
    by simp
  then show ?thesis by auto
qed simp_all

lemma timit_split_grow:
  assumes "\<And>lv msg. P (Log lv msg)" "\<And>p. P (MkDirs p)" "\<And>p ls. P (WriteTxt p ls)"
    "\<And>sid v. P (SavePkl ((sf @ ''/kaldi_labels'') @ ''/'' @ sid @ ''.pkl'') (PLabel v))"
  shows "stable (grow P) (timit_split en c a sf name ml mo scp kl)"
proof -
  have "grow P w (snd (timit_split en c a sf name ml mo scp kl w))" for w
  proof (cases "name \<in> set (t_splits c)")
    case True
    let ?wavs = "get_all_files w (t_data_folder c) ml mo (Some avoid_sentences)"
    have "stable (grow P) (timit_create_scp en c a sf ?wavs scp kl (t_kaldi_lab_opts c))"
      by (rule timit_create_scp_grow) (rule assms)+
    then show ?thesis using True by (simp add: timit_split_def stable_def)
  next
    case False
    then show ?thesis by (simp add: timit_split_def grow_refl)
  qed
  then show ?thesis by (simp add: stable_def)
qed

lemma timit_split_writes:
  assumes "timit_split en c a sf name ml mo scp kl w = (Ok (), w')" "name \<in> set (t_splits c)"
    and "trace w' = trace w @ evs"
  shows "\<exists>ls. WriteTxt scp ls \<in> set evs"
  using assms by (auto simp: timit_split_def intro: timit_create_scp_writes)

lemma check_timit_folders_grow:
  assumes "\<And>lv msg. P (Log lv msg)"
  shows "stable (grow P) (check_timit_folders en c)"
proof -
  have a: "stable (grow P) (\<lambda>w. if b w then logger_write en msg Error w else (Ok (), w))" for b msg
    using stable_logger_grow [of P Error msg en, OF assms]
    by (simp add: stable_def grow_refl)
  show ?thesis unfolding check_timit_folders_def
    by (intro stable_seq rel_ok_grow a)
qed

lemma timit_build_grow:
  assumes "\<And>lv msg. P (Log lv msg)" "\<And>p. P (MkDirs p)" "\<And>p ls. P (WriteTxt p ls)"
    "\<And>sid v. P (SavePkl ((sf @ ''/kaldi_labels'') @ ''/'' @ sid @ ''.pkl'') (PLabel v))"
  shows "stable (grow P) (timit_build en c a sf)"
proof -
  have s: "stable (grow P) (timit_split en c a sf name ml mo scp kl)" for name ml mo scp kl
    by (rule timit_split_grow) (rule assms)+
  show ?thesis unfolding timit_build_def
    by (intro stable_seq rel_ok_grow check_timit_folders_grow stable_logger_grow s assms(1))
qed

lemma timit_split_trace:
  "timit_split en c a sf name ml mo scp kl w = (r, w') \<Longrightarrow> \<exists>evs. trace w' = trace w @ evs"
  using stableD [OF timit_split_grow [where P = "\<lambda>e. True"], of en c a sf name ml mo scp kl w r w']
  by (auto simp: grow_def)

lemma check_timit_folders_trace:
  "check_timit_folders en c w = (r, w') \<Longrightarrow> \<exists>evs. trace w' = trace w @ evs"
  using stableD [OF check_timit_folders_grow [where P = "\<lambda>e. True"], of en c w r w']
  by (auto simp: grow_def)

lemma timit_build_writes:
  assumes "timit_build en c a sf w = (Ok (), w')" "trace w' = trace w @ evs"
  shows "(''train'' \<in> set (t_splits c) \<longrightarrow> (\<exists>ls. WriteTxt (save_scp_train sf) ls \<in> set evs))
       \<and> (''dev'' \<in> set (t_splits c) \<longrightarrow> (\<exists>ls. WriteTxt (save_scp_dev sf) ls \<in> set evs))
       \<and> (''test'' \<in> set (t_splits c) \<longrightarrow> (\<exists>ls. WriteTxt (save_scp_test sf) ls \<in> set evs))"
proof -
  from assms(1) obtain w1 w2 w3 w4 where
    c: "check_timit_folders en c w = (Ok (), w1)"
    and l: "logger_write en (TAB # ''Creating scp file for the TIMIT Dataset..'') Debug w1 = (Ok (), w2)"
    and tr: "timit_split en c a sf ''train'' (extension @ [''train'']) None
            (save_scp_train sf) (t_kaldi_ali_tr c) w2 = (Ok (), w3)"
    and dv: "timit_split en c a sf ''dev'' (extension @ [''test'']) (Some dev_spk)
            (save_scp_dev sf) (t_kaldi_ali_dev c) w3 = (Ok (), w4)"
    and te: "timit_split en c a sf ''test'' (extension @ [''test'']) (Some test_spk)
            (save_scp_test sf) (t_kaldi_ali_test c) w4 = (Ok (), w')"
    unfolding timit_build_def seq_Ok by blast
  from check_timit_folders_trace [OF c] obtain e1 where e1: "trace w1 = trace w @ e1" ..
  from logger_write_Ok [OF l] have e2: "trace w2 = trace w1 @ [Log Debug (TAB # ''Creating scp file for the TIMIT Dataset..'')]"
    by simp
  from timit_split_trace [OF tr] obtain e3 where e3: "trace w3 = trace w2 @ e3" ..
  from timit_split_trace [OF dv] obtain e4 where e4: "trace w4 = trace w3 @ e4" ..
  from timit_split_trace [OF te] obtain e5 where e5: "trace w' = trace w4 @ e5" ..
  from e1 e2 e3 e4 e5 assms(2) have ev:
    "evs = e1 @ [Log Debug (TAB # ''Creating scp file for the TIMIT Dataset..'')] @ e3 @ e4 @ e5"
    by simp
  have "\<exists>ls. WriteTxt (save_scp_train sf) ls \<in> set evs" if "''train'' \<in> set (t_splits c)"
    using timit_split_writes [OF tr that e3] ev by auto
  moreover have "\<exists>ls. WriteTxt (save_scp_dev sf) ls \<in> set evs" if "''dev'' \<in> set (t_splits c)"
    using timit_split_writes [OF dv that e4] ev by auto
  moreover have "\<exists>ls. WriteTxt (save_scp_test sf) ls \<in> set evs" if "''test'' \<in> set (t_splits c)"
    using timit_split_writes [OF te that e5] ev by auto
  ultimately show ?thesis by blast
qed

lemma last_event_unique:
  "list_all P evs0 \<Longrightarrow> \<not> P y \<Longrightarrow> evs0 @ [x] = pre @ y # post \<Longrightarrow> pre = evs0 \<and> y = x \<and> post = []"
proof (induction evs0 arbitrary: pre)
  case Nil
  then show ?case by (cases pre) auto
next
  case (Cons e es)
  show ?case
  proof (cases pre)
    case Nil
    with Cons.prems show ?thesis by auto
  next
    case (Cons p ps)
    with Cons.prems have "es @ [x] = ps @ y # post" "list_all P es" "p = e" by simp_all
    with Cons.IH [of ps] Cons.prems(2) Cons show ?thesis by simp
  qed
qed

lemma no_event_in_grow:
  "grow P w w' \<Longrightarrow> trace w' = trace w @ evs \<Longrightarrow> \<not> P y \<Longrightarrow> evs \<noteq> pre @ y # post"
  by (auto simp: grow_def list_all_iff)

lemma snd_timit_skip: "snd (timit_skip c sf w) = w"
  by (auto simp: timit_skip_def bind_def ret_def load_pkl_def split: option.splits content.splits)

lemma timit_label_path_not_opt:
  "\<not> saves_at (timit_save_opt sf) (SavePkl ((sf @ ''/kaldi_labels'') @ ''/'' @ sid @ ''.pkl'') (PLabel v))"
  by (simp add: saves_at_def timit_save_opt_def)

lemma timit_prepare_cases:
  assumes "timit_prepare en c a w = (r, w')" "resolve_save_folder (t_save_folder c) a = Inr sf"
  obtains (quiet) "grow (\<lambda>e. \<not> saves_at (timit_save_opt sf) e) w w'"
  | (built) w1 w3 where "grow (\<lambda>e. \<not> saves_at (timit_save_opt sf) e) w w1"
      "grow (\<lambda>e. \<not> saves_at (timit_save_opt sf) e) w1 w3"
      "timit_build en c a sf w1 = (Ok (), w3)"
      "trace w' = trace w3 @ [SavePkl (timit_save_opt sf) (PTimit c)]" "r = Ok ()"
proof -
  let ?P = "\<lambda>e. \<not> saves_at (timit_save_opt sf) e"
  let ?rest = "bind (timit_skip c sf) (\<lambda>skip.
     if skip then
       seq (logger_write en (TAB # save_scp_train sf @ '' sucessfully created!'') Debug) (
       seq (logger_write en (TAB # save_scp_dev sf @ '' sucessfully created!'') Debug)
           (logger_write en (TAB # save_scp_test sf @ '' sucessfully created!'') Debug))
     else
       seq (timit_build en c a sf) (save_pkl (PTimit c) (timit_save_opt sf)))"
  have run: "seq (ensure_dir en sf) ?rest w = (r, w')"
    using assms by (simp add: timit_prepare_def lift_sum_def bind_def ret_def)
  obtain r1 w1 where ed: "ensure_dir en sf w = (r1, w1)" by (cases "ensure_dir en sf w")
  have g1: "grow ?P w w1"
    by (rule stableD [OF stable_ensure_dir_grow ed]) (simp add: saves_at_def)
  show ?thesis
  proof (cases r1)
    case (Raise e)
    with run ed have "w' = w1" by (simp add: seq_def bind_def)
    with g1 quiet show ?thesis by simp
  next
    case (Ok u)
    obtain r2 w2 where sk: "timit_skip c sf w1 = (r2, w2)" by (cases "timit_skip c sf w1")
    with snd_timit_skip [of c sf w1] have w2: "w2 = w1" by simp
    show ?thesis
    proof (cases r2)
      case (Raise e)
      with run ed Ok sk w2 have "w' = w1" by (simp add: seq_def bind_def)
      with g1 quiet show ?thesis by simp
    next
      case sk2: (Ok skip)
      show ?thesis
      proof (cases skip)
        case True
        let ?logs = "seq (logger_write en (TAB # save_scp_train sf @ '' sucessfully created!'') Debug) (
           seq (logger_write en (TAB # save_scp_dev sf @ '' sucessfully created!'') Debug)
               (logger_write en (TAB # save_scp_test sf @ '' sucessfully created!'') Debug))"
        from run ed Ok sk w2 sk2 True have lg: "?logs w1 = (r, w')"
          by (simp add: seq_def bind_def)
        have "stable (grow ?P) ?logs"
          by (intro stable_seq rel_ok_grow stable_logger_grow) (simp_all add: saves_at_def)
        from stableD [OF this lg] g1 have "grow ?P w w'" by (blast intro: grow_trans)
        with quiet show ?thesis .
      next
        case False
        obtain r3 w3 where b: "timit_build en c a sf w1 = (r3, w3)"
          by (cases "timit_build en c a sf w1")
        have g3: "grow ?P w1 w3"
          by (rule stableD [OF timit_build_grow b])
             (simp_all add: saves_at_def timit_label_path_not_opt [unfolded saves_at_def, simplified])
        show ?thesis
        proof (cases r3)
          case (Raise e)
          with run ed Ok sk w2 sk2 False b have "w' = w3" by (simp add: seq_def bind_def)
          with g1 g3 quiet show ?thesis by (blast intro: grow_trans)
        next
          case ok3: (Ok u3)
          with run ed Ok sk w2 sk2 False b have
            "r = Ok ()" "trace w' = trace w3 @ [SavePkl (timit_save_opt sf) (PTimit c)]"
            by (auto simp: seq_def bind_def save_pkl_def)
          with built [OF g1 g3] b ok3 show ?thesis by simp
        qed
      qed
    qed
  qed
qed

lemma timit_prepare_fingerprint:
  assumes "timit_prepare en c a w = (r, w')" "resolve_save_folder (t_save_folder c) a = Inr sf"
  shows "\<exists>evs. trace w' = trace w @ evs
     \<and> (\<forall>pre v post. evs = pre @ SavePkl (timit_save_opt sf) v # post
          \<longrightarrow> post = [] \<and> v = PTimit c \<and> r = Ok ()
            \<and> (''train'' \<in> set (t_splits c) \<longrightarrow> (\<exists>ls. WriteTxt (save_scp_train sf) ls \<in> set pre))
            \<and> (''dev'' \<in> set (t_splits c) \<longrightarrow> (\<exists>ls. WriteTxt (save_scp_dev sf) ls \<in> set pre))
            \<and> (''test'' \<in> set (t_splits c) \<longrightarrow> (\<exists>ls. WriteTxt (save_scp_test sf) ls \<in> set pre)))"
  using assms
proof (cases rule: timit_prepare_cases)
  case quiet
  then obtain evs where e: "trace w' = trace w @ evs" by (auto simp: grow_def)
  have "evs \<noteq> pre @ SavePkl (timit_save_opt sf) v # post" for pre v post
    by (rule no_event_in_grow [OF quiet e]) (simp add: saves_at_def)
  with e show ?thesis by blast
next
  case (built w1 w3)
  let ?P = "\<lambda>e. \<not> saves_at (timit_save_opt sf) e"
  from built(1) obtain e1 where e1: "trace w1 = trace w @ e1" "list_all ?P e1"
    by (auto simp: grow_def)
  from built(2) obtain e3 where e3: "trace w3 = trace w1 @ e3" "list_all ?P e3"
    by (auto simp: grow_def)
  note wr = timit_build_writes [OF built(3) e3(1)]
  let ?evs = "(e1 @ e3) @ [SavePkl (timit_save_opt sf) (PTimit c)]"
  have tr: "trace w' = trace w @ ?evs" using built(4) e1(1) e3(1) by simp
  have all: "list_all ?P (e1 @ e3)" using e1(2) e3(2) by simp
  have "post = [] \<and> v = PTimit c \<and> r = Ok ()
            \<and> (''train'' \<in> set (t_splits c) \<longrightarrow> (\<exists>ls. WriteTxt (save_scp_train sf) ls \<in> set pre))
            \<and> (''dev'' \<in> set (t_splits c) \<longrightarrow> (\<exists>ls. WriteTxt (save_scp_dev sf) ls \<in> set pre))
            \<and> (''test'' \<in> set (t_splits c) \<longrightarrow> (\<exists>ls. WriteTxt (save_scp_test sf) ls \<in> set pre))"
    if d: "?evs = pre @ SavePkl (timit_save_opt sf) v # post" for pre v post
  proof -
    have "\<not> ?P (SavePkl (timit_save_opt sf) v)" by (simp add: saves_at_def)
    from last_event_unique [OF all this d] have
      u: "pre = e1 @ e3" "SavePkl (timit_save_opt sf) v = SavePkl (timit_save_opt sf) (PTimit c)" "post = []"
      by simp_all
    from u(2) have "v = PTimit c" by simp
    with u(1,3) wr built(5) show ?thesis by auto
  qed
  with tr show ?thesis by blast
qed

lemma seq_assoc: "seq (seq f g) h = seq f (seq g h)"
  by (rule ext) (simp add: seq_def bind_def split: prod.splits res.splits)

lemma libri_loop_grow: "rel_ok R \<Longrightarrow> stable R (libri_loop en td sel wavs ls cnt)"
  by (rule stable_pure) (simp_all add: snd_libri_loop)

lemma librispeech_create_scp_grow:
  assumes "\<And>lv msg. P (Log lv msg)" "\<And>p ls. P (WriteTxt p ls)"
  shows "stable (grow P) (librispeech_create_scp en sf wavs td split sel)"
proof -
  have "stable (grow P) (write_txt_file ls p)" for ls p
    by (simp add: stable_def grow_def write_txt_file_def assms(2))
  then show ?thesis unfolding librispeech_create_scp_def
    by (intro stable_seq stable_bind rel_ok_grow stable_logger_grow libri_loop_grow assms(1))
qed

lemma librispeech_create_scp_writes:
  assumes "librispeech_create_scp en sf wavs td split sel w = (Ok (), w')"
    and "trace w' = trace w @ evs"
  shows "\<exists>ls. WriteTxt (libri_scp sf split) ls \<in> set evs"
proof -
  from assms(1) obtain w1 ls w2 w3 where
    a: "logger_write en (TAB # ''Creating scp lists in  '' @ libri_scp sf split @ ''...'') Debug w = (Ok (), w1)"
    and b: "libri_loop en td sel wavs [] 0 w1 = (Ok ls, w2)"
    and c: "write_txt_file ls (libri_scp sf split) w2 = (Ok (), w3)"
    and d: "logger_write en (TAB # libri_scp sf split @ '' sucessfully created!'') Debug w3 = (Ok (), w')"
    unfolding librispeech_create_scp_def seq_Ok bind_Ok by blast
  from snd_libri_loop [of en td sel wavs "[]" 0 w1] b have "w2 = w1" by simp
  with logger_write_Ok [OF a] logger_write_Ok [OF d] c assms(2) show ?thesis
    by (auto simp: write_txt_file_def)
qed

lemma snd_text_to_dict_loop: "snd (text_to_dict_loop fs d w) = w"
proof (induction fs arbitrary: d)
  case Nil
  show ?case by (simp add: ret_def)
next
  case (Cons f fs)
  show ?case
    using Cons.IH
    by (auto simp: bind_def open_lines_def lift_opt_def ret_def throw_def
        split: option.splits content.splits res.splits prod.splits)
qed

lemma libri_split_grow:
  assumes "\<And>lv msg. P (Log lv msg)" "\<And>p ls. P (WriteTxt p ls)"
  shows "stable (grow P) (libri_split en c sf i split)"
proof -
  have cs: "stable (grow P) (librispeech_create_scp en sf wavs td split sel)" for wavs td sel
    by (rule librispeech_create_scp_grow) (rule assms)+
  have td: "stable (grow P) (text_to_dict fs)" for fs
    unfolding text_to_dict_def by (rule stable_pure) (simp_all add: rel_ok_grow snd_text_to_dict_loop)
  have "stable (grow P) (bind (text_to_dict fs) (\<lambda>text_dict.
         bind (case l_select_n_sentences c of
                 None \<Rightarrow> ret (length wavs)
               | Some ns \<Rightarrow> lift_opt IndexError (index_at ns i)) (\<lambda>select_n_sentences.
         librispeech_create_scp en sf wavs text_dict split select_n_sentences)))" for fs wavs
    by (intro stable_bind rel_ok_grow td cs)
       (auto split: option.splits intro: stable_ret stable_lift_opt rel_ok_grow)
  then show ?thesis by (simp add: libri_split_def stable_def Let_def)
qed

lemma libri_split_writes:
  assumes "libri_split en c sf i split w = (Ok (), w')" "trace w' = trace w @ evs"
  shows "\<exists>ls. WriteTxt (libri_scp sf split) ls \<in> set evs"
proof -
  let ?wavs = "get_all_files w (l_data_folder c @ ''/'' @ split) [''.flac''] None None"
  let ?txts = "get_all_files w (l_data_folder c @ ''/'' @ split) [''trans.txt''] None None"
  from assms(1) obtain td w1 sel w2 where
    a: "text_to_dict ?txts w = (Ok td, w1)"
    and b: "(case l_select_n_sentences c of
                 None \<Rightarrow> ret (length ?wavs)
               | Some ns \<Rightarrow> lift_opt IndexError (index_at ns i)) w1 = (Ok sel, w2)"
    and c: "librispeech_create_scp en sf ?wavs td split sel w2 = (Ok (), w')"
    unfolding libri_split_def Let_def bind_Ok by blast
  from a snd_text_to_dict_loop [of ?txts Map.empty w] have "w1 = w" by (simp add: text_to_dict_def)
  moreover from b have "w2 = w1" by (auto simp: ret_Ok lift_opt_Ok split: option.splits)
  ultimately show ?thesis using librispeech_create_scp_writes [OF c] assms(2) by simp
qed

lemma libri_splits_loop_grow:
  assumes "\<And>lv msg. P (Log lv msg)" "\<And>p ls. P (WriteTxt p ls)"
  shows "stable (grow P) (libri_splits_loop en c sf i splits)"
proof (induction splits arbitrary: i)
  case Nil
  show ?case by (simp add: stable_ret rel_ok_grow)
next
  case (Cons split splits)
  have "stable (grow P) (libri_split en c sf i split)" by (rule libri_split_grow) (rule assms)+
  with Cons.IH show ?case by (simp add: stable_seq rel_ok_grow)
qed

lemma libri_splits_loop_writes:
  "libri_splits_loop en c sf i splits w = (Ok (), w') \<Longrightarrow> trace w' = trace w @ evs \<Longrightarrow>
     split \<in> set splits \<Longrightarrow> \<exists>ls. WriteTxt (libri_scp sf split) ls \<in> set evs"
proof (induction splits arbitrary: i w evs)
  case Nil
  then show ?case by simp
next
  case (Cons s splits)
  from Cons.prems(1) obtain w1 where
    a: "libri_split en c sf i s w = (Ok (), w1)"
    and b: "libri_splits_loop en c sf (Suc i) splits w1 = (Ok (), w')"
    by (auto simp: seq_Ok)
  have "grow (\<lambda>e. True) w w1" by (rule stableD [OF libri_split_grow a]) simp_all
  then obtain e1 where e1: "trace w1 = trace w @ e1" by (auto simp: grow_def)
  have "grow (\<lambda>e. True) w1 w'" by (rule stableD [OF libri_splits_loop_grow b]) simp_all
  then obtain e2 where e2: "trace w' = trace w1 @ e2" by (auto simp: grow_def)
  from e1 e2 Cons.prems(2) have ev: "evs = e1 @ e2" by simp
  show ?case
  proof (cases "split = s")
    case True
    with libri_split_writes [OF a e1] ev show ?thesis by auto
  next
    case False
    with Cons.prems(3) have "split \<in> set splits" by simp
    from Cons.IH [OF b e2 this] ev show ?thesis by auto
  qed
qed

lemma check_librispeech_folders_grow:
  assumes "\<And>lv msg. P (Log lv msg)"
  shows "stable (grow P) (check_librispeech_folders en c splits)"
proof (induction splits)
  case Nil
  show ?case by (simp add: stable_ret rel_ok_grow)
next
  case (Cons s splits)
  have a: "stable (grow P) (\<lambda>w. if b w then logger_write en msg Error w else (Ok (), w))" for b msg
    using stable_logger_grow [of P Error msg en, OF assms]
    by (simp add: stable_def grow_refl)
  show ?case by (simp only: check_librispeech_folders.simps) (intro stable_seq rel_ok_grow a Cons.IH)
qed

lemma libri_created_msgs_grow:
  assumes "\<And>lv msg. P (Log lv msg)"
  shows "stable (grow P) (libri_created_msgs en sf splits)"
  by (induction splits) (simp_all add: stable_ret stable_seq rel_ok_grow stable_logger_grow assms)

lemma snd_librispeech_skip: "snd (librispeech_skip c sf w) = w"
  by (auto simp: librispeech_skip_def Let_def bind_def ret_def load_pkl_def
      split: option.splits content.splits)

lemma librispeech_prepare_cases:
  assumes "librispeech_prepare en c a w = (r, w')" "resolve_save_folder (l_save_folder c) a = Inr sf"
  obtains (quiet) "grow (\<lambda>e. \<not> saves_at (libri_save_opt sf) e) w w'"
  | (built) w1 w3 where "grow (\<lambda>e. \<not> saves_at (libri_save_opt sf) e) w w1"
      "grow (\<lambda>e. \<not> saves_at (libri_save_opt sf) e) w1 w3"
      "seq (check_librispeech_folders en c (l_splits c)) (libri_splits_loop en c sf 0 (l_splits c)) w1
         = (Ok (), w3)"
      "trace w' = trace w3 @ [SavePkl (libri_save_opt sf) (PLibri c)]" "r = Ok ()"
proof -
  let ?P = "\<lambda>e. \<not> saves_at (libri_save_opt sf) e"
  let ?build = "seq (check_librispeech_folders en c (l_splits c)) (libri_splits_loop en c sf 0 (l_splits c))"
  let ?rest = "bind (librispeech_skip c sf) (\<lambda>skip.
     if skip then libri_created_msgs en sf (l_splits c)
     else seq (check_librispeech_folders en c (l_splits c))
            (seq (libri_splits_loop en c sf 0 (l_splits c)) (save_pkl (PLibri c) (libri_save_opt sf))))"
  have "librispeech_prepare en c a w = seq (ensure_dir en sf) ?rest w"
    by (simp add: librispeech_prepare_def assms(2) lift_sum_def bind_def ret_def)
  with assms(1) have run: "seq (ensure_dir en sf) ?rest w = (r, w')" by simp
  have lg: "?P (Log lv msg)" for lv msg by (simp add: saves_at_def)
  have wt: "?P (WriteTxt p ls)" for p ls by (simp add: saves_at_def)
  obtain r1 w1 where ed: "ensure_dir en sf w = (r1, w1)" by (cases "ensure_dir en sf w")
  have g1: "grow ?P w w1"
    by (rule stableD [OF stable_ensure_dir_grow ed]) (simp add: saves_at_def)
  show ?thesis
  proof (cases r1)
    case (Raise e)
    with run ed have "w' = w1" by (simp add: seq_def bind_def)
    with g1 quiet show ?thesis by simp
  next
    case (Ok u)
    obtain r2 w2 where sk: "librispeech_skip c sf w1 = (r2, w2)" by (cases "librispeech_skip c sf w1")
    with snd_librispeech_skip [of c sf w1] have w2: "w2 = w1" by simp
    show ?thesis
    proof (cases r2)
      case (Raise e)
      with run ed Ok sk w2 have "w' = w1" by (simp add: seq_def bind_def)
      with g1 quiet show ?thesis by simp
    next
      case sk2: (Ok skip)
      show ?thesis
      proof (cases skip)
        case True
        from run ed Ok sk w2 sk2 True have m: "libri_created_msgs en sf (l_splits c) w1 = (r, w')"
          by (simp add: seq_def bind_def)
        have "stable (grow ?P) (libri_created_msgs en sf (l_splits c))"
          by (rule libri_created_msgs_grow) (rule lg)
        from stableD [OF this m] g1 have "grow ?P w w'" by (blast intro: grow_trans)
        with quiet show ?thesis .
      next
        case False
        from run ed Ok sk w2 sk2 False have
          "seq (check_librispeech_folders en c (l_splits c))
            (seq (libri_splits_loop en c sf 0 (l_splits c)) (save_pkl (PLibri c) (libri_save_opt sf))) w1
             = (r, w')"
          by (simp add: seq_def bind_def)
        then have fb: "seq ?build (save_pkl (PLibri c) (libri_save_opt sf)) w1 = (r, w')"
          by (simp only: seq_assoc)
        obtain r3 w3 where b: "?build w1 = (r3, w3)" by (cases "?build w1")
        have "stable (grow ?P) ?build"
          by (intro stable_seq rel_ok_grow check_librispeech_folders_grow libri_splits_loop_grow lg wt)
        from stableD [OF this b] have g3: "grow ?P w1 w3" .
        show ?thesis
        proof (cases r3)
          case (Raise e)
          with fb b have "w' = w3" by (simp add: seq_def [of ?build] bind_def)
          with g1 g3 quiet show ?thesis by (blast intro: grow_trans)
        next
          case ok3: (Ok u3)
          with fb b have
            "r = Ok ()" "trace w' = trace w3 @ [SavePkl (libri_save_opt sf) (PLibri c)]"
            by (auto simp: seq_def [of ?build] bind_def save_pkl_def)
          with built [OF g1 g3] b ok3 show ?thesis by simp
        qed
      qed
    qed
  qed
qed

lemma librispeech_prepare_fingerprint:
  assumes "librispeech_prepare en c a w = (r, w')" "resolve_save_folder (l_save_folder c) a = Inr sf"
  shows "\<exists>evs. trace w' = trace w @ evs
     \<and> (\<forall>pre v post. evs = pre @ SavePkl (libri_save_opt sf) v # post
          \<longrightarrow> post = [] \<and> v = PLibri c \<and> r = Ok ()
            \<and> (\<forall>split\<in>set (l_splits c). \<exists>ls. WriteTxt (libri_scp sf split) ls \<in> set pre))"
  using assms
proof (cases rule: librispeech_prepare_cases)
  case quiet
  then obtain evs where e: "trace w' = trace w @ evs" by (auto simp: grow_def)
  have "evs \<noteq> pre @ SavePkl (libri_save_opt sf) v # post" for pre v post
    by (rule no_event_in_grow [OF quiet e]) (simp add: saves_at_def)
  with e show ?thesis by blast
next
  case (built w1 w3)
  let ?P = "\<lambda>e. \<not> saves_at (libri_save_opt sf) e"
  from built(1) obtain e1 where e1: "trace w1 = trace w @ e1" "list_all ?P e1"
    by (auto simp: grow_def)
  from built(2) obtain e3 where e3: "trace w3 = trace w1 @ e3" "list_all ?P e3"
    by (auto simp: grow_def)
  from built(3) obtain wc where
    ck: "check_librispeech_folders en c (l_splits c) w1 = (Ok (), wc)"
    and lp: "libri_splits_loop en c sf 0 (l_splits c) wc = (Ok (), w3)"
    by (auto simp: seq_Ok)
  have "grow (\<lambda>e. True) w1 wc" by (rule stableD [OF check_librispeech_folders_grow ck]) simp
  then obtain ec where ec: "trace wc = trace w1 @ ec" by (auto simp: grow_def)
  have "grow (\<lambda>e. True) wc w3" by (rule stableD [OF libri_splits_loop_grow lp]) simp_all
  then obtain el where el: "trace w3 = trace wc @ el" by (auto simp: grow_def)
  from ec el e3(1) have e3d: "e3 = ec @ el" by simp
  have wr: "\<exists>ls. WriteTxt (libri_scp sf split) ls \<in> set e3" if "split \<in> set (l_splits c)" for split
    using libri_splits_loop_writes [OF lp el that] e3d by auto
  let ?evs = "(e1 @ e3) @ [SavePkl (libri_save_opt sf) (PLibri c)]"
  have tr: "trace w' = trace w @ ?evs" using built(4) e1(1) e3(1) by simp
  have all: "list_all ?P (e1 @ e3)" using e1(2) e3(2) by simp
  have "post = [] \<and> v = PLibri c \<and> r = Ok ()
            \<and> (\<forall>split\<in>set (l_splits c). \<exists>ls. WriteTxt (libri_scp sf split) ls \<in> set pre)"
    if d: "?evs = pre @ SavePkl (libri_save_opt sf) v # post" for pre v post
  proof -
    have "\<not> ?P (SavePkl (libri_save_opt sf) v)" by (simp add: saves_at_def)
    from last_event_unique [OF all this d] have
      u: "pre = e1 @ e3" "SavePkl (libri_save_opt sf) v = SavePkl (libri_save_opt sf) (PLibri c)" "post = []"
      by simp_all
    from u(2) have "v = PLibri c" by simp
    with u(1,3) wr built(5) show ?thesis by auto
  qed
  with tr show ?thesis by blast
qed

section \<open>Preparations of small corpora\<close>

lemmas prep_defs = timit_prepare_def resolve_save_folder_def timit_skip_def timit_build_def
  check_timit_folders_def timit_split_def get_all_files_def under_def selected_def
  avoid_sentences_def extension_def timit_save_opt_def save_scp_train_def save_scp_dev_def
  save_scp_test_def load_pkl_def librispeech_prepare_def librispeech_skip_def libri_save_opt_def
  libri_scp_def libri_split_def text_to_dict_def librispeech_create_scp_def libri_body_def
  libri_snt_id_def libri_spk_id_def libri_scp_line_def strip_def is_space_def

lemma timit_run1_result: "timit_run1 = (Ok (), timit_world1)"
  unfolding timit_run1_def timit_world1_def timit_events_def timit_line_a_def
  by (simp add: prep_defs run_defs timit_world_def timit_conf0_def args0_def env1_def)

lemma timit_run2_result:
  "timit_run2 = (Ok (), timit_world1\<lparr>trace := timit_events @ timit_events\<rparr>)"
  unfolding timit_run2_def timit_run1_result snd_conv
  unfolding timit_world1_def timit_events_def timit_line_a_def
  by (simp add: prep_defs run_defs timit_world_def timit_conf0_def args0_def env1_def)

lemma libri_run1_result:
  "libri_run1 = (Ok (), libri_world\<lparr>files := files libri_world @
       [(''/e/dev.scp'', Txt [libri_line]), (''/e/opt_librispeech_prepare.pkl'', Pkl (PLibri libri_conf0))],
     trace := libri_events\<rparr>)"
  unfolding libri_run1_def libri_events_def libri_line_def
  by (simp add: prep_defs run_defs libri_world_def libri_conf0_def args0_def env1_def)

lemma stale_skip_result: "librispeech_skip libri_conf0 ''/e'' stale_world = (Ok True, stale_world)"
  by (simp add: prep_defs run_defs stale_world_def libri_conf0_def)

lemma stale_run_result:
  "librispeech_prepare env1 libri_conf0 args0 stale_world
     = (Ok (), stale_world\<lparr>trace := [Log Debug (TAB # ''/e/dev.scp created!'')]\<rparr>)"
  by (simp add: prep_defs run_defs stale_world_def libri_conf0_def args0_def env1_def)

section \<open>The fingerprint, the skip decision and the discovery of files\<close>

text \<open>Claim C6. In every run of \<open>timit_prepare\<close> and of \<open>librispeech_prepare\<close>, wherever
  the options file (the fingerprint, \<open>save_opt\<close>) is written, a manifest has been written before
  it for every requested split, and nothing follows it: it is the last event of a run that
  returns, and it holds the configuration of the run.\<close>

theorem fingerprint_after_manifests:
  "(timit_prepare en c a w = (r, w') \<and> resolve_save_folder (t_save_folder c) a = Inr sf
     \<longrightarrow> (\<exists>evs. trace w' = trace w @ evs
          \<and> (\<forall>pre v post. evs = pre @ SavePkl (timit_save_opt sf) v # post
               \<longrightarrow> post = [] \<and> v = PTimit c \<and> r = Ok ()
                 \<and> (''train'' \<in> set (t_splits c) \<longrightarrow> (\<exists>ls. WriteTxt (save_scp_train sf) ls \<in> set pre))
                 \<and> (''dev'' \<in> set (t_splits c) \<longrightarrow> (\<exists>ls. WriteTxt (save_scp_dev sf) ls \<in> set pre))
                 \<and> (''test'' \<in> set (t_splits c) \<longrightarrow> (\<exists>ls. WriteTxt (save_scp_test sf) ls \<in> set pre)))))
   \<and> (librispeech_prepare en lc a w = (r, w') \<and> resolve_save_folder (l_save_folder lc) a = Inr sf
     \<longrightarrow> (\<exists>evs. trace w' = trace w @ evs
          \<and> (\<forall>pre v post. evs = pre @ SavePkl (libri_save_opt sf) v # post
               \<longrightarrow> post = [] \<and> v = PLibri lc \<and> r = Ok ()
                 \<and> (\<forall>split\<in>set (l_splits lc). \<exists>ls. WriteTxt (libri_scp sf split) ls \<in> set pre))))"
  using timit_prepare_fingerprint [of en c a w r w' sf]
    librispeech_prepare_fingerprint [of en lc a w r w' sf]
  by blast

theorem fingerprint_after_manifests_witness:
  "fst timit_run1 = Ok () \<and> ''train'' \<in> set (t_splits timit_conf0)
   \<and> trace (snd timit_run1) = trace timit_world @ butlast timit_events
        @ SavePkl (timit_save_opt ''/e'') (PTimit timit_conf0) # []
   \<and> (\<exists>ls. WriteTxt (save_scp_train ''/e'') ls \<in> set (butlast timit_events))
   \<and> fst libri_run1 = Ok () \<and> l_splits libri_conf0 = [''dev'']
   \<and> trace (snd libri_run1) = trace libri_world @ butlast libri_events
        @ SavePkl (libri_save_opt ''/e'') (PLibri libri_conf0) # []
   \<and> (\<exists>ls. WriteTxt (libri_scp ''/e'' ''dev'') ls \<in> set (butlast libri_events))"
proof -
  have t1: "timit_prepare env1 timit_conf0 args0 timit_world = (fst timit_run1, snd timit_run1)"
    by (simp add: timit_run1_def)
  have s1: "resolve_save_folder (t_save_folder timit_conf0) args0 = Inr ''/e''"
    by (simp add: resolve_save_folder_def timit_conf0_def)
  have tr1: "trace (snd timit_run1) = trace timit_world @ butlast timit_events
        @ SavePkl (timit_save_opt ''/e'') (PTimit timit_conf0) # []"
    by (simp add: timit_run1_result timit_world1_def timit_world_def timit_events_def timit_save_opt_def)
  have sp1: "''train'' \<in> set (t_splits timit_conf0)" by (simp add: timit_conf0_def)
  from fingerprint_after_manifests [where en = env1 and c = timit_conf0 and a = args0
      and w = timit_world and r = "fst timit_run1" and w' = "snd timit_run1" and sf = "''/e''",
      THEN conjunct1, THEN mp, OF conjI, OF t1 s1]
  obtain evs where e: "trace (snd timit_run1) = trace timit_world @ evs"
    and f: "\<forall>pre v post. evs = pre @ SavePkl (timit_save_opt ''/e'') v # post
               \<longrightarrow> post = [] \<and> v = PTimit timit_conf0 \<and> fst timit_run1 = Ok ()
                 \<and> (''train'' \<in> set (t_splits timit_conf0)
                      \<longrightarrow> (\<exists>ls. WriteTxt (save_scp_train ''/e'') ls \<in> set pre))
                 \<and> (''dev'' \<in> set (t_splits timit_conf0)
                      \<longrightarrow> (\<exists>ls. WriteTxt (save_scp_dev ''/e'') ls \<in> set pre))
                 \<and> (''test'' \<in> set (t_splits timit_conf0)
                      \<longrightarrow> (\<exists>ls. WriteTxt (save_scp_test ''/e'') ls \<in> set pre))"
    by blast
  from e tr1 have "evs = butlast timit_events @ SavePkl (timit_save_opt ''/e'') (PTimit timit_conf0) # []"
    by simp
  with f sp1 have T: "fst timit_run1 = Ok ()
     \<and> (\<exists>ls. WriteTxt (save_scp_train ''/e'') ls \<in> set (butlast timit_events))"
    by blast
  have t2: "librispeech_prepare env1 libri_conf0 args0 libri_world = (fst libri_run1, snd libri_run1)"
    by (simp add: libri_run1_def)
  have s2: "resolve_save_folder (l_save_folder libri_conf0) args0 = Inr ''/e''"
    by (simp add: resolve_save_folder_def libri_conf0_def)
  have tr2: "trace (snd libri_run1) = trace libri_world @ butlast libri_events
        @ SavePkl (libri_save_opt ''/e'') (PLibri libri_conf0) # []"
    by (simp add: libri_run1_result libri_world_def libri_events_def libri_save_opt_def)
  have sp2: "l_splits libri_conf0 = [''dev'']" by (simp add: libri_conf0_def)
  from fingerprint_after_manifests [where en = env1 and lc = libri_conf0 and a = args0
      and w = libri_world and r = "fst libri_run1" and w' = "snd libri_run1" and sf = "''/e''",
      THEN conjunct2, THEN mp, OF conjI, OF t2 s2]
  obtain evs2 where e2: "trace (snd libri_run1) = trace libri_world @ evs2"
    and f2: "\<forall>pre v post. evs2 = pre @ SavePkl (libri_save_opt ''/e'') v # post
               \<longrightarrow> post = [] \<and> v = PLibri libri_conf0 \<and> fst libri_run1 = Ok ()
                 \<and> (\<forall>split\<in>set (l_splits libri_conf0). \<exists>ls. WriteTxt (libri_scp ''/e'' split) ls \<in> set pre)"
    by blast
  from e2 tr2 have "evs2 = butlast libri_events @ SavePkl (libri_save_opt ''/e'') (PLibri libri_conf0) # []"
    by simp
  with f2 sp2 have L: "fst libri_run1 = Ok ()
     \<and> (\<exists>ls. WriteTxt (libri_scp ''/e'' ''dev'') ls \<in> set (butlast libri_events))"
    by fastforce
  from T L tr1 tr2 sp1 sp2 show ?thesis by blast
qed

lemma libri_skip_scan_all:
  "\<forall>split\<in>set splits. isfile w (libri_scp sf split) \<Longrightarrow> libri_skip_scan w sf splits b = b"
  by (induction splits arbitrary: b) simp_all

text \<open>Claim C1, where the code differs. \<open>librispeech_prepare.skip\<close> starts from
  \<open>skip = True\<close> and looks at the saved options only when their file exists: when the manifest
  of every split exists and the options file does not, it returns \<open>True\<close>.\<close>

theorem librispeech_skip_without_fingerprint:
  assumes "\<forall>split\<in>set (l_splits c). isfile w (libri_scp sf split)"
    and "\<not> isfile w (libri_save_opt sf)"
  shows "librispeech_skip c sf w = (Ok True, w)"
  using assms by (simp add: librispeech_skip_def libri_skip_scan_all)

theorem librispeech_skip_without_fingerprint_witness:
  "l_splits libri_conf0 = [''dev''] \<and> isfile stale_world (libri_scp ''/e'' ''dev'')
   \<and> \<not> isfile stale_world (libri_save_opt ''/e'')
   \<and> librispeech_skip libri_conf0 ''/e'' stale_world = (Ok True, stale_world)
   \<and> librispeech_prepare env1 libri_conf0 args0 stale_world
       = (Ok (), stale_world\<lparr>trace := [Log Debug (TAB # ''/e/dev.scp created!'')]\<rparr>)"
proof -
  have a: "l_splits libri_conf0 = [''dev'']" by (simp add: libri_conf0_def)
  have b: "isfile stale_world (libri_scp ''/e'' ''dev'')"
    by (simp add: isfile_def stale_world_def libri_scp_def)
  have c: "\<not> isfile stale_world (libri_save_opt ''/e'')"
    by (simp add: isfile_def stale_world_def libri_save_opt_def)
  from a b have "\<forall>split\<in>set (l_splits libri_conf0). isfile stale_world (libri_scp ''/e'' split)"
    by simp
  from librispeech_skip_without_fingerprint [OF this c] a b c stale_run_result
  show ?thesis by simp
qed

text \<open>Claim C5, where the code differs. \<open>timit_prepare.skip\<close> asks for \<open>train.scp\<close>,
  \<open>dev.scp\<close> and \<open>test.scp\<close> whatever the requested splits are: after a preparation of the
  \<open>train\<close> split alone, a second run on the same corpus and configuration does not skip and
  writes the manifest and the options again.\<close>

theorem timit_second_run_rewrites:
  "t_splits timit_conf0 = [''train'']
   \<and> fst timit_run1 = Ok ()
   \<and> isfile (snd timit_run1) (save_scp_train ''/e'')
   \<and> isfile (snd timit_run1) (timit_save_opt ''/e'')
   \<and> timit_skip timit_conf0 ''/e'' (snd timit_run1) = (Ok False, snd timit_run1)
   \<and> fst timit_run2 = Ok ()
   \<and> trace (snd timit_run2) = trace (snd timit_run1) @ timit_events
   \<and> WriteTxt ''/e/train.scp'' [timit_line_a] \<in> set timit_events
   \<and> SavePkl ''/e/opt_timit_prepare.pkl'' (PTimit timit_conf0) \<in> set timit_events"
  by (simp add: timit_run1_result timit_run2_result timit_world1_def timit_world_def timit_events_def
      timit_conf0_def timit_skip_def isfile_def save_scp_train_def save_scp_dev_def save_scp_test_def
      timit_save_opt_def)

lemma contains_iff: "contains s t = (\<exists>a b. s = a @ t @ b)"
proof (induction s)
  case Nil
  show ?case by auto
next
  case (Cons x xs)
  show ?case
  proof
    assume "contains (x # xs) t"
    then consider "take (length t) (x # xs) = t" | "contains xs t" by auto
    then show "\<exists>a b. x # xs = a @ t @ b"
    proof cases
      case 1
      then have "x # xs = [] @ t @ drop (length t) (x # xs)"
        by (metis append_Nil append_take_drop_id)
      then show ?thesis by blast
    next
      case 2
      with Cons.IH obtain a b where "xs = a @ t @ b" by blast
      then have "x # xs = (x # a) @ t @ b" by simp
      then show ?thesis by blast
    qed
  next
    assume "\<exists>a b. x # xs = a @ t @ b"
    then obtain a b where ab: "x # xs = a @ t @ b" by blast
    show "contains (x # xs) t"
    proof (cases a)
      case Nil
      with ab have "take (length t) (x # xs) = t" by (metis append_Nil append_eq_conv_conj)
      then show ?thesis by simp
    next
      case (Cons y ys)
      with ab have "xs = ys @ t @ b" by simp
      with Cons.IH have "contains xs t" by blast
      then show ?thesis by simp
    qed
  qed
qed

text \<open>Claim C4. A path is in the list \<open>get_all_files\<close> returns exactly when it is a file under
  the root whose path contains every token of \<open>match_and\<close>, one token of \<open>match_or\<close> when that
  list is given and not empty, and no token of \<open>exclude_or\<close>; containing a token is having it
  as a substring. An absent list is no constraint, and the result may be empty.\<close>

theorem get_all_files_discovery:
  "(p \<in> set (get_all_files w rt match_and match_or exclude_or))
     = (isfile w p \<and> under rt p
        \<and> (\<forall>t\<in>set match_and. \<exists>a b. p = a @ t @ b)
        \<and> (case match_or of None \<Rightarrow> True
            | Some ts \<Rightarrow> ts = [] \<or> (\<exists>t\<in>set ts. \<exists>a b. p = a @ t @ b))
        \<and> (case exclude_or of None \<Rightarrow> True
            | Some ts \<Rightarrow> \<not> (\<exists>t\<in>set ts. \<exists>a b. p = a @ t @ b)))"
proof -
  have f: "(p \<in> fst ` set (files w)) = isfile w p"
    by (simp add: isfile_def map_of_eq_None_iff)
  show ?thesis
    unfolding get_all_files_def selected_def
    by (auto simp: f list_all_iff list_ex_iff contains_iff split: option.splits)
qed

theorem get_all_files_discovery_witness:
  "get_all_files timit_world ''/d'' [''.wav'', ''train''] None (Some avoid_sentences)
      = [''/d/train/dr1/s/a.wav'']
   \<and> isfile timit_world ''/d/train/dr1/s/a.wav'' \<and> under ''/d'' ''/d/train/dr1/s/a.wav''
   \<and> (\<exists>a b. ''/d/train/dr1/s/a.wav'' = a @ ''train'' @ b)
   \<and> ''/d/train/dr1/s/a.wrd'' \<notin> set (get_all_files timit_world ''/d'' [''.wav'', ''train''] None (Some avoid_sentences))
   \<and> get_all_files timit_world ''/d'' [''.flac''] None None = []"
proof -
  have g: "get_all_files timit_world ''/d'' [''.wav'', ''train''] None (Some avoid_sentences)
      = [''/d/train/dr1/s/a.wav'']"
    by (simp add: get_all_files_def timit_world_def under_def selected_def avoid_sentences_def)
  have e: "get_all_files timit_world ''/d'' [''.flac''] None None = []"
    by (simp add: get_all_files_def timit_world_def under_def selected_def)
  have "''/d/train/dr1/s/a.wav'' \<in> set (get_all_files timit_world ''/d'' [''.wav'', ''train''] None (Some avoid_sentences))"
    by (simp add: g)
  from this [unfolded get_all_files_discovery]
  have "isfile timit_world ''/d/train/dr1/s/a.wav'' \<and> under ''/d'' ''/d/train/dr1/s/a.wav''
     \<and> (\<exists>a b. ''/d/train/dr1/s/a.wav'' = a @ ''train'' @ b)"
    by simp
  with g e show ?thesis by simp
qed

end
